theory Spec2Isabelle
  imports Main
begin

section \<open>Python values, errors and the external collaborators\<close>

text \<open>
  Python 2 \<open>str\<close> is a byte string. Every raise, failed assertion and early return of
  the source is a branch of the model: a stateful method returns the outcome together with
  the state as it is at the moment of returning or raising.
\<close>

type_synonym bytes = string

datatype error =
    AssertionError
  | KeyError
  | IndexError
  | TypeError
  | AttributeError
  | ZeroDivisionError
  | UnknownParentException
  | PyException string

text \<open>
  The values the caches hold: integers (balances, nonces, storage words), byte strings
  (code) and the flag \<open>True\<close> of the dirty set. No caller stores \<open>None\<close>.
  Dictionary keys are addresses (strings) or storage indices (integers).
\<close>

datatype pyval = PInt int | PStr bytes | PBool bool

datatype pykey = KStr bytes | KInt int

text \<open>Python's \<open>==\<close>: \<open>True == 1\<close> and \<open>False == 0\<close>; a string never equals a number.\<close>

fun py_eq :: "pyval \<Rightarrow> pyval \<Rightarrow> bool" where
  "py_eq (PInt a) (PInt b) = (a = b)"
| "py_eq (PStr a) (PStr b) = (a = b)"
| "py_eq (PBool a) (PBool b) = (a = b)"
| "py_eq (PInt a) (PBool b) = (a = (if b then 1 else 0))"
| "py_eq (PBool a) (PInt b) = (b = (if a then 1 else 0))"
| "py_eq (PStr a) (PInt b) = False"
| "py_eq (PStr a) (PBool b) = False"
| "py_eq (PInt a) (PStr b) = False"
| "py_eq (PBool a) (PStr b) = False"

text \<open>Truthiness, as \<open>if v:\<close> tests it.\<close>

fun truthy :: "pyval \<Rightarrow> bool" where
  "truthy (PInt n) = (n \<noteq> 0)"
| "truthy (PStr s) = (s \<noteq> [])"
| "truthy (PBool b) = b"

text \<open>\<open>x + value\<close> with an integer \<open>value\<close>.\<close>

fun py_add :: "pyval \<Rightarrow> int \<Rightarrow> error + int" where
  "py_add (PInt a) d = Inr (a + d)"
| "py_add (PBool a) d = Inr ((if a then 1 else 0) + d)"
| "py_add (PStr a) d = Inl TypeError"

datatype rlp = RStr bytes | RList "rlp list"

text \<open>
  Modelled from the spec: \<open>utils.big_endian_to_int\<close> is not among the sources; the spec
  reads a byte string as a big-endian unsigned integer, the empty string being zero.
\<close>

definition big_endian_to_int :: "bytes \<Rightarrow> int" where
  "big_endian_to_int s = foldl (\<lambda>acc c. acc * 256 + of_char c) 0 s"

subsection \<open>Constants of blocks.py\<close>

definition INITIAL_DIFFICULTY :: int where "INITIAL_DIFFICULTY = 2 ^ 17"
definition GENESIS_PREVHASH :: bytes where "GENESIS_PREVHASH = replicate 32 (CHR 0x00)"
definition GENESIS_GAS_LIMIT :: int where "GENESIS_GAS_LIMIT = 10 ^ 6"
definition MIN_GAS_LIMIT :: int where "MIN_GAS_LIMIT = 125000"
definition GASLIMIT_EMA_FACTOR :: int where "GASLIMIT_EMA_FACTOR = 1024"
definition finney :: int where "finney = 10 ^ 15"
definition BLOCK_REWARD :: int where "BLOCK_REWARD = 1500 * finney"
definition UNCLE_REWARD :: int where "UNCLE_REWARD = 15 * BLOCK_REWARD div 16"
definition NEPHEW_REWARD :: int where "NEPHEW_REWARD = BLOCK_REWARD div 32"
definition BLOCK_DIFF_FACTOR :: int where "BLOCK_DIFF_FACTOR = 1024"
definition GENESIS_MIN_GAS_PRICE :: int where "GENESIS_MIN_GAS_PRICE = 0"
definition BLKLIM_FACTOR_NOM :: int where "BLKLIM_FACTOR_NOM = 6"
definition BLKLIM_FACTOR_DEN :: int where "BLKLIM_FACTOR_DEN = 5"
definition DIFF_ADJUSTMENT_CUTOFF :: int where "DIFF_ADJUSTMENT_CUTOFF = 5"
definition RECORDING :: int where "RECORDING = 1"

text \<open>\<open>block_structure\<close> and \<open>acct_structure\<close>: field name and semantic type, in order.\<close>

definition block_structure :: "(string \<times> string) list" where
  "block_structure =
    [(''prevhash'', ''bin''), (''uncles_hash'', ''bin''), (''coinbase'', ''addr''),
     (''state_root'', ''trie_root''), (''tx_list_root'', ''trie_root''),
     (''difficulty'', ''int''), (''number'', ''int''), (''min_gas_price'', ''int''),
     (''gas_limit'', ''int''), (''gas_used'', ''int''), (''timestamp'', ''int''),
     (''extra_data'', ''bin''), (''nonce'', ''bin'')]"

definition acct_structure :: "(string \<times> string) list" where
  "acct_structure =
    [(''nonce'', ''int''), (''balance'', ''int''), (''storage'', ''trie_root''),
     (''code'', ''hash'')]"

text \<open>\<open>block_structure_rev[name][0]\<close> and \<open>acct_structure_rev[name][0]\<close>.\<close>

fun index_of :: "string \<Rightarrow> (string \<times> string) list \<Rightarrow> nat option" where
  "index_of name [] = None"
| "index_of name ((n, t) # rest) =
     (if n = name then Some 0 else map_option Suc (index_of name rest))"

subsection \<open>The heap\<close>

text \<open>
  Lists and tries are Python objects: the journal, the suicides list and the transactions
  trie are shared between a block and its snapshots, so they live in a store and are named
  by references. The heap is split by the role of the object.
\<close>

type_synonym ref = nat

record trie_obj =
  t_root_hash :: bytes
  t_proof_mode :: "int option"
  t_proof_nodes :: ref

type_synonym jentry = "string \<times> pykey \<times> pyval option \<times> pyval"

record store =
  journals :: "ref \<Rightarrow> jentry list"
  addrlists :: "ref \<Rightarrow> pyval list"
  msglists :: "ref \<Rightarrow> pyval list"
  nodelists :: "ref \<Rightarrow> bytes list"
  tries :: "ref \<Rightarrow> trie_obj"
  db :: "bytes \<rightharpoonup> bytes"
  next_ref :: ref

datatype block_class = BlockC | CachedBlockC

record block =
  prevhash :: bytes
  uncles_hash :: bytes
  coinbase :: bytes
  difficulty :: int
  number :: int
  min_gas_price :: int
  gas_limit :: int
  gas_used :: int
  timestamp :: int
  extra_data :: bytes
  nonce :: bytes
  uncles :: "bytes list list"
  suicides :: ref
  postqueue :: ref
  caches :: "string \<rightharpoonup> (pykey \<rightharpoonup> pyval)"
  journal :: ref
  transactions :: ref
  transaction_count :: int
  state :: ref
  proof_mode :: "int option"
  proof_nodes :: ref
  blank_acct :: "bytes list option"
  cls :: block_class
  hash_cached :: "bytes option"

type_synonym 'a res = "(error + 'a) \<times> store \<times> block"

text \<open>
  What a trie operation may touch: the key/value store, the proof-node lists and the trie
  object it is called on.
\<close>

type_synonym tctx = "(bytes \<rightharpoonup> bytes) \<times> (ref \<Rightarrow> bytes list) \<times> trie_obj"

text \<open>
  The modules \<open>utils\<close>, \<open>rlp\<close>, \<open>trie\<close> and \<open>db\<close> are not among the sources; their
  functions are parameters of the model. \<open>iter_items\<close> is the order in which Python
  enumerates a dictionary (\<open>iteritems\<close>; iterating the dictionary itself gives the keys
  in the same order). \<open>load_block\<close> reads and deserializes a stored block for
  \<open>get_block\<close>.
\<close>

record env =
  sha3 :: "bytes \<Rightarrow> bytes"
  rlp_encode :: "rlp \<Rightarrow> bytes"
  rlp_decode :: "bytes \<Rightarrow> error + rlp"
  encoders :: "string \<Rightarrow> pyval \<Rightarrow> error + bytes"
  ext_decoders :: "string \<Rightarrow> bytes \<Rightarrow> error + bytes"
  encode_int :: "int \<Rightarrow> error + bytes"
  hex_decode :: "bytes \<Rightarrow> error + bytes"
  zpad :: "bytes \<Rightarrow> nat \<Rightarrow> bytes"
  coerce_to_bytes :: "pykey \<Rightarrow> error + bytes"
  int_to_big_endian :: "pyval \<Rightarrow> error + bytes"
  BLANK_ROOT :: bytes
  trie_get :: "tctx \<Rightarrow> bytes \<Rightarrow> (error + bytes) \<times> tctx"
  trie_update :: "tctx \<Rightarrow> bytes \<Rightarrow> bytes \<Rightarrow> (error + unit) \<times> tctx"
  trie_delete :: "tctx \<Rightarrow> bytes \<Rightarrow> (error + unit) \<times> tctx"
  root_hash_valid :: "tctx \<Rightarrow> bool"
  iter_items :: "(pykey \<rightharpoonup> pyval) \<Rightarrow> (pykey \<times> pyval) list"
  load_block :: "store \<Rightarrow> bytes \<Rightarrow> (error + block) \<times> store"

text \<open>
  \<open>utils.decoders[typ]\<close>. Modelled from the spec: an integer is decoded as a big-endian
  unsigned integer; the other semantic types decode to byte strings.
\<close>

definition decoders :: "env \<Rightarrow> string \<Rightarrow> bytes \<Rightarrow> error + pyval" where
  "decoders env typ x =
     (if typ = ''int'' then Inr (PInt (big_endian_to_int x))
      else (case ext_decoders env typ x of Inl e \<Rightarrow> Inl e | Inr s \<Rightarrow> Inr (PStr s)))"

section \<open>Difficulty and gas-limit recurrences\<close>

definition calc_difficulty :: "block \<Rightarrow> int \<Rightarrow> int" where
  "calc_difficulty parent ts =
     (let offset = difficulty parent div BLOCK_DIFF_FACTOR;
          sign = (if ts - timestamp parent < DIFF_ADJUSTMENT_CUTOFF then 1 else - 1)
      in difficulty parent + offset * sign)"

definition calc_gaslimit :: "block \<Rightarrow> int" where
  "calc_gaslimit parent =
     (let prior_contribution = gas_limit parent * (GASLIMIT_EMA_FACTOR - 1);
          new_contribution = gas_used parent * BLKLIM_FACTOR_NOM div BLKLIM_FACTOR_DEN;
          gl = (prior_contribution + new_contribution) div GASLIMIT_EMA_FACTOR
      in max gl MIN_GAS_LIMIT)"

section \<open>Proof of work\<close>

text \<open>
  \<open>check_header_pow(header)\<close>: \<open>header[-1]\<close> and \<open>header[5]\<close> raise IndexError out of
  range, the assertion on the nonce raises AssertionError, and \<open>2 ** 256 / diff\<close> raises
  ZeroDivisionError for a zero difficulty.
\<close>

definition check_header_pow :: "env \<Rightarrow> bytes list \<Rightarrow> error + bool" where
  "check_header_pow env header =
     (if header = [] then Inl IndexError
      else if length (last header) \<noteq> 32 then Inl AssertionError
      else
        let rlp_Hn = rlp_encode env (RList (map RStr (butlast header)));
            nonce' = last header
        in (case index_of ''difficulty'' block_structure of
              None \<Rightarrow> Inl KeyError
            | Some i \<Rightarrow>
               if length header \<le> i then Inl IndexError
               else (case decoders env ''int'' (header ! i) of
                       Inl e \<Rightarrow> Inl e
                     | Inr (PInt diff) \<Rightarrow>
                         let h = sha3 env (sha3 env rlp_Hn @ nonce')
                         in if diff = 0 then Inl ZeroDivisionError
                            else Inr (big_endian_to_int h < 2 ^ 256 div diff)
                     | Inr _ \<Rightarrow> Inl TypeError)))"

section \<open>The account cache and the journal\<close>

subsection \<open>Object allocation and trie handles\<close>

definition new_journal :: "store \<Rightarrow> ref \<times> store" where
  "new_journal st =
     (let r = next_ref st
      in (r, st\<lparr>journals := (journals st)(r := []), next_ref := Suc r\<rparr>))"

definition new_addrlist :: "pyval list \<Rightarrow> store \<Rightarrow> ref \<times> store" where
  "new_addrlist xs st =
     (let r = next_ref st
      in (r, st\<lparr>addrlists := (addrlists st)(r := xs), next_ref := Suc r\<rparr>))"

definition new_msglist :: "pyval list \<Rightarrow> store \<Rightarrow> ref \<times> store" where
  "new_msglist xs st =
     (let r = next_ref st
      in (r, st\<lparr>msglists := (msglists st)(r := xs), next_ref := Suc r\<rparr>))"

definition new_nodelist :: "store \<Rightarrow> ref \<times> store" where
  "new_nodelist st =
     (let r = next_ref st
      in (r, st\<lparr>nodelists := (nodelists st)(r := []), next_ref := Suc r\<rparr>))"

text \<open>
  Modelled from the spec: the constructor \<open>trie.Trie(path, root)\<close> is not among the
  sources; the spec's trie is reopened at a root, so the new handle carries that root, no
  proof mode and a proof-node list of its own.
\<close>

definition Trie :: "store \<Rightarrow> bytes \<Rightarrow> trie_obj \<times> store" where
  "Trie st root =
     (case new_nodelist st of
        (r, st') \<Rightarrow> (\<lparr>t_root_hash = root, t_proof_mode = None, t_proof_nodes = r\<rparr>, st'))"

definition new_trie :: "store \<Rightarrow> bytes \<Rightarrow> ref \<times> store" where
  "new_trie st root =
     (case Trie st root of
        (t, st') \<Rightarrow>
          (let r = next_ref st'
           in (r, st'\<lparr>tries := (tries st')(r := t), next_ref := Suc r\<rparr>)))"

text \<open>A trie operation on a local handle, and on a handle stored in the heap.\<close>

definition on_local_trie ::
  "(tctx \<Rightarrow> 'a \<times> tctx) \<Rightarrow> store \<Rightarrow> trie_obj \<Rightarrow> 'a \<times> store \<times> trie_obj" where
  "on_local_trie f st t =
     (case f (db st, nodelists st, t) of
        (r, (d', n', t')) \<Rightarrow> (r, st\<lparr>db := d', nodelists := n'\<rparr>, t'))"

definition on_trie :: "(tctx \<Rightarrow> 'a \<times> tctx) \<Rightarrow> store \<Rightarrow> ref \<Rightarrow> 'a \<times> store" where
  "on_trie f st r =
     (case on_local_trie f st (tries st r) of
        (x, st', t') \<Rightarrow> (x, st'\<lparr>tries := (tries st')(r := t')\<rparr>))"

subsection \<open>Reading accounts\<close>

definition rlp_truthy :: "rlp \<Rightarrow> bool" where
  "rlp_truthy r = (case r of RStr s \<Rightarrow> s \<noteq> [] | RList xs \<Rightarrow> xs \<noteq> [])"

text \<open>\<open>acct[i]\<close>: a list gives its item, a string its one-character substring.\<close>

definition rlp_item :: "rlp \<Rightarrow> nat \<Rightarrow> error + rlp" where
  "rlp_item r i =
     (case r of
        RList xs \<Rightarrow> (if i < length xs then Inr (xs ! i) else Inl IndexError)
      | RStr s \<Rightarrow> (if i < length s then Inr (RStr [s ! i]) else Inl IndexError))"

text \<open>\<open>acct[i] = x\<close>: a string does not support item assignment.\<close>

definition rlp_set_item :: "rlp \<Rightarrow> nat \<Rightarrow> bytes \<Rightarrow> error + rlp" where
  "rlp_set_item r i x =
     (case r of
        RList xs \<Rightarrow> (if i < length xs then Inr (RList (xs[i := RStr x])) else Inl IndexError)
      | RStr s \<Rightarrow> Inl TypeError)"

definition decode_item :: "env \<Rightarrow> string \<Rightarrow> rlp \<Rightarrow> error + pyval" where
  "decode_item env typ r =
     (case r of RStr s \<Rightarrow> decoders env typ s | RList xs \<Rightarrow> Inl TypeError)"

definition mk_blank_acct :: "env \<Rightarrow> store \<Rightarrow> block \<Rightarrow> (bytes list) res" where
  "mk_blank_acct env st b =
     (case blank_acct b of
        Some a \<Rightarrow> (Inr a, st, b)
      | None \<Rightarrow>
          (let codehash = [];
               st1 = st\<lparr>db := (db st)(codehash \<mapsto> [])\<rparr>
           in (case encode_int env 0 of
                 Inl e \<Rightarrow> (Inl e, st1, b)
               | Inr z \<Rightarrow>
                   (let a = [z, z, BLANK_ROOT env, codehash]
                    in (Inr a, st1, b\<lparr>blank_acct := Some a\<rparr>)))))"

fun decode_fields :: "env \<Rightarrow> rlp \<Rightarrow> nat \<Rightarrow> (string \<times> string) list \<Rightarrow> error + pyval list" where
  "decode_fields env acct i [] = Inr []"
| "decode_fields env acct i ((n, t) # rest) =
     (case rlp_item acct i of
        Inl e \<Rightarrow> Inl e
      | Inr it \<Rightarrow>
          (case decode_item env t it of
             Inl e \<Rightarrow> Inl e
           | Inr v \<Rightarrow>
               (case decode_fields env acct (Suc i) rest of
                  Inl e \<Rightarrow> Inl e
                | Inr vs \<Rightarrow> Inr (v # vs))))"

text \<open>\<open>rlp.decode(self.state.get(address)) or self.mk_blank_acct()\<close>\<close>

definition load_acct :: "env \<Rightarrow> store \<Rightarrow> block \<Rightarrow> bytes \<Rightarrow> rlp res" where
  "load_acct env st b a =
     (case on_trie (\<lambda>c. trie_get env c a) st (state b) of
        (Inl e, st1) \<Rightarrow> (Inl e, st1, b)
      | (Inr raw, st1) \<Rightarrow>
          (case rlp_decode env raw of
             Inl e \<Rightarrow> (Inl e, st1, b)
           | Inr r \<Rightarrow>
               if rlp_truthy r then (Inr r, st1, b)
               else (case mk_blank_acct env st1 b of
                       (Inl e, st2, b2) \<Rightarrow> (Inl e, st2, b2)
                     | (Inr blank, st2, b2) \<Rightarrow> (Inr (RList (map RStr blank)), st2, b2))))"

definition get_acct :: "env \<Rightarrow> store \<Rightarrow> block \<Rightarrow> bytes \<Rightarrow> (pyval list) res" where
  "get_acct env st b address =
     (case (if length address = 40 then hex_decode env address else Inr address) of
        Inl e \<Rightarrow> (Inl e, st, b)
      | Inr a \<Rightarrow>
          (case load_acct env st b a of
             (Inl e, st2, b2) \<Rightarrow> (Inl e, st2, b2)
           | (Inr acct, st2, b2) \<Rightarrow>
               (case decode_fields env acct 0 acct_structure of
                  Inl e \<Rightarrow> (Inl e, st2, b2)
                | Inr vs \<Rightarrow> (Inr vs, st2, b2))))"

text \<open>\<open>self.get_acct(address)[acct_structure_rev[param][0]]\<close>\<close>

definition get_acct_field :: "env \<Rightarrow> store \<Rightarrow> block \<Rightarrow> bytes \<Rightarrow> string \<Rightarrow> pyval res" where
  "get_acct_field env st b address param =
     (case get_acct env st b address of
        (Inl e, st1, b1) \<Rightarrow> (Inl e, st1, b1)
      | (Inr vs, st1, b1) \<Rightarrow>
          (case index_of param acct_structure of
             None \<Rightarrow> (Inl KeyError, st1, b1)
           | Some i \<Rightarrow>
               if i < length vs then (Inr (vs ! i), st1, b1) else (Inl IndexError, st1, b1)))"

definition get_acct_item :: "env \<Rightarrow> store \<Rightarrow> block \<Rightarrow> bytes \<Rightarrow> string \<Rightarrow> pyval res" where
  "get_acct_item env st b address param =
     (if param \<noteq> ''storage'' then
        (case caches b param of
           None \<Rightarrow> (Inl KeyError, st, b)
         | Some d \<Rightarrow>
             (case d (KStr address) of
                Some v \<Rightarrow> (Inr v, st, b)
              | None \<Rightarrow> get_acct_field env st b address param))
      else get_acct_field env st b address param)"

subsection \<open>Writing accounts\<close>

definition set_and_journal :: "store \<Rightarrow> block \<Rightarrow> string \<Rightarrow> pykey \<Rightarrow> pyval \<Rightarrow> unit res" where
  "set_and_journal st b cache index v =
     (case caches b cache of
        None \<Rightarrow> (Inl KeyError, st, b)
      | Some d \<Rightarrow>
          (let prev = d index
           in if (case prev of None \<Rightarrow> True | Some p \<Rightarrow> \<not> py_eq p v) then
                (Inr (),
                 st\<lparr>journals := (journals st)
                       (journal b := journals st (journal b) @ [(cache, index, prev, v)])\<rparr>,
                 b\<lparr>caches := (caches b)(cache \<mapsto> d(index \<mapsto> v))\<rparr>)
              else (Inr (), st, b)))"

definition Block_set_acct_item ::
  "store \<Rightarrow> block \<Rightarrow> bytes \<Rightarrow> string \<Rightarrow> pyval \<Rightarrow> unit res" where
  "Block_set_acct_item st b address param v =
     (case set_and_journal st b param (KStr address) v of
        (Inl e, st1, b1) \<Rightarrow> (Inl e, st1, b1)
      | (Inr u, st1, b1) \<Rightarrow> set_and_journal st1 b1 ''all'' (KStr address) v)"

text \<open>
  The methods of \<open>CachedBlock\<close> take \<open>self\<close> only: called with further arguments they
  raise TypeError before their body runs, called with none they raise
  \<open>Exception('NotImplemented')\<close>.
\<close>

definition CachedBlock_set_acct_item :: "store \<Rightarrow> block \<Rightarrow> nat \<Rightarrow> unit res" where
  "CachedBlock_set_acct_item st b nargs =
     (if nargs = 0 then (Inl (PyException ''NotImplemented''), st, b) else (Inl TypeError, st, b))"

text \<open>\<open>self._set_acct_item(address, param, value)\<close>, dispatched on the class of \<open>self\<close>.\<close>

definition set_acct_item :: "store \<Rightarrow> block \<Rightarrow> bytes \<Rightarrow> string \<Rightarrow> pyval \<Rightarrow> unit res" where
  "set_acct_item st b address param v =
     (case cls b of
        BlockC \<Rightarrow> Block_set_acct_item st b address param v
      | CachedBlockC \<Rightarrow> CachedBlock_set_acct_item st b 3)"

definition delta_item :: "env \<Rightarrow> store \<Rightarrow> block \<Rightarrow> bytes \<Rightarrow> string \<Rightarrow> int \<Rightarrow> bool res" where
  "delta_item env st b address param d =
     (case get_acct_item env st b address param of
        (Inl e, st1, b1) \<Rightarrow> (Inl e, st1, b1)
      | (Inr cur, st1, b1) \<Rightarrow>
          (case py_add cur d of
             Inl e \<Rightarrow> (Inl e, st1, b1)
           | Inr v \<Rightarrow>
               if v < 0 then (Inr False, st1, b1)
               else (case set_acct_item st1 b1 address param (PInt v) of
                       (Inl e, st2, b2) \<Rightarrow> (Inl e, st2, b2)
                     | (Inr u, st2, b2) \<Rightarrow> (Inr True, st2, b2))))"

definition get_balance :: "env \<Rightarrow> store \<Rightarrow> block \<Rightarrow> bytes \<Rightarrow> pyval res" where
  "get_balance env st b address = get_acct_item env st b address ''balance''"

definition set_balance :: "store \<Rightarrow> block \<Rightarrow> bytes \<Rightarrow> pyval \<Rightarrow> unit res" where
  "set_balance st b address v = set_acct_item st b address ''balance'' v"

definition delta_balance :: "env \<Rightarrow> store \<Rightarrow> block \<Rightarrow> bytes \<Rightarrow> int \<Rightarrow> bool res" where
  "delta_balance env st b address d = delta_item env st b address ''balance'' d"

definition transfer_value ::
  "env \<Rightarrow> store \<Rightarrow> block \<Rightarrow> bytes \<Rightarrow> bytes \<Rightarrow> int \<Rightarrow> bool res" where
  "transfer_value env st b from_addr to_addr v =
     (if \<not> v \<ge> 0 then (Inl AssertionError, st, b)
      else (case delta_balance env st b from_addr (- v) of
              (Inl e, st1, b1) \<Rightarrow> (Inl e, st1, b1)
            | (Inr ok, st1, b1) \<Rightarrow>
                if ok then delta_balance env st1 b1 to_addr v
                else (Inr False, st1, b1)))"

definition set_storage_data :: "store \<Rightarrow> block \<Rightarrow> bytes \<Rightarrow> pykey \<Rightarrow> pyval \<Rightarrow> unit res" where
  "set_storage_data st b address index v =
     (if caches b (''storage:'' @ address) = None then
        (let b1 = b\<lparr>caches := (caches b)(''storage:'' @ address \<mapsto> Map.empty)\<rparr>
         in (case set_and_journal st b1 ''all'' (KStr address) (PBool True) of
               (Inl e, st2, b2) \<Rightarrow> (Inl e, st2, b2)
             | (Inr u, st2, b2) \<Rightarrow> set_and_journal st2 b2 (''storage:'' @ address) index v))
      else set_and_journal st b (''storage:'' @ address) index v)"

subsection \<open>Committing the cache to the state trie\<close>

definition reset_cache :: "store \<Rightarrow> block \<Rightarrow> store \<times> block" where
  "reset_cache st b =
     (let b1 = b\<lparr>caches := [''all'' \<mapsto> Map.empty, ''balance'' \<mapsto> Map.empty,
                             ''nonce'' \<mapsto> Map.empty, ''code'' \<mapsto> Map.empty]\<rparr>
      in (case new_journal st of (r, st') \<Rightarrow> (st', b1\<lparr>journal := r\<rparr>)))"

text \<open>The loop over \<open>self.caches.get('storage:'+address, {}).iteritems()\<close>.\<close>

fun commit_storage_items ::
  "env \<Rightarrow> store \<Rightarrow> trie_obj \<Rightarrow> (pykey \<times> pyval) list \<Rightarrow> (error + unit) \<times> store \<times> trie_obj" where
  "commit_storage_items env st t [] = (Inr (), st, t)"
| "commit_storage_items env st t ((k, v) # kvs) =
     (case coerce_to_bytes env k of
        Inl e \<Rightarrow> (Inl e, st, t)
      | Inr kb \<Rightarrow>
          (let enckey = zpad env kb 32
           in (case int_to_big_endian env v of
                 Inl e \<Rightarrow> (Inl e, st, t)
               | Inr vb \<Rightarrow>
                   (let val = rlp_encode env (RStr vb)
                    in (case on_local_trie
                               (\<lambda>c. if truthy v then trie_update env c enckey val
                                    else trie_delete env c enckey) st t of
                          (Inl e, st1, t1) \<Rightarrow> (Inl e, st1, t1)
                        | (Inr u, st1, t1) \<Rightarrow> commit_storage_items env st1 t1 kvs)))))"

text \<open>The branch \<open>key == 'storage'\<close> of the loop over the account fields.\<close>

definition commit_storage ::
  "env \<Rightarrow> store \<Rightarrow> block \<Rightarrow> bytes \<Rightarrow> rlp \<Rightarrow> nat \<Rightarrow> (error + rlp) \<times> store" where
  "commit_storage env st b address acct i =
     (case rlp_item acct i of
        Inl e \<Rightarrow> (Inl e, st)
      | Inr (RList xs) \<Rightarrow> (Inl TypeError, st)
      | Inr (RStr root) \<Rightarrow>
          (case Trie st root of
             (t0, st1) \<Rightarrow>
               (let t = t0\<lparr>t_proof_mode := proof_mode b, t_proof_nodes := proof_nodes b\<rparr>;
                    m = (case caches b (''storage:'' @ address) of
                           None \<Rightarrow> Map.empty | Some d \<Rightarrow> d)
                in (case commit_storage_items env st1 t (iter_items env m) of
                      (Inl e, st2, t2) \<Rightarrow> (Inl e, st2)
                    | (Inr u, st2, t2) \<Rightarrow>
                        (case rlp_set_item acct i (t_root_hash t2) of
                           Inl e \<Rightarrow> (Inl e, st2)
                         | Inr acct' \<Rightarrow>
                             (Inr acct',
                              if proof_mode b = Some RECORDING then
                                st2\<lparr>nodelists := (nodelists st2)
                                      (proof_nodes b := nodelists st2 (proof_nodes b)
                                                        @ nodelists st2 (t_proof_nodes t2))\<rparr>
                              else st2))))))"

text \<open>The other branch: \<open>if address in self.caches[key]: acct[i] = encoders[typ](v)\<close>.\<close>

definition commit_plain ::
  "env \<Rightarrow> block \<Rightarrow> pykey \<Rightarrow> rlp \<Rightarrow> nat \<Rightarrow> string \<Rightarrow> string \<Rightarrow> error + rlp" where
  "commit_plain env b address acct i key typ =
     (case caches b key of
        None \<Rightarrow> Inl KeyError
      | Some d \<Rightarrow>
          (case d address of
             None \<Rightarrow> Inr acct
           | Some v \<Rightarrow>
               (case encoders env typ v of
                  Inl e \<Rightarrow> Inl e
                | Inr x \<Rightarrow> rlp_set_item acct i x)))"

fun commit_fields ::
  "env \<Rightarrow> store \<Rightarrow> block \<Rightarrow> bytes \<Rightarrow> rlp \<Rightarrow> nat \<Rightarrow> (string \<times> string) list
     \<Rightarrow> (error + rlp) \<times> store" where
  "commit_fields env st b address acct i [] = (Inr acct, st)"
| "commit_fields env st b address acct i ((key, typ) # rest) =
     (if key = ''storage'' then
        (case commit_storage env st b address acct i of
           (Inl e, st1) \<Rightarrow> (Inl e, st1)
         | (Inr acct1, st1) \<Rightarrow> commit_fields env st1 b address acct1 (Suc i) rest)
      else
        (case commit_plain env b (KStr address) acct i key typ of
           Inl e \<Rightarrow> (Inl e, st)
         | Inr acct1 \<Rightarrow> commit_fields env st b address acct1 (Suc i) rest))"

text \<open>The body of \<open>for address in self.caches['all']\<close>.\<close>

definition commit_account :: "env \<Rightarrow> store \<Rightarrow> block \<Rightarrow> pykey \<Rightarrow> unit res" where
  "commit_account env st b k =
     (case k of
        KInt n \<Rightarrow> (Inl AttributeError, st, b)
      | KStr address \<Rightarrow>
          (case hex_decode env address of
             Inl e \<Rightarrow> (Inl e, st, b)
           | Inr a \<Rightarrow>
               (case load_acct env st b a of
                  (Inl e, st1, b1) \<Rightarrow> (Inl e, st1, b1)
                | (Inr acct, st1, b1) \<Rightarrow>
                    (case commit_fields env st1 b1 address acct 0 acct_structure of
                       (Inl e, st2) \<Rightarrow> (Inl e, st2, b1)
                     | (Inr acct2, st2) \<Rightarrow>
                         (case hex_decode env address of
                            Inl e \<Rightarrow> (Inl e, st2, b1)
                          | Inr a2 \<Rightarrow>
                              (case on_trie (\<lambda>c. trie_update env c a2 (rlp_encode env acct2))
                                      st2 (state b1) of
                                 (r, st3) \<Rightarrow> (r, st3, b1)))))))"

fun commit_accounts :: "env \<Rightarrow> store \<Rightarrow> block \<Rightarrow> pykey list \<Rightarrow> unit res" where
  "commit_accounts env st b [] = (Inr (), st, b)"
| "commit_accounts env st b (k # ks) =
     (case commit_account env st b k of
        (Inl e, st1, b1) \<Rightarrow> (Inl e, st1, b1)
      | (Inr u, st1, b1) \<Rightarrow> commit_accounts env st1 b1 ks)"

text \<open>
  \<open>self.proof_nodes.extend(self.state.proof_nodes); self.state.proof_nodes = []\<close>
\<close>

definition flush_proof_nodes :: "store \<Rightarrow> block \<Rightarrow> store" where
  "flush_proof_nodes st b =
     (let t = tries st (state b);
          st1 = st\<lparr>nodelists := (nodelists st)
                   (proof_nodes b := nodelists st (proof_nodes b)
                                     @ nodelists st (t_proof_nodes t))\<rparr>
      in (case new_nodelist st1 of
            (r, st2) \<Rightarrow> st2\<lparr>tries := (tries st2)(state b := t\<lparr>t_proof_nodes := r\<rparr>)\<rparr>))"

definition Block_commit_state :: "env \<Rightarrow> store \<Rightarrow> block \<Rightarrow> unit res" where
  "Block_commit_state env st b =
     (if length (journals st (journal b)) = 0 then (Inr (), st, b)
      else (case caches b ''all'' of
              None \<Rightarrow> (Inl KeyError, st, b)
            | Some dirty \<Rightarrow>
                (case commit_accounts env st b (map fst (iter_items env dirty)) of
                   (Inl e, st1, b1) \<Rightarrow> (Inl e, st1, b1)
                 | (Inr u, st1, b1) \<Rightarrow>
                     (let st2 = (if proof_mode b1 = Some RECORDING
                                 then flush_proof_nodes st1 b1 else st1)
                      in (case reset_cache st2 b1 of
                            (st3, b3) \<Rightarrow> (Inr (), st3, b3))))))"

text \<open>\<open>CachedBlock.commit_state\<close> is \<open>pass\<close>.\<close>

definition CachedBlock_commit_state :: "store \<Rightarrow> block \<Rightarrow> unit res" where
  "CachedBlock_commit_state st b = (Inr (), st, b)"

definition commit_state :: "env \<Rightarrow> store \<Rightarrow> block \<Rightarrow> unit res" where
  "commit_state env st b =
     (case cls b of
        BlockC \<Rightarrow> Block_commit_state env st b
      | CachedBlockC \<Rightarrow> CachedBlock_commit_state st b)"

subsection \<open>Snapshot and revert\<close>

record snapshot_rec =
  s_state :: bytes
  s_gas :: int
  s_txs :: ref
  s_txcount :: int
  s_postqueue :: ref
  s_suicides :: ref
  s_suicides_size :: nat
  s_journal :: ref
  s_journal_size :: nat

text \<open>
  The snapshot holds the journal, the suicides list and the transactions trie by
  reference, and a copy of the post-queue (a new list object).
\<close>

definition snapshot :: "store \<Rightarrow> block \<Rightarrow> snapshot_rec \<times> store" where
  "snapshot st b =
     (case new_msglist (msglists st (postqueue b)) st of
        (r, st') \<Rightarrow>
          (\<lparr>s_state = t_root_hash (tries st (state b)),
            s_gas = gas_used b,
            s_txs = transactions b,
            s_txcount = transaction_count b,
            s_postqueue = r,
            s_suicides = suicides b,
            s_suicides_size = length (addrlists st (suicides b)),
            s_journal = journal b,
            s_journal_size = length (journals st (journal b))\<rparr>, st'))"

text \<open>
  The first loop of \<open>revert\<close>: \<open>self.caches[cache]\<close> and \<open>del self.caches[cache][index]\<close>
  raise KeyError on a missing cache or key, after the entry has been popped.
\<close>

function revert_journal :: "nat \<Rightarrow> store \<Rightarrow> block \<Rightarrow> unit res" where
  "revert_journal n st b =
     (if length (journals st (journal b)) > n then
        (let e = last (journals st (journal b));
             st1 = st\<lparr>journals := (journals st)(journal b := butlast (journals st (journal b)))\<rparr>
         in (case caches b (fst e) of
               None \<Rightarrow> (Inl KeyError, st1, b)
             | Some d \<Rightarrow>
                 (case fst (snd (snd e)) of
                    Some p \<Rightarrow>
                      revert_journal n st1
                        (b\<lparr>caches := (caches b)(fst e \<mapsto> d(fst (snd e) \<mapsto> p))\<rparr>)
                  | None \<Rightarrow>
                      if d (fst (snd e)) = None then (Inl KeyError, st1, b)
                      else revert_journal n st1
                             (b\<lparr>caches := (caches b)(fst e \<mapsto> d(fst (snd e) := None))\<rparr>))))
      else (Inr (), st, b))"
  by pat_completeness auto
termination
  by (relation "measure (\<lambda>(n, st, b). length (journals st (journal b)))") auto

text \<open>The second loop: \<open>while len(self.suicides) > size: self.suicides.pop()\<close>.\<close>

function pop_suicides :: "nat \<Rightarrow> store \<Rightarrow> ref \<Rightarrow> store" where
  "pop_suicides n st r =
     (if length (addrlists st r) > n then
        pop_suicides n (st\<lparr>addrlists := (addrlists st)(r := butlast (addrlists st r))\<rparr>) r
      else st)"
  by pat_completeness auto
termination
  by (relation "measure (\<lambda>(n, st, r). length (addrlists st r))") auto

definition Block_revert :: "store \<Rightarrow> block \<Rightarrow> snapshot_rec \<Rightarrow> unit res" where
  "Block_revert st b mysnapshot =
     (case revert_journal (s_journal_size mysnapshot) st (b\<lparr>journal := s_journal mysnapshot\<rparr>) of
        (Inl e, st1, b1) \<Rightarrow> (Inl e, st1, b1)
      | (Inr u, st1, b1) \<Rightarrow>
          (let b2 = b1\<lparr>suicides := s_suicides mysnapshot\<rparr>;
               st2 = pop_suicides (s_suicides_size mysnapshot) st1 (suicides b2);
               st3 = st2\<lparr>tries := (tries st2)
                        (state b2 := (tries st2 (state b2))\<lparr>t_root_hash := s_state mysnapshot\<rparr>)\<rparr>;
               b3 = b2\<lparr>gas_used := s_gas mysnapshot,
                       transactions := s_txs mysnapshot,
                       transaction_count := s_txcount mysnapshot,
                       postqueue := s_postqueue mysnapshot\<rparr>
           in (Inr (), st3, b3)))"

definition CachedBlock_revert :: "store \<Rightarrow> block \<Rightarrow> nat \<Rightarrow> unit res" where
  "CachedBlock_revert st b nargs =
     (if nargs = 0 then (Inl (PyException ''NotImplemented''), st, b) else (Inl TypeError, st, b))"

definition revert :: "store \<Rightarrow> block \<Rightarrow> snapshot_rec \<Rightarrow> unit res" where
  "revert st b mysnapshot =
     (case cls b of
        BlockC \<Rightarrow> Block_revert st b mysnapshot
      | CachedBlockC \<Rightarrow> CachedBlock_revert st b 1)"

section \<open>Transactions, header and hash\<close>

definition Block_add_transaction_to_list ::
  "env \<Rightarrow> store \<Rightarrow> block \<Rightarrow> rlp \<Rightarrow> bytes \<Rightarrow> bytes \<Rightarrow> unit res" where
  "Block_add_transaction_to_list env st b tx_lst_serialized state_root gas_used_encoded =
     (case tx_lst_serialized of
        RStr s \<Rightarrow> (Inl AssertionError, st, b)
      | RList xs \<Rightarrow>
          (let data = RList [tx_lst_serialized, RStr state_root, RStr gas_used_encoded]
           in (case encode_int env (transaction_count b) of
                 Inl e \<Rightarrow> (Inl e, st, b)
               | Inr kb \<Rightarrow>
                   (case on_trie (\<lambda>c. trie_update env c (rlp_encode env (RStr kb))
                                                         (rlp_encode env data))
                           st (transactions b) of
                      (Inl e, st1) \<Rightarrow> (Inl e, st1, b)
                    | (Inr u, st1) \<Rightarrow>
                        (Inr (), st1, b\<lparr>transaction_count := transaction_count b + 1\<rparr>)))))"

definition CachedBlock_add_transaction_to_list :: "store \<Rightarrow> block \<Rightarrow> nat \<Rightarrow> unit res" where
  "CachedBlock_add_transaction_to_list st b nargs =
     (if nargs = 0 then (Inl (PyException ''NotImplemented''), st, b) else (Inl TypeError, st, b))"

definition add_transaction_to_list' ::
  "env \<Rightarrow> store \<Rightarrow> block \<Rightarrow> rlp \<Rightarrow> bytes \<Rightarrow> bytes \<Rightarrow> unit res" where
  "add_transaction_to_list' env st b tx sr gu =
     (case cls b of
        BlockC \<Rightarrow> Block_add_transaction_to_list env st b tx sr gu
      | CachedBlockC \<Rightarrow> CachedBlock_add_transaction_to_list st b 3)"

definition get_state_root :: "env \<Rightarrow> store \<Rightarrow> block \<Rightarrow> bytes res" where
  "get_state_root env st b =
     (case commit_state env st b of
        (Inl e, st1, b1) \<Rightarrow> (Inl e, st1, b1)
      | (Inr u, st1, b1) \<Rightarrow> (Inr (t_root_hash (tries st1 (state b1))), st1, b1))"

definition Block_set_state_root :: "store \<Rightarrow> block \<Rightarrow> bytes \<Rightarrow> unit res" where
  "Block_set_state_root st b state_root_hash =
     (case new_trie st state_root_hash of
        (r, st1) \<Rightarrow>
          (case reset_cache st1 (b\<lparr>state := r\<rparr>) of
             (st2, b2) \<Rightarrow> (Inr (), st2, b2)))"

definition CachedBlock_set_state_root :: "store \<Rightarrow> block \<Rightarrow> nat \<Rightarrow> unit res" where
  "CachedBlock_set_state_root st b nargs =
     (if nargs = 0 then (Inl (PyException ''NotImplemented''), st, b) else (Inl TypeError, st, b))"

text \<open>
  \<open>self.set_state_root(h)\<close> is dispatched on the class. The property \<open>state_root\<close> was
  built in the body of \<open>Block\<close> from \<open>Block.get_state_root\<close> and \<open>Block.set_state_root\<close>,
  so \<open>self.state_root = h\<close> runs \<open>Block.set_state_root\<close> for every class.
\<close>

definition set_state_root :: "store \<Rightarrow> block \<Rightarrow> bytes \<Rightarrow> unit res" where
  "set_state_root st b h =
     (case cls b of
        BlockC \<Rightarrow> Block_set_state_root st b h
      | CachedBlockC \<Rightarrow> CachedBlock_set_state_root st b 1)"

definition get_tx_list_root :: "store \<Rightarrow> block \<Rightarrow> bytes" where
  "get_tx_list_root st b = t_root_hash (tries st (transactions b))"

text \<open>\<open>getattr(self, name)\<close> for the names of \<open>block_structure\<close>.\<close>

definition getattr_field :: "env \<Rightarrow> store \<Rightarrow> block \<Rightarrow> string \<Rightarrow> pyval res" where
  "getattr_field env st b name =
     (if name = ''prevhash'' then (Inr (PStr (prevhash b)), st, b)
      else if name = ''uncles_hash'' then (Inr (PStr (uncles_hash b)), st, b)
      else if name = ''coinbase'' then (Inr (PStr (coinbase b)), st, b)
      else if name = ''state_root'' then
        (case get_state_root env st b of
           (Inl e, st1, b1) \<Rightarrow> (Inl e, st1, b1)
         | (Inr h, st1, b1) \<Rightarrow> (Inr (PStr h), st1, b1))
      else if name = ''tx_list_root'' then (Inr (PStr (get_tx_list_root st b)), st, b)
      else if name = ''difficulty'' then (Inr (PInt (difficulty b)), st, b)
      else if name = ''number'' then (Inr (PInt (number b)), st, b)
      else if name = ''min_gas_price'' then (Inr (PInt (min_gas_price b)), st, b)
      else if name = ''gas_limit'' then (Inr (PInt (gas_limit b)), st, b)
      else if name = ''gas_used'' then (Inr (PInt (gas_used b)), st, b)
      else if name = ''timestamp'' then (Inr (PInt (timestamp b)), st, b)
      else if name = ''extra_data'' then (Inr (PStr (extra_data b)), st, b)
      else if name = ''nonce'' then (Inr (PStr (nonce b)), st, b)
      else (Inl AttributeError, st, b))"

fun list_header_loop ::
  "env \<Rightarrow> store \<Rightarrow> block \<Rightarrow> string list \<Rightarrow> (string \<times> string) list \<Rightarrow> bytes list
     \<Rightarrow> (bytes list) res" where
  "list_header_loop env st b exclude [] header = (Inr header, st, b)"
| "list_header_loop env st b exclude ((name, typ) # rest) header =
     (if name \<notin> set exclude then
        (case getattr_field env st b name of
           (Inl e, st1, b1) \<Rightarrow> (Inl e, st1, b1)
         | (Inr v, st1, b1) \<Rightarrow>
             (case encoders env typ v of
                Inl e \<Rightarrow> (Inl e, st1, b1)
              | Inr x \<Rightarrow> list_header_loop env st1 b1 exclude rest (header @ [x])))
      else list_header_loop env st b exclude rest header)"

definition list_header :: "env \<Rightarrow> store \<Rightarrow> block \<Rightarrow> string list \<Rightarrow> (bytes list) res" where
  "list_header env st b exclude = list_header_loop env st b exclude block_structure []"

definition serialize_header :: "env \<Rightarrow> store \<Rightarrow> block \<Rightarrow> bytes res" where
  "serialize_header env st b =
     (case list_header env st b [] of
        (Inl e, st1, b1) \<Rightarrow> (Inl e, st1, b1)
      | (Inr h, st1, b1) \<Rightarrow> (Inr (rlp_encode env (RList (map RStr h))), st1, b1))"

definition Block_hash :: "env \<Rightarrow> store \<Rightarrow> block \<Rightarrow> bytes res" where
  "Block_hash env st b =
     (case serialize_header env st b of
        (Inl e, st1, b1) \<Rightarrow> (Inl e, st1, b1)
      | (Inr s, st1, b1) \<Rightarrow> (Inr (sha3 env s), st1, b1))"

text \<open>
  \<open>CachedBlock._hash\<close>: \<open>not self._hash_cached\<close> holds for \<open>None\<close> and for the empty
  string.
\<close>

definition CachedBlock_hash :: "env \<Rightarrow> store \<Rightarrow> block \<Rightarrow> bytes res" where
  "CachedBlock_hash env st b =
     (case (if hash_cached b = None \<or> hash_cached b = Some []
            then (case Block_hash env st b of
                    (Inl e, st1, b1) \<Rightarrow> (Inl e, st1, b1)
                  | (Inr h, st1, b1) \<Rightarrow> (Inr (), st1, b1\<lparr>hash_cached := Some h\<rparr>))
            else (Inr (), st, b)) of
        (Inl e, st1, b1) \<Rightarrow> (Inl e, st1, b1)
      | (Inr u, st1, b1) \<Rightarrow>
          (case hash_cached b1 of
             None \<Rightarrow> (Inl AttributeError, st1, b1)
           | Some h \<Rightarrow> (Inr h, st1, b1)))"

text \<open>The property \<open>hash\<close>: \<open>self._hash()\<close>, dispatched on the class.\<close>

definition hash :: "env \<Rightarrow> store \<Rightarrow> block \<Rightarrow> bytes res" where
  "hash env st b =
     (case cls b of
        BlockC \<Rightarrow> Block_hash env st b
      | CachedBlockC \<Rightarrow> CachedBlock_hash env st b)"

definition create_cached :: "block \<Rightarrow> block" where
  "create_cached blk = blk\<lparr>cls := CachedBlockC\<rparr>"

definition is_genesis :: "env \<Rightarrow> block \<Rightarrow> bool" where
  "is_genesis env b = (prevhash b = GENESIS_PREVHASH \<and> nonce b = sha3 env [CHR 0x2A])"

text \<open>
  \<open>add_transaction_to_list(tx)\<close>; the argument is \<open>tx.serialize()\<close>. Reading
  \<open>self.state_root\<close> commits the state.
\<close>

definition add_transaction_to_list :: "env \<Rightarrow> store \<Rightarrow> block \<Rightarrow> bytes \<Rightarrow> unit res" where
  "add_transaction_to_list env st b tx_serialized =
     (case rlp_decode env tx_serialized of
        Inl e \<Rightarrow> (Inl e, st, b)
      | Inr tx_lst_serialized \<Rightarrow>
          (case get_state_root env st b of
             (Inl e, st1, b1) \<Rightarrow> (Inl e, st1, b1)
           | (Inr root, st1, b1) \<Rightarrow>
               (case encode_int env (gas_used b1) of
                  Inl e \<Rightarrow> (Inl e, st1, b1)
                | Inr g \<Rightarrow> add_transaction_to_list' env st1 b1 tx_lst_serialized root g)))"

section \<open>Construction\<close>

record block_args =
  a_prevhash :: bytes
  a_uncles_hash :: bytes
  a_coinbase :: bytes
  a_state_root :: bytes
  a_tx_list_root :: bytes
  a_difficulty :: int
  a_number :: int
  a_min_gas_price :: int
  a_gas_limit :: int
  a_gas_used :: int
  a_timestamp :: int
  a_extra_data :: bytes
  a_nonce :: bytes
  a_transaction_list :: "(rlp \<times> bytes \<times> bytes) list"
  a_uncles :: "bytes list list"
  a_header :: "bytes list option"

fun add_transactions :: "env \<Rightarrow> store \<Rightarrow> block \<Rightarrow> (rlp \<times> bytes \<times> bytes) list \<Rightarrow> unit res" where
  "add_transactions env st b [] = (Inr (), st, b)"
| "add_transactions env st b ((tx, sr, gu) # rest) =
     (case add_transaction_to_list' env st b tx sr gu of
        (Inl e, st1, b1) \<Rightarrow> (Inl e, st1, b1)
      | (Inr u, st1, b1) \<Rightarrow> add_transactions env st1 b1 rest)"

text \<open>\<open>assert utils.decoders[typ](utils.encoders[typ](v)) == v\<close> for every header field.\<close>

fun check_codecs :: "env \<Rightarrow> store \<Rightarrow> block \<Rightarrow> (string \<times> string) list \<Rightarrow> unit res" where
  "check_codecs env st b [] = (Inr (), st, b)"
| "check_codecs env st b ((name, typ) # rest) =
     (case getattr_field env st b name of
        (Inl e, st1, b1) \<Rightarrow> (Inl e, st1, b1)
      | (Inr v, st1, b1) \<Rightarrow>
          (case encoders env typ v of
             Inl e \<Rightarrow> (Inl e, st1, b1)
           | Inr x \<Rightarrow>
               (case decoders env typ x of
                  Inl e \<Rightarrow> (Inl e, st1, b1)
                | Inr v' \<Rightarrow>
                    if py_eq v' v then check_codecs env st1 b1 rest
                    else (Inl AssertionError, st1, b1))))"

text \<open>The last check of the constructor: proof of work of a non-genesis block with a nonce.\<close>

definition init_pow_check :: "env \<Rightarrow> store \<Rightarrow> block \<Rightarrow> bytes list option \<Rightarrow> unit res" where
  "init_pow_check env st b header =
     (if \<not> is_genesis env b \<and> nonce b \<noteq> [] then
        (case (case header of
                 Some h \<Rightarrow> if h \<noteq> [] then (Inr h, st, b) else list_header env st b []
               | None \<Rightarrow> list_header env st b []) of
           (Inl e, st1, b1) \<Rightarrow> (Inl e, st1, b1)
         | (Inr h, st1, b1) \<Rightarrow>
             (case check_header_pow env h of
                Inl e \<Rightarrow> (Inl e, st1, b1)
              | Inr ok \<Rightarrow>
                  if \<not> ok then (Inl (PyException ''PoW check failed''), st1, b1)
                  else (Inr (), st1, b1)))
      else (Inr (), st, b))"

text \<open>
  \<open>Block.__init__\<close>. A constructor that raises returns no block. Both tries are opened
  on the one key/value store of the model, so the assertion that they share their database
  holds and has no branch; the messages of the exceptions are kept without the block's
  \<open>repr\<close>. Writes to the log and to \<open>stderr\<close> are not modelled anywhere.
\<close>

definition state_ctx :: "store \<Rightarrow> ref \<Rightarrow> tctx" where
  "state_ctx st r = (db st, nodelists st, tries st r)"

definition Block_init :: "env \<Rightarrow> store \<Rightarrow> block_args \<Rightarrow> (error + block) \<times> store" where
  "Block_init env st0 args =
     (case new_addrlist [] st0 of (r_suicides, st1) \<Rightarrow>
      case new_msglist [] st1 of (r_postqueue, st2) \<Rightarrow>
      case new_journal st2 of (r_journal, st3) \<Rightarrow>
      case new_trie st3 (a_tx_list_root args) of (r_transactions, st4) \<Rightarrow>
      case new_trie st4 (a_state_root args) of (r_state, st5) \<Rightarrow>
      case new_nodelist st5 of (r_proof_nodes, st6) \<Rightarrow>
        (let b0 = \<lparr>prevhash = a_prevhash args, uncles_hash = a_uncles_hash args,
                   coinbase = a_coinbase args, difficulty = a_difficulty args,
                   number = a_number args, min_gas_price = a_min_gas_price args,
                   gas_limit = a_gas_limit args, gas_used = a_gas_used args,
                   timestamp = a_timestamp args, extra_data = a_extra_data args,
                   nonce = a_nonce args, uncles = a_uncles args,
                   suicides = r_suicides, postqueue = r_postqueue,
                   caches = [''balance'' \<mapsto> Map.empty, ''nonce'' \<mapsto> Map.empty,
                             ''code'' \<mapsto> Map.empty, ''all'' \<mapsto> Map.empty],
                   journal = r_journal, transactions = r_transactions,
                   transaction_count = 0, state = r_state, proof_mode = None,
                   proof_nodes = r_proof_nodes, blank_acct = None, cls = BlockC,
                   hash_cached = None\<rparr>
         in (case (if a_transaction_list args \<noteq> [] then
                     (if \<not> root_hash_valid env (state_ctx st6 (state b0))
                      then (Inl AssertionError, st6, b0)
                      else add_transactions env st6 b0 (a_transaction_list args))
                   else (Inr (), st6, b0)) of
               (Inl e, st7, b1) \<Rightarrow> (Inl e, st7)
             | (Inr u, st7, b1) \<Rightarrow>
                 (case check_codecs env st7 b1 block_structure of
                    (Inl e, st8, b2) \<Rightarrow> (Inl e, st8)
                  | (Inr u, st8, b2) \<Rightarrow>
                      if \<not> root_hash_valid env (state_ctx st8 (state b2)) then
                        (Inl (PyException ''State Merkle root not found in database!''), st8)
                      else if a_tx_list_root args \<noteq> get_tx_list_root st8 b2 then
                        (Inl (PyException ''Transaction list root hash does not match!''), st8)
                      else if \<not> root_hash_valid env (state_ctx st8 (transactions b2)) then
                        (Inl (PyException ''Transactions root not found in database!''), st8)
                      else if length (extra_data b2) > 1024 then
                        (Inl (PyException ''Extra data cannot exceed 1024 bytes''), st8)
                      else if coinbase b2 = [] then
                        (Inl (PyException ''Coinbase cannot be empty address''), st8)
                      else (case init_pow_check env st8 b2 (a_header args) of
                              (Inl e, st9, b3) \<Rightarrow> (Inl e, st9)
                            | (Inr u, st9, b3) \<Rightarrow> (Inr b3, st9))))))"

definition encode_uncles :: "env \<Rightarrow> bytes list list \<Rightarrow> bytes" where
  "encode_uncles env us = rlp_encode env (RList (map (\<lambda>u. RList (map RStr u)) us))"

text \<open>
  \<open>Block.init_from_parent\<close>. Reading \<open>parent.hash\<close> may change the parent (a plain block
  commits its state, a cached one stores its hash), so the parent is returned too.
\<close>

definition init_from_parent ::
  "env \<Rightarrow> store \<Rightarrow> block \<Rightarrow> bytes \<Rightarrow> bytes \<Rightarrow> int \<Rightarrow> bytes list list
     \<Rightarrow> (error + block) \<times> store \<times> block" where
  "init_from_parent env st parent coinbase' extra_data' timestamp' uncles' =
     (case hash env st parent of
        (Inl e, st1, p1) \<Rightarrow> (Inl e, st1, p1)
      | (Inr h, st1, p1) \<Rightarrow>
          (case Block_init env st1
                  \<lparr>a_prevhash = h,
                   a_uncles_hash = sha3 env (encode_uncles env uncles'),
                   a_coinbase = coinbase',
                   a_state_root = t_root_hash (tries st1 (state p1)),
                   a_tx_list_root = BLANK_ROOT env,
                   a_difficulty = calc_difficulty p1 timestamp',
                   a_number = number p1 + 1,
                   a_min_gas_price = 0,
                   a_gas_limit = calc_gaslimit p1,
                   a_gas_used = 0,
                   a_timestamp = timestamp',
                   a_extra_data = extra_data',
                   a_nonce = [],
                   a_transaction_list = [],
                   a_uncles = uncles',
                   a_header = None\<rparr> of
             (r, st2) \<Rightarrow> (r, st2, p1)))"

section \<open>Finalization\<close>

fun deserialize_fields ::
  "env \<Rightarrow> bytes list \<Rightarrow> nat \<Rightarrow> (string \<times> string) list \<Rightarrow> error + (string \<times> pyval) list" where
  "deserialize_fields env header_data i [] = Inr []"
| "deserialize_fields env header_data i ((name, typ) # rest) =
     (if \<not> i < length header_data then Inl IndexError
      else (case decoders env typ (header_data ! i) of
              Inl e \<Rightarrow> Inl e
            | Inr v \<Rightarrow>
                (case deserialize_fields env header_data (Suc i) rest of
                   Inl e \<Rightarrow> Inl e
                 | Inr kargs \<Rightarrow> Inr ((name, v) # kargs))))"

definition deserialize_header :: "env \<Rightarrow> bytes list \<Rightarrow> error + (string \<times> pyval) list" where
  "deserialize_header env header_data =
     (if length header_data \<noteq> length block_structure then Inl AssertionError
      else deserialize_fields env header_data 0 block_structure)"

fun finalize_uncles :: "env \<Rightarrow> store \<Rightarrow> block \<Rightarrow> bytes list list \<Rightarrow> unit res" where
  "finalize_uncles env st b [] = (Inr (), st, b)"
| "finalize_uncles env st b (uncle_rlp # rest) =
     (case deserialize_header env uncle_rlp of
        Inl e \<Rightarrow> (Inl e, st, b)
      | Inr uncle_data \<Rightarrow>
          (case map_of uncle_data ''coinbase'' of
             None \<Rightarrow> (Inl KeyError, st, b)
           | Some (PStr a) \<Rightarrow>
               (case delta_balance env st b a UNCLE_REWARD of
                  (Inl e, st1, b1) \<Rightarrow> (Inl e, st1, b1)
                | (Inr ok, st1, b1) \<Rightarrow> finalize_uncles env st1 b1 rest)
           | Some v \<Rightarrow> (Inl TypeError, st, b)))"

definition finalize :: "env \<Rightarrow> store \<Rightarrow> block \<Rightarrow> unit res" where
  "finalize env st b =
     (case delta_balance env st b (coinbase b)
             (BLOCK_REWARD + NEPHEW_REWARD * int (length (uncles b))) of
        (Inl e, st1, b1) \<Rightarrow> (Inl e, st1, b1)
      | (Inr ok, st1, b1) \<Rightarrow>
          (case finalize_uncles env st1 b1 (uncles b1) of
             (Inl e, st2, b2) \<Rightarrow> (Inl e, st2, b2)
           | (Inr u, st2, b2) \<Rightarrow> commit_state env st2 b2))"

section \<open>Uncle validation\<close>

text \<open>
  \<open>get_block(blockhash)\<close> is
  \<open>CachedBlock.create_cached(Block.deserialize(db.DB(path).get(blockhash)))\<close> behind an
  \<open>lru_cache\<close>. Reading the stored block and deserializing it (which replays its
  transactions through \<open>processblock\<close>, not among the sources) is the parameter
  \<open>load_block\<close>; a block the cache returns again has the class already, which
  \<open>create_cached\<close> sets once more.
\<close>

definition get_block :: "env \<Rightarrow> store \<Rightarrow> bytes \<Rightarrow> (error + block) \<times> store" where
  "get_block env st blockhash =
     (case load_block env st blockhash of
        (Inl e, st1) \<Rightarrow> (Inl e, st1)
      | (Inr blk, st1) \<Rightarrow> (Inr (create_cached blk), st1))"

text \<open>
  \<open>get_parent\<close>: the KeyError of the block store lookup becomes UnknownParentException.
\<close>

definition get_parent :: "env \<Rightarrow> store \<Rightarrow> block \<Rightarrow> (error + block) \<times> store" where
  "get_parent env st b =
     (if number b = 0 then (Inl UnknownParentException, st)
      else (case get_block env st (prevhash b) of
              (Inl e, st1) \<Rightarrow>
                (if e = KeyError then (Inl UnknownParentException, st1) else (Inl e, st1))
            | (Inr parent, st1) \<Rightarrow> (Inr parent, st1)))"

text \<open>The loop \<open>for i in [1, 2, 3, 4, 5, 6, 7]\<close> that builds \<open>ancestor_chain\<close>.\<close>

fun extend_chain ::
  "env \<Rightarrow> store \<Rightarrow> block list \<Rightarrow> nat list \<Rightarrow> (error + block list) \<times> store" where
  "extend_chain env st ancestor_chain [] = (Inr ancestor_chain, st)"
| "extend_chain env st ancestor_chain (i # rest) =
     (if number (last ancestor_chain) > 0 then
        (case get_parent env st (last ancestor_chain) of
           (Inl e, st1) \<Rightarrow> (Inl e, st1)
         | (Inr parent, st1) \<Rightarrow> extend_chain env st1 (ancestor_chain @ [parent]) rest)
      else extend_chain env st ancestor_chain rest)"

text \<open>
  \<open>[b.list_header() for b in ancestor_chain]\<close> and \<open>[x.hash for x in ...]\<close>: the blocks
  are objects, so each comes back as the call left it.
\<close>

fun list_header_all ::
  "env \<Rightarrow> store \<Rightarrow> block list \<Rightarrow> (error + bytes list list) \<times> store \<times> block list" where
  "list_header_all env st [] = (Inr [], st, [])"
| "list_header_all env st (x # xs) =
     (case list_header env st x [] of
        (Inl e, st1, x1) \<Rightarrow> (Inl e, st1, x1 # xs)
      | (Inr h, st1, x1) \<Rightarrow>
          (case list_header_all env st1 xs of
             (Inl e, st2, xs1) \<Rightarrow> (Inl e, st2, x1 # xs1)
           | (Inr hs, st2, xs1) \<Rightarrow> (Inr (h # hs), st2, x1 # xs1)))"

fun hash_all ::
  "env \<Rightarrow> store \<Rightarrow> block list \<Rightarrow> (error + bytes list) \<times> store \<times> block list" where
  "hash_all env st [] = (Inr [], st, [])"
| "hash_all env st (x # xs) =
     (case hash env st x of
        (Inl e, st1, x1) \<Rightarrow> (Inl e, st1, x1 # xs)
      | (Inr h, st1, x1) \<Rightarrow>
          (case hash_all env st1 xs of
             (Inl e, st2, xs1) \<Rightarrow> (Inl e, st2, x1 # xs1)
           | (Inr hs, st2, xs1) \<Rightarrow> (Inr (h # hs), st2, x1 # xs1)))"

text \<open>The loop \<open>for uncle in self.uncles\<close>.\<close>

fun uncles_loop :: "env \<Rightarrow> bytes list \<Rightarrow> bytes list list \<Rightarrow> bytes list list \<Rightarrow> error + bool" where
  "uncles_loop env eligible_ancestor_hashes ineligible [] = Inr True"
| "uncles_loop env eligible_ancestor_hashes ineligible (uncle # rest) =
     (case check_header_pow env uncle of
        Inl e \<Rightarrow> Inl e
      | Inr ok \<Rightarrow>
          if \<not> ok then Inr False
          else (case index_of ''prevhash'' block_structure of
                  None \<Rightarrow> Inl KeyError
                | Some i \<Rightarrow>
                    if \<not> i < length uncle then Inl IndexError
                    else if uncle ! i \<notin> set eligible_ancestor_hashes then Inr False
                    else if uncle \<in> set ineligible then Inr False
                    else uncles_loop env eligible_ancestor_hashes (ineligible @ [uncle]) rest))"

text \<open>
  What \<open>validate_uncles\<close> computes before its loop: the ancestor chain, the ineligible
  headers and the eligible parent hashes. The first block of the chain is \<open>self\<close>.
\<close>

definition uncle_context ::
  "env \<Rightarrow> store \<Rightarrow> block
     \<Rightarrow> (error + (block list \<times> bytes list list \<times> bytes list)) \<times> store \<times> block" where
  "uncle_context env st b =
     (case extend_chain env st [b] [1, 2, 3, 4, 5, 6, 7] of
        (Inl e, st1) \<Rightarrow> (Inl e, st1, b)
      | (Inr ancestor_chain, st1) \<Rightarrow>
          (let ineligible0 = concat (map uncles (tl ancestor_chain))
           in (case list_header_all env st1 ancestor_chain of
                 (Inl e, st2, chain2) \<Rightarrow> (Inl e, st2, hd chain2)
               | (Inr headers, st2, chain2) \<Rightarrow>
                   (case hash_all env st2 (drop 2 chain2) of
                      (Inl e, st3, tail3) \<Rightarrow> (Inl e, st3, hd chain2)
                    | (Inr eligible_ancestor_hashes, st3, tail3) \<Rightarrow>
                        (Inr (ancestor_chain, ineligible0 @ headers, eligible_ancestor_hashes),
                         st3, hd chain2)))))"

definition validate_uncles :: "env \<Rightarrow> store \<Rightarrow> block \<Rightarrow> bool res" where
  "validate_uncles env st b =
     (if sha3 env (encode_uncles env (uncles b)) \<noteq> uncles_hash b then (Inr False, st, b)
      else (case uncle_context env st b of
              (Inl e, st1, b1) \<Rightarrow> (Inl e, st1, b1)
            | (Inr (ancestor_chain, ineligible, eligible_ancestor_hashes), st1, b1) \<Rightarrow>
                (uncles_loop env eligible_ancestor_hashes ineligible (uncles b), st1, b1)))"

text \<open>
  The ancestor chain in the words of the specification: \<open>ancestors = [B, parent(B), ...]\<close>,
  up to \<open>n\<close> ancestors, stopping at a block of number 0. The loop that builds
  \<open>ancestor_chain\<close> is compared with it below.
\<close>

fun ancestors :: "env \<Rightarrow> store \<Rightarrow> block \<Rightarrow> nat \<Rightarrow> (error + block list) \<times> store" where
  "ancestors env st b 0 = (Inr [b], st)"
| "ancestors env st b (Suc n) =
     (if number b > 0 then
        (case get_parent env st b of
           (Inl e, st1) \<Rightarrow> (Inl e, st1)
         | (Inr parent, st1) \<Rightarrow>
             (case ancestors env st1 parent n of
                (Inl e, st2) \<Rightarrow> (Inl e, st2)
              | (Inr rest, st2) \<Rightarrow> (Inr (b # rest), st2)))
      else (Inr [b], st))"

text \<open>
  The checks on the \<open>k\<close>-th uncle of the list \<open>us\<close> in the words of the specification,
  for the ancestor chain \<open>anc\<close> of the block, the header \<open>hb\<close> of the block itself and
  the store \<open>st\<close> in which the headers and hashes of the ancestors are read: the
  proof-of-work check passes; \<open>prevhash\<close> (field 0) is the hash of an ancestor 2 or more
  back; the uncle is no uncle of an ancestor 1 or more back, neither the header of the block
  nor of an ancestor, and no earlier uncle of the list.
\<close>

definition uncle_accepted ::
  "env \<Rightarrow> store \<Rightarrow> block list \<Rightarrow> bytes list \<Rightarrow> bytes list list \<Rightarrow> nat \<Rightarrow> bool" where
  "uncle_accepted env st anc hb us k =
     (check_header_pow env (us ! k) = Inr True \<and>
      (\<exists>a \<in> set (drop 2 anc). fst (hash env st a) = Inr (us ! k ! 0)) \<and>
      (\<forall>a \<in> set (tl anc). us ! k \<notin> set (uncles a)) \<and>
      us ! k \<noteq> hb \<and>
      (\<forall>a \<in> set (tl anc). fst (list_header env st a []) \<noteq> Inr (us ! k)) \<and>
      us ! k \<notin> set (take k us))"

section \<open>The peer session: Status\<close>

text \<open>
  The constants and the packet encoder of \<open>packeter\<close>, and the hash of the local genesis
  block (\<open>blocks.genesis().hash\<close>), are parameters.
\<close>

record packeter =
  ETHEREUM_PROTOCOL_VERSION :: int
  NETWORK_ID :: int
  dump_Disconnect :: "string \<Rightarrow> bytes"
  local_genesis_hash :: bytes

datatype signal =
    peer_disconnect_requested bool
  | peer_status_received

record peer =
  status_received :: bool
  status_sent :: bool
  status_total_difficulty :: "int option"
  status_head_hash :: "bytes option"
  response_queue :: "bytes list"
  signals_sent :: "signal list"
  slept :: nat

definition reasons_to_forget :: "string list" where
  "reasons_to_forget =
     [''Bad protocol'', ''Incompatible network protocols'', ''Wrong genesis block'']"

definition send_packet :: "peer \<Rightarrow> bytes \<Rightarrow> peer" where
  "send_packet p response = p\<lparr>response_queue := response_queue p @ [response]\<rparr>"

definition send_Disconnect :: "packeter \<Rightarrow> peer \<Rightarrow> string \<Rightarrow> peer" where
  "send_Disconnect pk p reason =
     (let p1 = send_packet p (dump_Disconnect pk reason);
          p2 = p1\<lparr>slept := slept p1 + 2\<rparr>;
          forget = (reason \<in> set reasons_to_forget)
      in p2\<lparr>signals_sent := signals_sent p2 @ [peer_disconnect_requested forget]\<rparr>)"

text \<open>\<open>idec\<close> is \<open>utils.big_endian_to_int\<close>; \<open>data[i]\<close> out of range raises IndexError.\<close>

definition recv_Status :: "packeter \<Rightarrow> peer \<Rightarrow> bytes list \<Rightarrow> peer" where
  "recv_Status pk p data =
     (if \<not> 0 < length data \<or> \<not> 1 < length data \<or> \<not> 2 < length data
         \<or> \<not> 3 < length data \<or> \<not> 4 < length data
      then send_Disconnect pk p ''Incompatible network protocols''
      else
        (let ethereum_protocol_version = big_endian_to_int (data ! 0);
             network_id = big_endian_to_int (data ! 1);
             total_difficulty = big_endian_to_int (data ! 2);
             head_hash = data ! 3;
             genesis_hash = data ! 4
         in if ethereum_protocol_version \<noteq> ETHEREUM_PROTOCOL_VERSION pk then
              send_Disconnect pk p ''Incompatible network protocols''
            else if network_id \<noteq> NETWORK_ID pk then
              send_Disconnect pk p ''Wrong genesis block''
            else if genesis_hash \<noteq> local_genesis_hash pk then
              send_Disconnect pk p ''Wrong genesis block''
            else
              (let p1 = p\<lparr>status_received := True,
                          status_head_hash := Some head_hash,
                          status_total_difficulty := Some total_difficulty\<rparr>
               in p1\<lparr>signals_sent := signals_sent p1 @ [peer_status_received]\<rparr>)))"

section \<open>A concrete environment for evaluation\<close>

text \<open>
  Small executable stand-ins for the external modules, used to run the model on concrete
  inputs: a 32-byte digest that pads or cuts its input, a flattening encoder, integers
  below \<open>2 ^ 64\<close> as big-endian bytes, Python's hex codec, and a trie that keeps its
  entries in the key/value store and folds every write into its root.
\<close>

definition demo_sha3 :: "bytes \<Rightarrow> bytes" where
  "demo_sha3 s = take 32 (s @ replicate 32 (CHR 0x00))"

fun demo_rlp_encode :: "rlp \<Rightarrow> bytes" where
  "demo_rlp_encode (RStr s) = s"
| "demo_rlp_encode (RList xs) = concat (map demo_rlp_encode xs)"

definition demo_rlp_decode :: "bytes \<Rightarrow> error + rlp" where
  "demo_rlp_decode s =
     (if s = [] then Inr (RStr []) else Inr (RList [RStr [], RStr s, RStr [], RStr []]))"

definition be_bytes :: "int \<Rightarrow> bytes" where
  "be_bytes n =
     dropWhile (\<lambda>c. c = CHR 0x00)
       (map (\<lambda>i. char_of (n div 256 ^ i)) [7, 6, 5, 4, 3, 2, 1, 0])"

definition demo_encode_int :: "int \<Rightarrow> error + bytes" where
  "demo_encode_int n = (if n < 0 \<or> n \<ge> 2 ^ 64 then Inl TypeError else Inr (be_bytes n))"

definition demo_encoders :: "string \<Rightarrow> pyval \<Rightarrow> error + bytes" where
  "demo_encoders typ v =
     (case v of
        PInt n \<Rightarrow> demo_encode_int n
      | PStr s \<Rightarrow> Inr s
      | PBool f \<Rightarrow> demo_encode_int (if f then 1 else 0))"

definition hex_val :: "char \<Rightarrow> int option" where
  "hex_val c =
     (let n = (of_char c :: int)
      in if 48 \<le> n \<and> n \<le> 57 then Some (n - 48)
         else if 97 \<le> n \<and> n \<le> 102 then Some (n - 87)
         else if 65 \<le> n \<and> n \<le> 70 then Some (n - 55)
         else None)"

fun py_hex_decode :: "bytes \<Rightarrow> error + bytes" where
  "py_hex_decode [] = Inr []"
| "py_hex_decode [c] = Inl TypeError"
| "py_hex_decode (c # d # rest) =
     (case (hex_val c, hex_val d) of
        (Some x, Some y) \<Rightarrow>
          (case py_hex_decode rest of
             Inl e \<Rightarrow> Inl e
           | Inr bs \<Rightarrow> Inr (char_of (16 * x + y) # bs))
      | _ \<Rightarrow> Inl TypeError)"

definition demo_zpad :: "bytes \<Rightarrow> nat \<Rightarrow> bytes" where
  "demo_zpad s n = replicate (n - length s) (CHR 0x00) @ s"

definition demo_coerce_to_bytes :: "pykey \<Rightarrow> error + bytes" where
  "demo_coerce_to_bytes k = (case k of KStr s \<Rightarrow> Inr s | KInt n \<Rightarrow> demo_encode_int n)"

definition demo_trie_get :: "tctx \<Rightarrow> bytes \<Rightarrow> (error + bytes) \<times> tctx" where
  "demo_trie_get c k =
     (case c of (d, n, t) \<Rightarrow> (Inr (case d k of None \<Rightarrow> [] | Some v \<Rightarrow> v), (d, n, t)))"

definition demo_trie_update :: "tctx \<Rightarrow> bytes \<Rightarrow> bytes \<Rightarrow> (error + unit) \<times> tctx" where
  "demo_trie_update c k v =
     (case c of
        (d, n, t) \<Rightarrow>
          (Inr (), (d(k \<mapsto> v), n, t\<lparr>t_root_hash := demo_sha3 (k @ v @ t_root_hash t)\<rparr>)))"

definition demo_trie_delete :: "tctx \<Rightarrow> bytes \<Rightarrow> (error + unit) \<times> tctx" where
  "demo_trie_delete c k =
     (case c of
        (d, n, t) \<Rightarrow>
          (Inr (), (d(k := None), n, t\<lparr>t_root_hash := demo_sha3 (k @ t_root_hash t)\<rparr>)))"

definition demo_keys :: "pykey list" where
  "demo_keys = [KStr ''aa'', KStr ''bb'', KInt 0, KInt 1]"

definition demo_iter_items :: "(pykey \<rightharpoonup> pyval) \<Rightarrow> (pykey \<times> pyval) list" where
  "demo_iter_items m = List.map_filter (\<lambda>k. map_option (Pair k) (m k)) demo_keys"

definition demo_env :: env where
  "demo_env =
     \<lparr>sha3 = demo_sha3,
      rlp_encode = demo_rlp_encode,
      rlp_decode = demo_rlp_decode,
      encoders = demo_encoders,
      ext_decoders = (\<lambda>typ x. Inr x),
      encode_int = demo_encode_int,
      hex_decode = py_hex_decode,
      zpad = demo_zpad,
      coerce_to_bytes = demo_coerce_to_bytes,
      int_to_big_endian = demo_encoders ''int'',
      BLANK_ROOT = [],
      trie_get = demo_trie_get,
      trie_update = demo_trie_update,
      trie_delete = demo_trie_delete,
      root_hash_valid = (\<lambda>c. True),
      iter_items = demo_iter_items,
      load_block = (\<lambda>st h. (Inl KeyError, st))\<rparr>"

definition demo_store :: store where
  "demo_store =
     \<lparr>journals = (\<lambda>r. []), addrlists = (\<lambda>r. []), msglists = (\<lambda>r. []),
      nodelists = (\<lambda>r. []),
      tries = (\<lambda>r. \<lparr>t_root_hash = [], t_proof_mode = None, t_proof_nodes = 0\<rparr>),
      db = Map.empty, next_ref = 6\<rparr>"

text \<open>A block as the constructor builds it, with its six objects at the references 0 to 5.\<close>

definition demo_block :: block where
  "demo_block =
     \<lparr>prevhash = GENESIS_PREVHASH, uncles_hash = demo_sha3 [], coinbase = ''bb'',
      difficulty = 131072, number = 0, min_gas_price = 0, gas_limit = 10 ^ 6,
      gas_used = 0, timestamp = 1000, extra_data = [], nonce = [], uncles = [],
      suicides = 0, postqueue = 1,
      caches = [''balance'' \<mapsto> Map.empty, ''nonce'' \<mapsto> Map.empty,
                ''code'' \<mapsto> Map.empty, ''all'' \<mapsto> Map.empty],
      journal = 2, transactions = 3, transaction_count = 0, state = 4,
      proof_mode = None, proof_nodes = 5, blank_acct = None, cls = BlockC,
      hash_cached = None\<rparr>"

section \<open>Sequences of calls\<close>

text \<open>
  The mutations a transaction executor performs between \<open>snapshot\<close> and \<open>revert\<close>:
  journalled cache writes (directly, through \<open>_set_acct_item\<close>, \<open>set_storage_data\<close> or
  \<open>_delta_item\<close>), \<open>self.suicides.append(x)\<close>, \<open>self.gas_used = g\<close>,
  \<open>_add_transaction_to_list\<close>, and changes of the post-queue in place
  (\<open>append\<close>, \<open>pop(0)\<close>) or by assignment of a new list.
\<close>

datatype mutation =
    SetAndJournal string pykey pyval
  | SetAcctItem bytes string pyval
  | SetStorageData bytes pykey pyval
  | DeltaItem bytes string int
  | SuicidesAppend pyval
  | SetGasUsed int
  | AddTransaction rlp bytes bytes
  | PostqueueAppend pyval
  | PostqueuePop
  | PostqueueAssign "pyval list"

definition forget_result :: "'a res \<Rightarrow> unit res" where
  "forget_result r =
     (case r of (Inl e, st, b) \<Rightarrow> (Inl e, st, b) | (Inr x, st, b) \<Rightarrow> (Inr (), st, b))"

fun apply_mutation :: "env \<Rightarrow> store \<Rightarrow> block \<Rightarrow> mutation \<Rightarrow> unit res" where
  "apply_mutation env st b (SetAndJournal cache index v) = set_and_journal st b cache index v"
| "apply_mutation env st b (SetAcctItem address param v) = set_acct_item st b address param v"
| "apply_mutation env st b (SetStorageData address index v) =
     set_storage_data st b address index v"
| "apply_mutation env st b (DeltaItem address param d) =
     forget_result (delta_item env st b address param d)"
| "apply_mutation env st b (SuicidesAppend x) =
     (Inr (), st\<lparr>addrlists := (addrlists st)(suicides b := addrlists st (suicides b) @ [x])\<rparr>, b)"
| "apply_mutation env st b (SetGasUsed g) = (Inr (), st, b\<lparr>gas_used := g\<rparr>)"
| "apply_mutation env st b (AddTransaction tx sr gu) =
     add_transaction_to_list' env st b tx sr gu"
| "apply_mutation env st b (PostqueueAppend x) =
     (Inr (), st\<lparr>msglists := (msglists st)(postqueue b := msglists st (postqueue b) @ [x])\<rparr>, b)"
| "apply_mutation env st b PostqueuePop =
     (if msglists st (postqueue b) = [] then (Inl IndexError, st, b)
      else (Inr (), st\<lparr>msglists := (msglists st)(postqueue b := tl (msglists st (postqueue b)))\<rparr>,
            b))"
| "apply_mutation env st b (PostqueueAssign xs) =
     (case new_msglist xs st of (r, st1) \<Rightarrow> (Inr (), st1, b\<lparr>postqueue := r\<rparr>))"

fun run_mutations :: "env \<Rightarrow> store \<Rightarrow> block \<Rightarrow> mutation list \<Rightarrow> unit res" where
  "run_mutations env st b [] = (Inr (), st, b)"
| "run_mutations env st b (m # ms) =
     (case apply_mutation env st b m of
        (Inl e, st1, b1) \<Rightarrow> (Inl e, st1, b1)
      | (Inr u, st1, b1) \<Rightarrow> run_mutations env st1 b1 ms)"

text \<open>\<open>commit_state\<close> called \<open>n\<close> times in succession.\<close>

fun repeat_commit :: "env \<Rightarrow> nat \<Rightarrow> store \<Rightarrow> block \<Rightarrow> unit res" where
  "repeat_commit env 0 st b = (Inr (), st, b)"
| "repeat_commit env (Suc n) st b =
     (case commit_state env st b of
        (Inl e, st1, b1) \<Rightarrow> (Inl e, st1, b1)
      | (Inr u, st1, b1) \<Rightarrow> repeat_commit env n st1 b1)"

text \<open>
  The first loop of \<open>revert\<close> on the journal list and the caches alone, for the proofs:
  it returns the outcome, the journal left and the caches left.
\<close>

function undo ::
  "nat \<Rightarrow> jentry list \<Rightarrow> (string \<rightharpoonup> (pykey \<rightharpoonup> pyval))
     \<Rightarrow> (error + unit) \<times> jentry list \<times> (string \<rightharpoonup> (pykey \<rightharpoonup> pyval))" where
  "undo n jl cs =
     (if length jl > n then
        (let e = last jl
         in (case cs (fst e) of
               None \<Rightarrow> (Inl KeyError, butlast jl, cs)
             | Some d \<Rightarrow>
                 (case fst (snd (snd e)) of
                    Some p \<Rightarrow> undo n (butlast jl) (cs(fst e \<mapsto> d(fst (snd e) \<mapsto> p)))
                  | None \<Rightarrow>
                      if d (fst (snd e)) = None then (Inl KeyError, butlast jl, cs)
                      else undo n (butlast jl) (cs(fst e \<mapsto> d(fst (snd e) := None))))))
      else (Inr (), jl, cs))"
  by pat_completeness auto
termination
  by (relation "measure (\<lambda>(n, jl, cs). length jl)") auto

text \<open>
  A header of 13 fields for the digest above: difficulty 1 and a nonce of 32 bytes.
\<close>

definition demo_header :: "bytes list" where
  "demo_header =
     [[], [], [], [], [], [CHR 0x01], [], [], [], [], [], [], replicate 32 (CHR 0xFF)]"

section \<open>Frames, for the proofs\<close>

text \<open>
  What a method leaves alone: reading an account changes the block in \<open>_blank_acct\<close> at
  most and the store in the key/value store, the proof-node lists and the tries at most;
  committing and hashing keep the header attributes and the object references.
\<close>

definition blk_frame :: "block \<Rightarrow> block \<Rightarrow> bool" where
  "blk_frame b b' =
     (prevhash b' = prevhash b \<and> uncles_hash b' = uncles_hash b \<and> coinbase b' = coinbase b \<and>
      difficulty b' = difficulty b \<and> number b' = number b \<and> min_gas_price b' = min_gas_price b \<and>
      gas_limit b' = gas_limit b \<and> gas_used b' = gas_used b \<and> timestamp b' = timestamp b \<and>
      extra_data b' = extra_data b \<and> nonce b' = nonce b \<and> uncles b' = uncles b \<and>
      suicides b' = suicides b \<and> postqueue b' = postqueue b \<and> caches b' = caches b \<and>
      journal b' = journal b \<and> transactions b' = transactions b \<and> transaction_count b' = transaction_count b \<and>
      state b' = state b \<and> proof_mode b' = proof_mode b \<and> proof_nodes b' = proof_nodes b \<and>
      cls b' = cls b \<and> hash_cached b' = hash_cached b)"

definition st_frame :: "store \<Rightarrow> store \<Rightarrow> bool" where
  "st_frame st st' =
     (journals st' = journals st \<and> addrlists st' = addrlists st \<and>
      msglists st' = msglists st \<and> next_ref st' = next_ref st)"

definition hdr_frame :: "block \<Rightarrow> block \<Rightarrow> bool" where
  "hdr_frame b b' =
     (prevhash b' = prevhash b \<and> uncles_hash b' = uncles_hash b \<and> coinbase b' = coinbase b \<and>
      difficulty b' = difficulty b \<and> number b' = number b \<and> min_gas_price b' = min_gas_price b \<and>
      gas_limit b' = gas_limit b \<and> gas_used b' = gas_used b \<and> timestamp b' = timestamp b \<and>
      extra_data b' = extra_data b \<and> nonce b' = nonce b \<and> uncles b' = uncles b \<and>
      suicides b' = suicides b \<and> postqueue b' = postqueue b \<and> transactions b' = transactions b \<and>
      transaction_count b' = transaction_count b \<and> state b' = state b \<and> proof_mode b' = proof_mode b \<and>
      proof_nodes b' = proof_nodes b \<and> cls b' = cls b)"

text \<open>The demo block after \<open>set_balance('aa', 10)\<close>.\<close>

definition demo_funded :: "store \<times> block" where
  "demo_funded = snd (set_balance demo_store demo_block ''aa'' (PInt 10))"

text \<open>A peer, the local protocol constants and two Status payloads for evaluation.\<close>

definition demo_packeter :: packeter where
  "demo_packeter =
     \<lparr>ETHEREUM_PROTOCOL_VERSION = 33, NETWORK_ID = 0,
      dump_Disconnect = (\<lambda>reason. ''Disconnect:'' @ reason),
      local_genesis_hash = replicate 32 (CHR 0x47)\<rparr>"

definition demo_peer :: peer where
  "demo_peer =
     \<lparr>status_received = False, status_sent = False, status_total_difficulty = None,
      status_head_hash = None, response_queue = [], signals_sent = [], slept = 0\<rparr>"

definition demo_status_ok :: "bytes list" where
  "demo_status_ok =
     [[CHR 0x21], [], [CHR 0x02, CHR 0x00], replicate 32 (CHR 0x48), replicate 32 (CHR 0x47)]"

definition demo_status_bad :: "bytes list" where
  "demo_status_bad =
     [[CHR 0x21], [], [CHR 0x02, CHR 0x00], replicate 32 (CHR 0x48), replicate 32 (CHR 0x46)]"

text \<open>
  One family of caches extends another: every cache of the first is in the second with the
  same contents, and a cache the first lacks is absent or empty in the second.
\<close>

definition cache_ext ::
  "(string \<rightharpoonup> (pykey \<rightharpoonup> pyval)) \<Rightarrow> (string \<rightharpoonup> (pykey \<rightharpoonup> pyval)) \<Rightarrow> bool" where
  "cache_ext cs0 cs =
     (\<forall>c. (case cs0 c of
             Some m \<Rightarrow> cs c = Some m
           | None \<Rightarrow> cs c = None \<or> cs c = Some Map.empty))"

text \<open>
  A journal and caches from which the revert loop, run down to the length of \<open>jl0\<close>,
  returns normally with the journal \<open>jl0\<close> and caches that extend \<open>cs0\<close>.
\<close>

definition revertible ::
  "jentry list \<Rightarrow> (string \<rightharpoonup> (pykey \<rightharpoonup> pyval)) \<Rightarrow> jentry list
     \<Rightarrow> (string \<rightharpoonup> (pykey \<rightharpoonup> pyval)) \<Rightarrow> bool" where
  "revertible jl0 cs0 jl cs =
     (length jl0 \<le> length jl \<and>
      (\<exists>cs'. undo (length jl0) jl cs = (Inr (), jl0, cs') \<and> cache_ext cs0 cs'))"

text \<open>
  A step that writes the caches only through the journal and leaves the lists, the
  allocation counter and the other attributes of the block alone.
\<close>

definition journalled :: "store \<Rightarrow> block \<Rightarrow> store \<Rightarrow> block \<Rightarrow> bool" where
  "journalled st b st' b' =
     (hdr_frame b b' \<and> journal b' = journal b \<and>
      addrlists st' = addrlists st \<and> msglists st' = msglists st \<and>
      next_ref st' = next_ref st \<and>
      (\<forall>jl0 cs0. revertible jl0 cs0 (journals st (journal b)) (caches b)
                 \<longrightarrow> revertible jl0 cs0 (journals st' (journal b)) (caches b')))"

text \<open>
  What holds of store and block after any sequence of the mutations above, relative to the
  store and block \<open>st0\<close>, \<open>b0\<close> right after a snapshot whose post-queue copy is at \<open>rs\<close>:
  the journal can be reverted, the suicides list has only grown, and the copy is intact and
  not the block's own post-queue.
\<close>

definition mut_inv :: "store \<Rightarrow> block \<Rightarrow> ref \<Rightarrow> store \<Rightarrow> block \<Rightarrow> bool" where
  "mut_inv st0 b0 rs st b =
     (cls b = BlockC \<and> journal b = journal b0 \<and>
      revertible (journals st0 (journal b0)) (caches b0) (journals st (journal b0)) (caches b) \<and>
      suicides b = suicides b0 \<and> state b = state b0 \<and>
      (\<exists>xs. addrlists st (suicides b0) = addrlists st0 (suicides b0) @ xs) \<and>
      msglists st rs = msglists st0 rs \<and> postqueue b \<noteq> rs \<and>
      rs < next_ref st \<and> postqueue b < next_ref st)"

text \<open>
  A run for evaluation: a snapshot of the funded demo block, a sequence with every kind of
  mutation, and the revert to the snapshot.
\<close>

definition demo_mutations :: "mutation list" where
  "demo_mutations =
     [SetAcctItem ''aa'' ''nonce'' (PInt 9),
      SetAcctItem ''aa'' ''balance'' (PInt 100),
      SetAndJournal ''code'' (KStr ''aa'') (PStr ''code''),
      SetStorageData ''aa'' (KInt 1) (PInt 5),
      DeltaItem ''bb'' ''balance'' 7,
      SuicidesAppend (PStr ''bb''),
      SetGasUsed 21000,
      AddTransaction (RList [RStr ''tx'']) [] [CHR 0x52, CHR 0x08],
      PostqueueAppend (PStr ''msg''),
      PostqueuePop,
      PostqueueAssign [PStr ''other'']]"

definition demo_snap :: "snapshot_rec \<times> store" where
  "demo_snap = snapshot (fst demo_funded) (snd demo_funded)"

definition demo_mutated :: "unit res" where
  "demo_mutated = run_mutations demo_env (snd demo_snap) (snd demo_funded) demo_mutations"

definition demo_reverted :: "unit res" where
  "demo_reverted = revert (fst (snd demo_mutated)) (snd (snd demo_mutated)) (fst demo_snap)"

text \<open>A cached block that has already stored a hash.\<close>

definition demo_cached_hashed :: block where
  "demo_cached_hashed = (create_cached demo_block)\<lparr>hash_cached := Some ''stored''\<rparr>"

text \<open>The serialized header of the demo block under the stand-in encoders.\<close>

definition demo_serialized_header :: bytes where
  "demo_serialized_header =
     replicate 64 (CHR 0x00) @ ''bb''
     @ [CHR 0x02, CHR 0x00, CHR 0x00, CHR 0x0F, CHR 0x42, CHR 0x40, CHR 0x03, CHR 0xE8]"

text \<open>
  A chain for evaluation: a block of number 2 with one uncle, its parent and its
  grandparent (of number 0) as the block store returns them, and a block whose only uncle
  has an empty nonce.
\<close>

definition demo_uncle :: "bytes list" where
  "demo_uncle =
     [replicate 32 (CHR 0x00), [], [], [], [], [CHR 0x01], [], [], [], [], [], [],
      replicate 32 (CHR 0xFF)]"

definition demo_grandparent :: block where
  "demo_grandparent = create_cached demo_block"

definition demo_parent :: block where
  "demo_parent = create_cached (demo_block\<lparr>prevhash := replicate 32 (CHR 0x47), number := 1\<rparr>)"

definition demo_child :: block where
  "demo_child =
     demo_block\<lparr>prevhash := replicate 32 (CHR 0x50), number := 2,
                uncles := [demo_uncle], uncles_hash := replicate 32 (CHR 0x00)\<rparr>"

definition demo_chain_env :: env where
  "demo_chain_env =
     demo_env\<lparr>load_block :=
       (\<lambda>st h. if h = replicate 32 (CHR 0x50) then (Inr demo_parent, st)
               else if h = replicate 32 (CHR 0x47) then (Inr demo_grandparent, st)
               else (Inl KeyError, st))\<rparr>"

definition demo_bad_uncle_block :: block where
  "demo_bad_uncle_block =
     demo_block\<lparr>uncles := [[[], [], [], [], [], [CHR 0x01], [], [], [], [], [], [], []]],
                uncles_hash := CHR 0x01 # replicate 31 (CHR 0x00)\<rparr>"

text \<open>
  A header that fails the proof of work (its digest is \<open>2 ^ 256 - 1\<close>, its difficulty 2), a
  block that lists it before an uncle with an empty nonce, and a block of number 1 whose
  parent is not in the block store.
\<close>

definition demo_failing_uncle :: "bytes list" where
  "demo_failing_uncle =
     [replicate 32 (CHR 0xFF), [], [], [], [], [CHR 0x02], [], [], [], [], [], [],
      replicate 32 (CHR 0xFF)]"

definition demo_order_block :: block where
  "demo_order_block =
     demo_block\<lparr>uncles := [demo_failing_uncle,
                             [[], [], [], [], [], [CHR 0x01], [], [], [], [], [], [], []]],
                uncles_hash := replicate 32 (CHR 0xFF)\<rparr>"

definition demo_orphan :: block where
  "demo_orphan = demo_block\<lparr>prevhash := replicate 32 (CHR 0x50), number := 1\<rparr>"

text \<open>
  A second run for evaluation, on the demo block as built: a snapshot, one storage write and
  the revert; then the same storage write again and a commit. For comparison, the storage
  write and the commit with no snapshot and revert before. \<open>state_root_of\<close> reads the root
  of the state trie in an outcome.
\<close>

definition demo_sw_snap :: "snapshot_rec \<times> store" where
  "demo_sw_snap = snapshot demo_store demo_block"

definition demo_sw_written :: "unit res" where
  "demo_sw_written = set_storage_data (snd demo_sw_snap) demo_block ''aa'' (KInt 1) (PInt 5)"

definition demo_sw_reverted :: "unit res" where
  "demo_sw_reverted =
     revert (fst (snd demo_sw_written)) (snd (snd demo_sw_written)) (fst demo_sw_snap)"

definition demo_sw_rewritten :: "unit res" where
  "demo_sw_rewritten =
     set_storage_data (fst (snd demo_sw_reverted)) (snd (snd demo_sw_reverted))
       ''aa'' (KInt 1) (PInt 5)"

definition demo_sw_committed :: "unit res" where
  "demo_sw_committed =
     commit_state demo_env (fst (snd demo_sw_rewritten)) (snd (snd demo_sw_rewritten))"

definition demo_sw_direct :: "unit res" where
  "demo_sw_direct =
     (case set_storage_data demo_store demo_block ''aa'' (KInt 1) (PInt 5) of
        (r, st, b) \<Rightarrow> commit_state demo_env st b)"

definition state_root_of :: "unit res \<Rightarrow> bytes" where
  "state_root_of r = t_root_hash (tries (fst (snd r)) (state (snd (snd r))))"

section \<open>Verified properties\<close>

subsection \<open>Proof of work\<close>

lemma big_endian_to_int_foldl_nonneg:
  "0 \<le> acc \<Longrightarrow> 0 \<le> foldl (\<lambda>acc c. acc * 256 + (of_char c :: int)) acc s"
proof (induction s arbitrary: acc)
  case Nil
  then show ?case by simp
next
  case (Cons c s)
  have "0 \<le> (of_char c :: int)"
    by (metis of_nat_0_le_iff of_nat_of_char)
  with Cons.prems have "0 \<le> acc * 256 + of_char c" by simp
  then show ?case using Cons.IH by simp
qed

lemma big_endian_to_int_nonneg: "0 \<le> big_endian_to_int s"
  unfolding big_endian_to_int_def by (rule big_endian_to_int_foldl_nonneg) simp

lemma index_of_difficulty: "index_of ''difficulty'' block_structure = Some 5"
  by (simp add: block_structure_def)

lemma index_of_prevhash: "index_of ''prevhash'' block_structure = Some 0"
  by (simp add: block_structure_def)

text \<open>
  Claim C3. For a header of 13 fields, \<open>check_header_pow\<close> returns True exactly when the
  nonce (the 13th field) has 32 bytes and \<open>sha3(sha3(encoding of the first 12 fields) + nonce)\<close>,
  read as a big-endian unsigned integer, is strictly below \<open>2 ^ 256\<close> divided (integer
  division) by the difficulty field; a nonce of another length fails the assertion.
\<close>

theorem check_header_pow_iff:
  assumes "length header = 13"
  shows "(check_header_pow env header = Inr True \<longleftrightarrow>
            length (header ! 12) = 32 \<and>
            big_endian_to_int
              (sha3 env (sha3 env (rlp_encode env (RList (map RStr (take 12 header))))
                         @ header ! 12))
              < 2 ^ 256 div big_endian_to_int (header ! 5))
         \<and> (length (header ! 12) \<noteq> 32 \<longrightarrow> check_header_pow env header = Inl AssertionError)"
proof -
  from assms have ne: "header \<noteq> []" by auto
  from assms ne have l: "last header = header ! 12" by (simp add: last_conv_nth)
  from assms have b: "butlast header = take 12 header" by (simp add: butlast_conv_take)
  have z: "\<not> big_endian_to_int x < 2 ^ 256 div (0::int)" for x
    using big_endian_to_int_nonneg [of x] by simp
  show ?thesis
    using assms ne z
    by (auto simp: check_header_pow_def index_of_difficulty decoders_def l b Let_def)
qed

theorem check_header_pow_iff_witness:
  "length demo_header = 13 \<and> check_header_pow demo_env demo_header = Inr True \<and>
   length (demo_header ! 12) = 32 \<and>
   big_endian_to_int
     (sha3 demo_env (sha3 demo_env (rlp_encode demo_env (RList (map RStr (take 12 demo_header))))
                     @ demo_header ! 12))
     < 2 ^ 256 div big_endian_to_int (demo_header ! 5)"
proof -
  have l: "length demo_header = 13" by (simp add: demo_header_def)
  have c: "check_header_pow demo_env demo_header = Inr True" by code_simp
  from check_header_pow_iff [OF l, of demo_env] c l show ?thesis by blast
qed

subsection \<open>Frame lemmas\<close>

lemma blk_frame_refl [simp]: "blk_frame b b"
  unfolding blk_frame_def by simp

lemma blk_frame_trans: "blk_frame a b \<Longrightarrow> blk_frame b c \<Longrightarrow> blk_frame a c"
  unfolding blk_frame_def by simp

lemma st_frame_refl [simp]: "st_frame st st"
  unfolding st_frame_def by simp

lemma st_frame_trans: "st_frame a b \<Longrightarrow> st_frame b c \<Longrightarrow> st_frame a c"
  unfolding st_frame_def by simp

lemma blk_frame_hdr: "blk_frame a b \<Longrightarrow> hdr_frame a b"
  unfolding blk_frame_def hdr_frame_def by simp

lemma hdr_frame_refl [simp]: "hdr_frame b b"
  unfolding hdr_frame_def by simp

lemma hdr_frame_trans: "hdr_frame a b \<Longrightarrow> hdr_frame b c \<Longrightarrow> hdr_frame a c"
  unfolding hdr_frame_def by simp

lemma on_local_trie_frame: "on_local_trie f st t = (x, st', t') \<Longrightarrow> st_frame st st'"
  unfolding on_local_trie_def st_frame_def
  by (auto split: prod.splits)

lemma on_trie_frame: "on_trie f st r = (x, st') \<Longrightarrow> st_frame st st'"
  unfolding on_trie_def
  by (auto split: prod.splits dest!: on_local_trie_frame simp: st_frame_def)

lemma mk_blank_acct_frame:
  "mk_blank_acct env st b = (r, st', b') \<Longrightarrow> st_frame st st' \<and> blk_frame b b'"
  unfolding mk_blank_acct_def
  by (auto split: option.splits sum.splits simp: Let_def st_frame_def blk_frame_def)

lemma load_acct_frame:
  "load_acct env st b a = (r, st', b') \<Longrightarrow> st_frame st st' \<and> blk_frame b b'"
  unfolding load_acct_def
  by (auto split: prod.splits sum.splits if_splits
      dest!: on_trie_frame mk_blank_acct_frame intro: st_frame_trans)

lemma get_acct_frame:
  "get_acct env st b a = (r, st', b') \<Longrightarrow> st_frame st st' \<and> blk_frame b b'"
  unfolding get_acct_def
  by (auto split: prod.splits sum.splits if_splits dest!: load_acct_frame)

lemma get_acct_field_frame:
  "get_acct_field env st b a p = (r, st', b') \<Longrightarrow> st_frame st st' \<and> blk_frame b b'"
  unfolding get_acct_field_def
  by (auto split: prod.splits sum.splits option.splits if_splits dest!: get_acct_frame)

lemma get_acct_item_frame:
  "get_acct_item env st b a p = (r, st', b') \<Longrightarrow> st_frame st st' \<and> blk_frame b b'"
  unfolding get_acct_item_def
  by (auto split: prod.splits sum.splits option.splits if_splits dest!: get_acct_field_frame)

subsection \<open>Balances\<close>

lemma set_and_journal_ok:
  assumes "caches b cache = Some d"
  shows "set_and_journal st b cache index v =
           (if (case d index of None \<Rightarrow> True | Some p \<Rightarrow> \<not> py_eq p v) then
              (Inr (),
               st\<lparr>journals := (journals st)
                     (journal b := journals st (journal b) @ [(cache, index, d index, v)])\<rparr>,
               b\<lparr>caches := (caches b)(cache \<mapsto> d(index \<mapsto> v))\<rparr>)
            else (Inr (), st, b))"
  using assms by (simp add: set_and_journal_def Let_def)

lemma py_eq_refl [simp]: "py_eq v v"
  by (cases v) auto


lemma delta_item_insufficient:
  assumes "get_acct_item env st b a p = (Inr (PInt bal), st1, b1)" and "bal + d < 0"
  shows "delta_item env st b a p d = (Inr False, st1, b1)"
  using assms by (simp add: delta_item_def)

lemma get_acct_item_keeps:
  assumes "get_acct_item env st b a p = (r, st1, b1)"
  shows "caches b1 = caches b \<and> journal b1 = journal b \<and> journals st1 = journals st \<and>
         cls b1 = cls b"
  using get_acct_item_frame [OF assms] by (simp add: st_frame_def blk_frame_def)

text \<open>
  Claim C7. Let the current balance of \<open>a\<close> (what \<open>get_balance\<close> returns) be \<open>bal\<close>.
  For every \<open>x > bal\<close>, \<open>delta_balance(a, -x)\<close> returns False in the state the read left:
  no cache is modified and nothing is appended to the journal. For every delta with
  \<open>bal + d \<ge> 0\<close>, on a plain block whose dirty set exists, it returns True after
  \<open>_set_acct_item\<close> has written \<open>bal + d\<close>: the balance cache holds it at \<open>a\<close>, and the
  journal has grown by one entry for each of the caches \<open>balance\<close> and \<open>all\<close> whose value
  changed.
\<close>

theorem delta_balance_overdraw:
  assumes "get_balance env st b a = (Inr (PInt bal), st1, b1)"
  shows "(bal < x \<longrightarrow>
            delta_balance env st b a (- x) = (Inr False, st1, b1) \<and>
            caches b1 = caches b \<and> journal b1 = journal b \<and> journals st1 = journals st)
       \<and> (0 \<le> bal + d \<and> cls b = BlockC \<and> caches b ''all'' \<noteq> None \<longrightarrow>
            (\<exists>st2 b2 m v.
               delta_balance env st b a d = (Inr True, st2, b2) \<and>
               (st2, b2) = snd (Block_set_acct_item st1 b1 a ''balance'' (PInt (bal + d))) \<and>
               caches b2 ''balance'' = Some m \<and> m (KStr a) = Some v \<and> py_eq v (PInt (bal + d)) \<and>
               journal b2 = journal b \<and>
               journals st2 (journal b) =
                 journals st (journal b)
                 @ (if (case the (caches b ''balance'') (KStr a) of
                          None \<Rightarrow> True | Some p \<Rightarrow> \<not> py_eq p (PInt (bal + d)))
                    then [(''balance'', KStr a, the (caches b ''balance'') (KStr a), PInt (bal + d))]
                    else [])
                 @ (if (case the (caches b ''all'') (KStr a) of
                          None \<Rightarrow> True | Some p \<Rightarrow> \<not> py_eq p (PInt (bal + d)))
                    then [(''all'', KStr a, the (caches b ''all'') (KStr a), PInt (bal + d))]
                    else [])))"
proof -
  from assms have g: "get_acct_item env st b a ''balance'' = (Inr (PInt bal), st1, b1)"
    by (simp add: get_balance_def)
  from get_acct_item_frame [OF g] have fr: "st_frame st st1" "blk_frame b b1" by simp_all
  from fr have eqs: "caches b1 = caches b" "journal b1 = journal b" "journals st1 = journals st"
    "cls b1 = cls b"
    by (simp_all add: st_frame_def blk_frame_def)
  have part1: "bal < x \<longrightarrow> delta_balance env st b a (- x) = (Inr False, st1, b1)"
    using delta_item_insufficient [OF g, of "- x"] by (simp add: delta_balance_def)
  have bc: "caches b ''balance'' \<noteq> None"
    using g by (auto simp: get_acct_item_def split: option.splits)
  have part2: "\<exists>st2 b2 m v.
               delta_balance env st b a d = (Inr True, st2, b2) \<and>
               (st2, b2) = snd (Block_set_acct_item st1 b1 a ''balance'' (PInt (bal + d))) \<and>
               caches b2 ''balance'' = Some m \<and> m (KStr a) = Some v \<and> py_eq v (PInt (bal + d)) \<and>
               journal b2 = journal b \<and>
               journals st2 (journal b) =
                 journals st (journal b)
                 @ (if (case the (caches b ''balance'') (KStr a) of
                          None \<Rightarrow> True | Some p \<Rightarrow> \<not> py_eq p (PInt (bal + d)))
                    then [(''balance'', KStr a, the (caches b ''balance'') (KStr a), PInt (bal + d))]
                    else [])
                 @ (if (case the (caches b ''all'') (KStr a) of
                          None \<Rightarrow> True | Some p \<Rightarrow> \<not> py_eq p (PInt (bal + d)))
                    then [(''all'', KStr a, the (caches b ''all'') (KStr a), PInt (bal + d))]
                    else [])"
    if h: "0 \<le> bal + d" "cls b = BlockC" "caches b ''all'' \<noteq> None"
  proof -
    from bc obtain dp where dp: "caches b ''balance'' = Some dp" by auto
    from h(3) obtain da where da: "caches b ''all'' = Some da" by auto
    have d1: "delta_balance env st b a d =
              (case Block_set_acct_item st1 b1 a ''balance'' (PInt (bal + d)) of
                 (Inl e, st2, b2) \<Rightarrow> (Inl e, st2, b2)
               | (Inr u, st2, b2) \<Rightarrow> (Inr True, st2, b2))"
      using h(1) h(2) eqs(4)
      by (simp add: delta_balance_def delta_item_def g set_acct_item_def)
    show ?thesis
      unfolding d1 Block_set_acct_item_def
      using dp da eqs
      by (auto simp: set_and_journal_def Let_def split: option.splits)
  qed
  show ?thesis using part1 part2 eqs by blast
qed


lemma demo_funded_balance:
  "fst (get_balance demo_env (fst demo_funded) (snd demo_funded) ''aa'') = Inr (PInt 10)"
  by code_simp

theorem delta_balance_overdraw_witness:
  "fst (get_balance demo_env (fst demo_funded) (snd demo_funded) ''aa'') = Inr (PInt 10) \<and>
   (10::int) < 11 \<and>
   fst (delta_balance demo_env (fst demo_funded) (snd demo_funded) ''aa'' (- 11)) = Inr False \<and>
   0 \<le> (10::int) + (- 4) \<and> cls (snd demo_funded) = BlockC \<and>
   caches (snd demo_funded) ''all'' \<noteq> None \<and>
   fst (delta_balance demo_env (fst demo_funded) (snd demo_funded) ''aa'' (- 4)) = Inr True"
proof -
  obtain st1 b1 where
    g: "get_balance demo_env (fst demo_funded) (snd demo_funded) ''aa'' = (Inr (PInt 10), st1, b1)"
    using demo_funded_balance by (metis prod.collapse)
  have c: "cls (snd demo_funded) = BlockC" by code_simp
  have a: "caches (snd demo_funded) ''all'' \<noteq> None" by code_simp
  from delta_balance_overdraw [OF g, of 11 "- 4"] c a
  show ?thesis using demo_funded_balance by auto
qed

lemma delta_balance_writes:
  assumes g: "get_balance env st b a = (Inr (PInt bal), st1, b1)"
    and n: "0 \<le> bal + d" and c: "cls b = BlockC" and al: "caches b ''all'' \<noteq> None"
  shows "\<exists>st2 b2 m.
           delta_balance env st b a d = (Inr True, st2, b2) \<and>
           caches b2 ''balance'' = Some m \<and> m (KStr a) = Some (PInt (bal + d)) \<and>
           (\<forall>k. k \<noteq> KStr a \<longrightarrow> m k = the (caches b ''balance'') k) \<and>
           cls b2 = BlockC \<and> caches b2 ''all'' \<noteq> None"
proof -
  from g have g': "get_acct_item env st b a ''balance'' = (Inr (PInt bal), st1, b1)"
    by (simp add: get_balance_def)
  from get_acct_item_keeps [OF g'] have eqs: "caches b1 = caches b" "cls b1 = cls b" by simp_all
  from g' obtain dp where dp: "caches b ''balance'' = Some dp"
    by (auto simp: get_acct_item_def split: option.splits)
  from al obtain da where da: "caches b ''all'' = Some da" by auto
  have cur: "dp (KStr a) = None \<or> dp (KStr a) = Some (PInt bal)"
    using g' dp by (auto simp: get_acct_item_def split: option.splits)
  have d1: "delta_balance env st b a d =
              (case Block_set_acct_item st1 b1 a ''balance'' (PInt (bal + d)) of
                 (Inl e, st2, b2) \<Rightarrow> (Inl e, st2, b2)
               | (Inr u, st2, b2) \<Rightarrow> (Inr True, st2, b2))"
    using n c eqs by (simp add: delta_balance_def delta_item_def g' set_acct_item_def)
  show ?thesis
    unfolding d1 Block_set_acct_item_def
    using dp da eqs cur c
    by (auto simp: set_and_journal_def Let_def split: option.splits)
qed

lemma get_balance_cached:
  "caches b ''balance'' = Some m \<Longrightarrow> m (KStr a) = Some v \<Longrightarrow>
   get_balance env st b a = (Inr v, st, b)"
  by (simp add: get_balance_def get_acct_item_def)

text \<open>
  Claim C10. \<open>transfer_value\<close> asserts \<open>value >= 0\<close>: for a strictly negative value it
  raises the assertion failure with store and block untouched (it does not return False).
  For a non-negative value it debits the sender with \<open>delta_balance\<close> first and credits the
  receiver only if the debit returned True, returning False otherwise. When the sender's
  balance is below the value, the result is False and no cache or journal has changed. When
  the sender's balance \<open>bal\<close> covers the value, on a plain block whose dirty set exists, the
  debit returns True and leaves \<open>bal - value\<close> in the balance cache at the sender, the other
  entries of that cache as they were; and if the receiver's balance read after the debit is
  \<open>bal_to\<close>, the call returns True with \<open>bal_to + value\<close> in the balance cache at the
  receiver, \<open>bal - value\<close> still at a sender other than the receiver, and the entries of
  other addresses as they were (for a transfer to oneself \<open>bal_to\<close> is \<open>bal - value\<close>, so
  the balance ends as it began).
\<close>

theorem transfer_value_spec:
  "(v < 0 \<longrightarrow> transfer_value env st b from_addr to_addr v = (Inl AssertionError, st, b)) \<and>
   (0 \<le> v \<longrightarrow>
      transfer_value env st b from_addr to_addr v =
        (case delta_balance env st b from_addr (- v) of
           (Inl e, st1, b1) \<Rightarrow> (Inl e, st1, b1)
         | (Inr ok, st1, b1) \<Rightarrow>
             if ok then delta_balance env st1 b1 to_addr v else (Inr False, st1, b1))) \<and>
   (0 \<le> v \<and> get_balance env st b from_addr = (Inr (PInt bal), st1, b1) \<and> bal < v \<longrightarrow>
      transfer_value env st b from_addr to_addr v = (Inr False, st1, b1) \<and>
      caches b1 = caches b \<and> journal b1 = journal b \<and> journals st1 = journals st) \<and>
   (0 \<le> v \<and> get_balance env st b from_addr = (Inr (PInt bal), st1, b1) \<and> v \<le> bal \<and>
    cls b = BlockC \<and> caches b ''all'' \<noteq> None \<longrightarrow>
      (\<exists>st2 b2 m2.
         delta_balance env st b from_addr (- v) = (Inr True, st2, b2) \<and>
         caches b2 ''balance'' = Some m2 \<and> m2 (KStr from_addr) = Some (PInt (bal - v)) \<and>
         (\<forall>k. k \<noteq> KStr from_addr \<longrightarrow> m2 k = the (caches b ''balance'') k) \<and>
         (\<forall>bal_to st3 b3.
            get_balance env st2 b2 to_addr = (Inr (PInt bal_to), st3, b3) \<and> 0 \<le> bal_to + v \<longrightarrow>
            (\<exists>st4 b4 m4.
               transfer_value env st b from_addr to_addr v = (Inr True, st4, b4) \<and>
               caches b4 ''balance'' = Some m4 \<and>
               m4 (KStr to_addr) = Some (PInt (bal_to + v)) \<and>
               (to_addr \<noteq> from_addr \<longrightarrow> m4 (KStr from_addr) = Some (PInt (bal - v))) \<and>
               (to_addr = from_addr \<longrightarrow> bal_to = bal - v) \<and>
               (\<forall>k. k \<noteq> KStr from_addr \<and> k \<noteq> KStr to_addr \<longrightarrow>
                  m4 k = the (caches b ''balance'') k)))))"
proof -
  have p3: "transfer_value env st b from_addr to_addr v = (Inr False, st1, b1) \<and>
      caches b1 = caches b \<and> journal b1 = journal b \<and> journals st1 = journals st"
    if h: "0 \<le> v" "get_balance env st b from_addr = (Inr (PInt bal), st1, b1)" "bal < v"
  proof -
    from h(2) have g: "get_acct_item env st b from_addr ''balance'' = (Inr (PInt bal), st1, b1)"
      by (simp add: get_balance_def)
    from delta_item_insufficient [OF g, of "- v"] h(3)
    have "delta_balance env st b from_addr (- v) = (Inr False, st1, b1)"
      by (simp add: delta_balance_def)
    with h(1) get_acct_item_keeps [OF g] show ?thesis
      by (simp add: transfer_value_def)
  qed
  have p4: "\<exists>st2 b2 m2.
         delta_balance env st b from_addr (- v) = (Inr True, st2, b2) \<and>
         caches b2 ''balance'' = Some m2 \<and> m2 (KStr from_addr) = Some (PInt (bal - v)) \<and>
         (\<forall>k. k \<noteq> KStr from_addr \<longrightarrow> m2 k = the (caches b ''balance'') k) \<and>
         (\<forall>bal_to st3 b3.
            get_balance env st2 b2 to_addr = (Inr (PInt bal_to), st3, b3) \<and> 0 \<le> bal_to + v \<longrightarrow>
            (\<exists>st4 b4 m4.
               transfer_value env st b from_addr to_addr v = (Inr True, st4, b4) \<and>
               caches b4 ''balance'' = Some m4 \<and>
               m4 (KStr to_addr) = Some (PInt (bal_to + v)) \<and>
               (to_addr \<noteq> from_addr \<longrightarrow> m4 (KStr from_addr) = Some (PInt (bal - v))) \<and>
               (to_addr = from_addr \<longrightarrow> bal_to = bal - v) \<and>
               (\<forall>k. k \<noteq> KStr from_addr \<and> k \<noteq> KStr to_addr \<longrightarrow>
                  m4 k = the (caches b ''balance'') k)))"
    if h: "0 \<le> v" "get_balance env st b from_addr = (Inr (PInt bal), st1, b1)" "v \<le> bal"
      "cls b = BlockC" "caches b ''all'' \<noteq> None"
  proof -
    from h(3) have n: "0 \<le> bal + (- v)" by simp
    from delta_balance_writes [OF h(2) n h(4) h(5)] obtain st2 b2 m2 where
      d: "delta_balance env st b from_addr (- v) = (Inr True, st2, b2)" and
      m2: "caches b2 ''balance'' = Some m2" "m2 (KStr from_addr) = Some (PInt (bal - v))" and
      o2: "\<forall>k. k \<noteq> KStr from_addr \<longrightarrow> m2 k = the (caches b ''balance'') k" and
      c2: "cls b2 = BlockC" "caches b2 ''all'' \<noteq> None"
      by auto
    from h(1) d have t: "transfer_value env st b from_addr to_addr v
                         = delta_balance env st2 b2 to_addr v"
      by (simp add: transfer_value_def)
    have credit: "\<exists>st4 b4 m4.
               transfer_value env st b from_addr to_addr v = (Inr True, st4, b4) \<and>
               caches b4 ''balance'' = Some m4 \<and>
               m4 (KStr to_addr) = Some (PInt (bal_to + v)) \<and>
               (to_addr \<noteq> from_addr \<longrightarrow> m4 (KStr from_addr) = Some (PInt (bal - v))) \<and>
               (to_addr = from_addr \<longrightarrow> bal_to = bal - v) \<and>
               (\<forall>k. k \<noteq> KStr from_addr \<and> k \<noteq> KStr to_addr \<longrightarrow>
                  m4 k = the (caches b ''balance'') k)"
      if r: "get_balance env st2 b2 to_addr = (Inr (PInt bal_to), st3, b3)" "0 \<le> bal_to + v"
      for bal_to st3 b3
    proof -
      from delta_balance_writes [OF r(1) r(2) c2] obtain st4 b4 m4 where
        d4: "delta_balance env st2 b2 to_addr v = (Inr True, st4, b4)" and
        m4: "caches b4 ''balance'' = Some m4" "m4 (KStr to_addr) = Some (PInt (bal_to + v))" and
        o4: "\<forall>k. k \<noteq> KStr to_addr \<longrightarrow> m4 k = the (caches b2 ''balance'') k"
        by auto
      have same: "bal_to = bal - v" if "to_addr = from_addr"
        using get_balance_cached [OF m2, of env st2] r(1) that by simp
      from o4 m2 have keep: "to_addr \<noteq> from_addr \<longrightarrow> m4 (KStr from_addr) = Some (PInt (bal - v))"
        by simp
      from o4 o2 m2(1) have rest: "\<forall>k. k \<noteq> KStr from_addr \<and> k \<noteq> KStr to_addr \<longrightarrow>
                  m4 k = the (caches b ''balance'') k"
        by simp
      from t d4 m4 same keep rest show ?thesis by auto
    qed
    from d m2 o2 credit show ?thesis by blast
  qed
  have p12: "(v < 0 \<longrightarrow> transfer_value env st b from_addr to_addr v = (Inl AssertionError, st, b)) \<and>
   (0 \<le> v \<longrightarrow>
      transfer_value env st b from_addr to_addr v =
        (case delta_balance env st b from_addr (- v) of
           (Inl e, st1, b1) \<Rightarrow> (Inl e, st1, b1)
         | (Inr ok, st1, b1) \<Rightarrow>
             if ok then delta_balance env st1 b1 to_addr v else (Inr False, st1, b1)))"
    by (auto simp: transfer_value_def split: prod.splits sum.splits)
  from p12 p3 p4 show ?thesis by blast
qed

lemma demo_debited_receiver:
  "fst (get_balance demo_env
          (fst (snd (delta_balance demo_env (fst demo_funded) (snd demo_funded) ''aa'' (- 4))))
          (snd (snd (delta_balance demo_env (fst demo_funded) (snd demo_funded) ''aa'' (- 4))))
          ''bb'') = Inr (PInt 0)"
  by code_simp

theorem transfer_value_spec_witness:
  "((- 1::int) < 0 \<and>
    transfer_value demo_env (fst demo_funded) (snd demo_funded) ''aa'' ''bb'' (- 1)
      = (Inl AssertionError, fst demo_funded, snd demo_funded)) \<and>
   ((0::int) \<le> 11 \<and> (10::int) < 11 \<and>
    fst (get_balance demo_env (fst demo_funded) (snd demo_funded) ''aa'') = Inr (PInt 10) \<and>
    fst (transfer_value demo_env (fst demo_funded) (snd demo_funded) ''aa'' ''bb'' 11)
      = Inr False) \<and>
   ((0::int) \<le> 4 \<and> (4::int) \<le> 10 \<and> cls (snd demo_funded) = BlockC \<and>
    caches (snd demo_funded) ''all'' \<noteq> None \<and>
    (\<exists>st4 b4 m4.
       transfer_value demo_env (fst demo_funded) (snd demo_funded) ''aa'' ''bb'' 4
         = (Inr True, st4, b4) \<and>
       caches b4 ''balance'' = Some m4 \<and>
       m4 (KStr ''aa'') = Some (PInt 6) \<and> m4 (KStr ''bb'') = Some (PInt 4)))"
proof -
  obtain st1 b1 where
    g: "get_balance demo_env (fst demo_funded) (snd demo_funded) ''aa'' = (Inr (PInt 10), st1, b1)"
    using demo_funded_balance by (metis prod.collapse)
  have c: "cls (snd demo_funded) = BlockC" by code_simp
  have al: "caches (snd demo_funded) ''all'' \<noteq> None" by code_simp
  from transfer_value_spec [of "- 1" demo_env "fst demo_funded" "snd demo_funded" "''aa''" "''bb''"]
  have a: "transfer_value demo_env (fst demo_funded) (snd demo_funded) ''aa'' ''bb'' (- 1)
      = (Inl AssertionError, fst demo_funded, snd demo_funded)" by simp
  have "(10::int) < 11" "(0::int) \<le> 11" by simp_all
  with transfer_value_spec [of 11 demo_env "fst demo_funded" "snd demo_funded" "''aa''" "''bb''" 10 st1 b1] g
  have "transfer_value demo_env (fst demo_funded) (snd demo_funded) ''aa'' ''bb'' 11
      = (Inr False, st1, b1)" by blast
  then have b: "fst (transfer_value demo_env (fst demo_funded) (snd demo_funded) ''aa'' ''bb'' 11)
      = Inr False" by simp
  have "(0::int) \<le> 4" "(4::int) \<le> 10" by simp_all
  with transfer_value_spec [of 4 demo_env "fst demo_funded" "snd demo_funded" "''aa''" "''bb''" 10 st1 b1]
    g c al
  obtain st2 b2 where
    d: "delta_balance demo_env (fst demo_funded) (snd demo_funded) ''aa'' (- 4) = (Inr True, st2, b2)"
    and cr: "\<forall>bal_to st3 b3.
            get_balance demo_env st2 b2 ''bb'' = (Inr (PInt bal_to), st3, b3) \<and> 0 \<le> bal_to + 4 \<longrightarrow>
            (\<exists>st4 b4 m4.
               transfer_value demo_env (fst demo_funded) (snd demo_funded) ''aa'' ''bb'' 4
                 = (Inr True, st4, b4) \<and>
               caches b4 ''balance'' = Some m4 \<and>
               m4 (KStr ''bb'') = Some (PInt (bal_to + 4)) \<and>
               (''bb'' \<noteq> ''aa'' \<longrightarrow> m4 (KStr ''aa'') = Some (PInt (10 - 4))) \<and>
               (''bb'' = ''aa'' \<longrightarrow> bal_to = 10 - 4) \<and>
               (\<forall>k. k \<noteq> KStr ''aa'' \<and> k \<noteq> KStr ''bb'' \<longrightarrow>
                  m4 k = the (caches (snd demo_funded) ''balance'') k))"
    by blast
  from demo_debited_receiver d obtain st3 b3 where
    r: "get_balance demo_env st2 b2 ''bb'' = (Inr (PInt 0), st3, b3)"
    by (metis prod.collapse fst_conv snd_conv)
  from cr r obtain st4 b4 m4 where
    t: "transfer_value demo_env (fst demo_funded) (snd demo_funded) ''aa'' ''bb'' 4
          = (Inr True, st4, b4)"
      "caches b4 ''balance'' = Some m4" "m4 (KStr ''bb'') = Some (PInt (0 + 4))"
      "m4 (KStr ''aa'') = Some (PInt (10 - 4))"
    by fastforce
  then have "\<exists>st4 b4 m4.
       transfer_value demo_env (fst demo_funded) (snd demo_funded) ''aa'' ''bb'' 4
         = (Inr True, st4, b4) \<and>
       caches b4 ''balance'' = Some m4 \<and>
       m4 (KStr ''aa'') = Some (PInt 6) \<and> m4 (KStr ''bb'') = Some (PInt 4)"
    by auto
  with a b c al demo_funded_balance show ?thesis by simp
qed

subsection \<open>Status handshake\<close>

text \<open>
  Claim C8. On a Status packet the peer sends a Disconnect (with a reason that makes the
  peer forgotten, and the disconnect signal) whenever the payload is short, the Ethereum
  protocol version differs from the local one, the network id differs, or the genesis hash
  differs from the local genesis hash; then \<open>status_received\<close>, \<open>status_head_hash\<close> and
  \<open>status_total_difficulty\<close> keep their values. Only when all three checks pass does it
  set \<open>status_received\<close>, record the head hash and the total difficulty and emit
  \<open>peer_status_received\<close>; then nothing is queued for sending.
\<close>

theorem recv_Status_spec:
  "(length data < 5 \<or>
    big_endian_to_int (data ! 0) \<noteq> ETHEREUM_PROTOCOL_VERSION pk \<or>
    big_endian_to_int (data ! 1) \<noteq> NETWORK_ID pk \<or>
    data ! 4 \<noteq> local_genesis_hash pk \<longrightarrow>
      (\<exists>reason. reason \<in> set reasons_to_forget \<and>
         recv_Status pk p data = send_Disconnect pk p reason \<and>
         response_queue (recv_Status pk p data) = response_queue p @ [dump_Disconnect pk reason]) \<and>
      signals_sent (recv_Status pk p data) = signals_sent p @ [peer_disconnect_requested True] \<and>
      status_received (recv_Status pk p data) = status_received p \<and>
      status_head_hash (recv_Status pk p data) = status_head_hash p \<and>
      status_total_difficulty (recv_Status pk p data) = status_total_difficulty p) \<and>
   (5 \<le> length data \<and>
    big_endian_to_int (data ! 0) = ETHEREUM_PROTOCOL_VERSION pk \<and>
    big_endian_to_int (data ! 1) = NETWORK_ID pk \<and>
    data ! 4 = local_genesis_hash pk \<longrightarrow>
      recv_Status pk p data =
        p\<lparr>status_received := True,
          status_head_hash := Some (data ! 3),
          status_total_difficulty := Some (big_endian_to_int (data ! 2)),
          signals_sent := signals_sent p @ [peer_status_received]\<rparr> \<and>
      response_queue (recv_Status pk p data) = response_queue p)"
proof -
  have d: "send_Disconnect pk p r =
           p\<lparr>response_queue := response_queue p @ [dump_Disconnect pk r],
             slept := slept p + 2,
             signals_sent := signals_sent p @ [peer_disconnect_requested (r \<in> set reasons_to_forget)]\<rparr>"
    for r
    by (simp add: send_Disconnect_def send_packet_def Let_def)
  have r1: "''Incompatible network protocols'' \<in> set reasons_to_forget"
    and r2: "''Wrong genesis block'' \<in> set reasons_to_forget"
    by (simp_all add: reasons_to_forget_def)
  have bad: "length data < 5 \<or>
    big_endian_to_int (data ! 0) \<noteq> ETHEREUM_PROTOCOL_VERSION pk \<or>
    big_endian_to_int (data ! 1) \<noteq> NETWORK_ID pk \<or>
    data ! 4 \<noteq> local_genesis_hash pk \<Longrightarrow>
      recv_Status pk p data = send_Disconnect pk p ''Incompatible network protocols'' \<or>
      recv_Status pk p data = send_Disconnect pk p ''Wrong genesis block''"
    by (auto simp: recv_Status_def Let_def)
  have good: "5 \<le> length data \<and>
    big_endian_to_int (data ! 0) = ETHEREUM_PROTOCOL_VERSION pk \<and>
    big_endian_to_int (data ! 1) = NETWORK_ID pk \<and>
    data ! 4 = local_genesis_hash pk \<Longrightarrow>
      recv_Status pk p data =
        p\<lparr>status_received := True,
          status_head_hash := Some (data ! 3),
          status_total_difficulty := Some (big_endian_to_int (data ! 2)),
          signals_sent := signals_sent p @ [peer_status_received]\<rparr>"
    by (auto simp: recv_Status_def Let_def)
  show ?thesis
  proof (intro conjI impI)
    assume a: "length data < 5 \<or>
      big_endian_to_int (data ! 0) \<noteq> ETHEREUM_PROTOCOL_VERSION pk \<or>
      big_endian_to_int (data ! 1) \<noteq> NETWORK_ID pk \<or>
      data ! 4 \<noteq> local_genesis_hash pk"
    from bad [OF a] r1 r2
    show "\<exists>reason. reason \<in> set reasons_to_forget \<and>
         recv_Status pk p data = send_Disconnect pk p reason \<and>
         response_queue (recv_Status pk p data) = response_queue p @ [dump_Disconnect pk reason]"
      by (auto simp: d)
    from bad [OF a] r1 r2
    show "signals_sent (recv_Status pk p data) = signals_sent p @ [peer_disconnect_requested True]"
      by (auto simp: d)
    from bad [OF a] show "status_received (recv_Status pk p data) = status_received p"
      by (auto simp: d)
    from bad [OF a] show "status_head_hash (recv_Status pk p data) = status_head_hash p"
      by (auto simp: d)
    from bad [OF a]
    show "status_total_difficulty (recv_Status pk p data) = status_total_difficulty p"
      by (auto simp: d)
  next
    assume a: "5 \<le> length data \<and>
      big_endian_to_int (data ! 0) = ETHEREUM_PROTOCOL_VERSION pk \<and>
      big_endian_to_int (data ! 1) = NETWORK_ID pk \<and>
      data ! 4 = local_genesis_hash pk"
    from good [OF a] show "recv_Status pk p data =
        p\<lparr>status_received := True,
          status_head_hash := Some (data ! 3),
          status_total_difficulty := Some (big_endian_to_int (data ! 2)),
          signals_sent := signals_sent p @ [peer_status_received]\<rparr>" .
    from good [OF a] show "response_queue (recv_Status pk p data) = response_queue p"
      by simp
  qed
qed

theorem recv_Status_spec_witness:
  "(demo_status_bad ! 4 \<noteq> local_genesis_hash demo_packeter \<and>
    response_queue (recv_Status demo_packeter demo_peer demo_status_bad)
      = [''Disconnect:Wrong genesis block''] \<and>
    status_received (recv_Status demo_packeter demo_peer demo_status_bad) = False) \<and>
   (5 \<le> length demo_status_ok \<and>
    big_endian_to_int (demo_status_ok ! 0) = ETHEREUM_PROTOCOL_VERSION demo_packeter \<and>
    big_endian_to_int (demo_status_ok ! 1) = NETWORK_ID demo_packeter \<and>
    demo_status_ok ! 4 = local_genesis_hash demo_packeter \<and>
    status_received (recv_Status demo_packeter demo_peer demo_status_ok) \<and>
    status_total_difficulty (recv_Status demo_packeter demo_peer demo_status_ok) = Some 512 \<and>
    response_queue (recv_Status demo_packeter demo_peer demo_status_ok) = [])"
proof -
  have b: "demo_status_bad ! 4 \<noteq> local_genesis_hash demo_packeter" by code_simp
  have q: "response_queue (recv_Status demo_packeter demo_peer demo_status_bad)
      = [''Disconnect:Wrong genesis block'']" by code_simp
  have g: "5 \<le> length demo_status_ok \<and>
    big_endian_to_int (demo_status_ok ! 0) = ETHEREUM_PROTOCOL_VERSION demo_packeter \<and>
    big_endian_to_int (demo_status_ok ! 1) = NETWORK_ID demo_packeter \<and>
    demo_status_ok ! 4 = local_genesis_hash demo_packeter" by code_simp
  have t: "big_endian_to_int (demo_status_ok ! 2) = 512" by code_simp
  from recv_Status_spec [of demo_status_bad demo_packeter demo_peer] b
  have 1: "status_received (recv_Status demo_packeter demo_peer demo_status_bad)
           = status_received demo_peer" by blast
  from recv_Status_spec [of demo_status_ok demo_packeter demo_peer] g
  have 2: "recv_Status demo_packeter demo_peer demo_status_ok =
        demo_peer\<lparr>status_received := True,
          status_head_hash := Some (demo_status_ok ! 3),
          status_total_difficulty := Some (big_endian_to_int (demo_status_ok ! 2)),
          signals_sent := signals_sent demo_peer @ [peer_status_received]\<rparr>" by blast
  show ?thesis using b q g 1 by (simp add: 2 t) (simp add: demo_peer_def)
qed

subsection \<open>Commit\<close>

lemma commit_account_frame:
  "commit_account env st b k = (r, st', b') \<Longrightarrow> blk_frame b b'"
  unfolding commit_account_def
  by (auto split: pykey.splits prod.splits sum.splits dest!: load_acct_frame)

lemma commit_accounts_frame:
  "commit_accounts env st b ks = (r, st', b') \<Longrightarrow> blk_frame b b'"
proof (induction ks arbitrary: st b)
  case Nil
  then show ?case by simp
next
  case (Cons k ks)
  then show ?case
    by (auto split: prod.splits sum.splits dest!: commit_account_frame
        intro: blk_frame_trans)
qed

lemma reset_cache_post:
  assumes "reset_cache st b = (st', b')"
  shows "journals st' (journal b') = []"
    and "caches b' = [''all'' \<mapsto> Map.empty, ''balance'' \<mapsto> Map.empty,
                      ''nonce'' \<mapsto> Map.empty, ''code'' \<mapsto> Map.empty]"
    and "hdr_frame b b'"
  using assms
  by (auto simp: reset_cache_def new_journal_def Let_def hdr_frame_def)

lemma Block_commit_state_post:
  assumes "Block_commit_state env st b = (Inr (), st1, b1)"
  shows "journals st1 (journal b1) = []" and "hdr_frame b b1"
    and "journals st (journal b) \<noteq> [] \<longrightarrow>
         caches b1 = [''all'' \<mapsto> Map.empty, ''balance'' \<mapsto> Map.empty,
                      ''nonce'' \<mapsto> Map.empty, ''code'' \<mapsto> Map.empty]"
proof -
  show "journals st1 (journal b1) = []"
    using assms unfolding Block_commit_state_def
    by (auto split: if_splits option.splits prod.splits sum.splits simp: Let_def
        dest: reset_cache_post(1))
  show "hdr_frame b b1"
    using assms unfolding Block_commit_state_def
    by (auto split: if_splits option.splits prod.splits sum.splits simp: Let_def
        dest!: reset_cache_post(3) commit_accounts_frame blk_frame_hdr
        intro: hdr_frame_trans)
  show "journals st (journal b) \<noteq> [] \<longrightarrow>
         caches b1 = [''all'' \<mapsto> Map.empty, ''balance'' \<mapsto> Map.empty,
                      ''nonce'' \<mapsto> Map.empty, ''code'' \<mapsto> Map.empty]"
    using assms unfolding Block_commit_state_def
    by (auto split: if_splits option.splits prod.splits sum.splits simp: Let_def
        dest: reset_cache_post(2))
qed

lemma commit_state_noop:
  "cls b = CachedBlockC \<or> journals st (journal b) = [] \<Longrightarrow>
   commit_state env st b = (Inr (), st, b)"
  by (auto simp: commit_state_def Block_commit_state_def CachedBlock_commit_state_def
      split: block_class.splits)

lemma commit_state_twice:
  assumes "commit_state env st b = (Inr (), st1, b1)"
  shows "commit_state env st1 b1 = (Inr (), st1, b1)"
proof (cases "cls b")
  case BlockC
  with assms have c: "Block_commit_state env st b = (Inr (), st1, b1)"
    by (simp add: commit_state_def)
  from Block_commit_state_post(1) [OF c] show ?thesis
    by (simp add: commit_state_noop)
next
  case CachedBlockC
  with assms have "st1 = st" "b1 = b"
    by (simp_all add: commit_state_def CachedBlock_commit_state_def)
  with CachedBlockC show ?thesis by (simp add: commit_state_noop)
qed

lemma repeat_commit_noop:
  "commit_state env st b = (Inr (), st, b) \<Longrightarrow> repeat_commit env n st b = (Inr (), st, b)"
  by (induction n) simp_all

lemma finalize_ends_in_commit:
  assumes "finalize env st b = (Inr (), st2, b2)"
  shows "\<exists>st' b'. commit_state env st' b' = (Inr (), st2, b2)"
  using assms unfolding finalize_def
  by (auto split: prod.splits sum.splits)

text \<open>
  Claim C2. A second \<open>commit_state\<close> right after a successful one returns with the store
  and the block exactly as the first left them, so the state root and the caches are those
  of a single call. A successful commit of a plain block with a non-empty journal ends with
  the four caches empty and the journal empty; \<open>commit_state\<close> on an empty journal changes
  nothing; and after a successful \<open>finalize\<close> any number of successive \<open>commit_state\<close>
  calls change nothing.
\<close>

theorem commit_state_idempotent:
  "(commit_state env st b = (Inr (), st1, b1) \<longrightarrow>
      commit_state env st1 b1 = (Inr (), st1, b1)) \<and>
   (cls b = BlockC \<and> journals st (journal b) \<noteq> [] \<and>
    commit_state env st b = (Inr (), st1, b1) \<longrightarrow>
      caches b1 = [''all'' \<mapsto> Map.empty, ''balance'' \<mapsto> Map.empty,
                   ''nonce'' \<mapsto> Map.empty, ''code'' \<mapsto> Map.empty] \<and>
      journals st1 (journal b1) = []) \<and>
   (journals st (journal b) = [] \<longrightarrow> commit_state env st b = (Inr (), st, b)) \<and>
   (finalize env st b = (Inr (), st2, b2) \<longrightarrow>
      repeat_commit env n st2 b2 = (Inr (), st2, b2))"
proof (intro conjI impI)
  assume "commit_state env st b = (Inr (), st1, b1)"
  then show "commit_state env st1 b1 = (Inr (), st1, b1)" by (rule commit_state_twice)
next
  assume a: "cls b = BlockC \<and> journals st (journal b) \<noteq> [] \<and>
    commit_state env st b = (Inr (), st1, b1)"
  then have c: "Block_commit_state env st b = (Inr (), st1, b1)"
    by (auto simp: commit_state_def)
  from Block_commit_state_post(3) [OF c] a
  show "caches b1 = [''all'' \<mapsto> Map.empty, ''balance'' \<mapsto> Map.empty,
                   ''nonce'' \<mapsto> Map.empty, ''code'' \<mapsto> Map.empty]" by simp
  from Block_commit_state_post(1) [OF c] show "journals st1 (journal b1) = []" .
next
  assume "journals st (journal b) = []"
  then show "commit_state env st b = (Inr (), st, b)" by (simp add: commit_state_noop)
next
  assume "finalize env st b = (Inr (), st2, b2)"
  from finalize_ends_in_commit [OF this] obtain st' b'
    where "commit_state env st' b' = (Inr (), st2, b2)" by blast
  then have "commit_state env st2 b2 = (Inr (), st2, b2)" by (rule commit_state_twice)
  then show "repeat_commit env n st2 b2 = (Inr (), st2, b2)" by (rule repeat_commit_noop)
qed

lemma demo_commit_ok: "fst (commit_state demo_env (fst demo_funded) (snd demo_funded)) = Inr ()"
  by code_simp

lemma demo_finalize_ok: "fst (finalize demo_env demo_store demo_block) = Inr ()"
  by code_simp

theorem commit_state_idempotent_witness:
  "fst (commit_state demo_env (fst demo_funded) (snd demo_funded)) = Inr () \<and>
   cls (snd demo_funded) = BlockC \<and>
   journals (fst demo_funded) (journal (snd demo_funded)) \<noteq> [] \<and>
   fst (repeat_commit demo_env 2 (fst demo_funded) (snd demo_funded)) = Inr () \<and>
   snd (repeat_commit demo_env 2 (fst demo_funded) (snd demo_funded))
     = snd (commit_state demo_env (fst demo_funded) (snd demo_funded)) \<and>
   journals demo_store (journal demo_block) = [] \<and>
   commit_state demo_env demo_store demo_block = (Inr (), demo_store, demo_block) \<and>
   fst (finalize demo_env demo_store demo_block) = Inr () \<and>
   (case snd (finalize demo_env demo_store demo_block) of
      (st2, b2) \<Rightarrow> repeat_commit demo_env 3 st2 b2 = (Inr (), st2, b2))"
proof -
  obtain st1 b1 where
    c: "commit_state demo_env (fst demo_funded) (snd demo_funded) = (Inr (), st1, b1)"
    using demo_commit_ok by (metis prod.collapse)
  obtain st2 b2 where f: "finalize demo_env demo_store demo_block = (Inr (), st2, b2)"
    using demo_finalize_ok by (metis prod.collapse)
  have k: "cls (snd demo_funded) = BlockC" by code_simp
  have j: "journals (fst demo_funded) (journal (snd demo_funded)) \<noteq> []" by code_simp
  have e: "journals demo_store (journal demo_block) = []" by code_simp
  from commit_state_idempotent [of demo_env "fst demo_funded" "snd demo_funded" st1 b1] c
  have 1: "commit_state demo_env st1 b1 = (Inr (), st1, b1)" by blast
  from commit_state_idempotent [of demo_env demo_store demo_block] e
  have 3: "commit_state demo_env demo_store demo_block = (Inr (), demo_store, demo_block)"
    by blast
  from commit_state_idempotent [of demo_env demo_store demo_block _ _ st2 b2 3] f
  have 4: "repeat_commit demo_env 3 st2 b2 = (Inr (), st2, b2)" by blast
  have r: "repeat_commit demo_env 2 (fst demo_funded) (snd demo_funded) = (Inr (), st1, b1)"
    using c 1 by (simp add: numeral_2_eq_2)
  show ?thesis using c f k j e 3 4 r by simp
qed

subsection \<open>The revert loops\<close>

declare revert_journal.simps [simp del]
declare undo.simps [simp del]
declare pop_suicides.simps [simp del]

lemma undo_done: "length jl \<le> n \<Longrightarrow> undo n jl cs = (Inr (), jl, cs)"
  by (subst undo.simps) simp

lemma undo_snoc:
  assumes "n \<le> length jl" and "cs c = Some d"
  shows "undo n (jl @ [(c, i, d i, v)]) (cs(c \<mapsto> d(i \<mapsto> v))) = undo n jl cs"
proof (cases "d i")
  case None
  then have "(d(i \<mapsto> v))(i := None) = d" by (simp add: fun_upd_idem)
  moreover have "cs(c \<mapsto> d) = cs" using assms(2) by (simp add: map_upd_triv)
  ultimately show ?thesis
    using assms None by (subst undo.simps) simp
next
  case (Some p)
  then have "d(i \<mapsto> p) = d" by (simp add: map_upd_triv)
  moreover have "cs(c \<mapsto> d) = cs" using assms(2) by (simp add: map_upd_triv)
  ultimately show ?thesis
    using assms Some by (subst undo.simps) simp
qed

lemma undo_new_cache:
  "undo n jl cs = (Inr (), jl', cs') \<Longrightarrow> cs name = None \<Longrightarrow>
   undo n jl (cs(name \<mapsto> m)) = (Inr (), jl', cs'(name \<mapsto> m)) \<and> cs' name = None"
proof (induction n jl cs rule: undo.induct)
  case (1 n jl cs)
  let ?c = "fst (last jl)"
  let ?i = "fst (snd (last jl))"
  show ?case
  proof (cases "n < length jl")
    case False
    with "1.prems" show ?thesis
      by (simp add: undo_done)
  next
    case True
    from True "1.prems"(1) obtain d where d: "cs ?c = Some d"
      by (subst (asm) undo.simps) (auto simp: Let_def split: option.splits)
    with "1.prems"(2) have ne: "?c \<noteq> name" by auto
    show ?thesis
    proof (cases "fst (snd (snd (last jl)))")
      case (Some p)
      let ?cs1 = "cs(?c \<mapsto> d(?i \<mapsto> p))"
      from True d Some "1.prems"(1)
      have u: "undo n (butlast jl) ?cs1 = (Inr (), jl', cs')"
        by (subst (asm) undo.simps) (simp add: Let_def)
      have nn: "?cs1 name = None" using ne "1.prems"(2) by simp
      have ih: "undo n (butlast jl) (?cs1(name \<mapsto> m)) = (Inr (), jl', cs'(name \<mapsto> m))
            \<and> cs' name = None"
        by (rule "1.IH"(2) [OF True refl d Some u nn])
      have tw: "?cs1(name \<mapsto> m) = (cs(name \<mapsto> m))(?c \<mapsto> d(?i \<mapsto> p))"
        using ne by (simp add: fun_upd_twist)
      have "undo n jl (cs(name \<mapsto> m)) = undo n (butlast jl) ((cs(name \<mapsto> m))(?c \<mapsto> d(?i \<mapsto> p)))"
        using True d Some ne by (subst undo.simps) (simp add: Let_def)
      then have "undo n jl (cs(name \<mapsto> m)) = undo n (butlast jl) (?cs1(name \<mapsto> m))"
        by (simp only: tw)
      with ih show ?thesis by (simp only:)
    next
      case None
      from True d None "1.prems"(1) have di: "d ?i \<noteq> None"
        by (subst (asm) undo.simps) (auto simp: Let_def split: if_splits)
      let ?cs1 = "cs(?c \<mapsto> d(?i := None))"
      from True d None di "1.prems"(1)
      have u: "undo n (butlast jl) ?cs1 = (Inr (), jl', cs')"
        by (subst (asm) undo.simps) (auto simp: Let_def)
      have nn: "?cs1 name = None" using ne "1.prems"(2) by simp
      have ih: "undo n (butlast jl) (?cs1(name \<mapsto> m)) = (Inr (), jl', cs'(name \<mapsto> m))
            \<and> cs' name = None"
        by (rule "1.IH"(1) [OF True refl d None di u nn])
      have tw: "?cs1(name \<mapsto> m) = (cs(name \<mapsto> m))(?c \<mapsto> d(?i := None))"
        using ne by (simp add: fun_upd_twist)
      have "undo n jl (cs(name \<mapsto> m)) = undo n (butlast jl) ((cs(name \<mapsto> m))(?c \<mapsto> d(?i := None)))"
        using True d None ne di by (subst undo.simps) (auto simp: Let_def)
      then have "undo n jl (cs(name \<mapsto> m)) = undo n (butlast jl) (?cs1(name \<mapsto> m))"
        by (simp only: tw)
      with ih show ?thesis by (simp only:)
    qed
  qed
qed

lemma revert_journal_undo:
  "revert_journal n st b =
     (case undo n (journals st (journal b)) (caches b) of
        (r, jl', cs') \<Rightarrow>
          (r, st\<lparr>journals := (journals st)(journal b := jl')\<rparr>, b\<lparr>caches := cs'\<rparr>))"
proof (induction n st b rule: revert_journal.induct)
  case (1 n st b)
  let ?jl = "journals st (journal b)"
  let ?c = "fst (last ?jl)"
  let ?i = "fst (snd (last ?jl))"
  let ?st1 = "st\<lparr>journals := (journals st)(journal b := butlast ?jl)\<rparr>"
  show ?case
  proof (cases "n < length ?jl")
    case False
    then show ?thesis
      by (subst revert_journal.simps, subst undo.simps) simp
  next
    case True
    show ?thesis
    proof (cases "caches b ?c")
      case None
      with True show ?thesis
        by (subst revert_journal.simps, subst undo.simps) (simp add: Let_def)
    next
      case (Some d)
      show ?thesis
      proof (cases "fst (snd (snd (last ?jl)))")
        case p: (Some p)
        let ?b1 = "b\<lparr>caches := (caches b)(?c \<mapsto> d(?i \<mapsto> p))\<rparr>"
        have ih: "revert_journal n ?st1 ?b1 =
                  (case undo n (journals ?st1 (journal ?b1)) (caches ?b1) of
                     (r, jl', cs') \<Rightarrow>
                       (r, ?st1\<lparr>journals := (journals ?st1)(journal ?b1 := jl')\<rparr>,
                        ?b1\<lparr>caches := cs'\<rparr>))"
          by (rule "1.IH"(2) [OF True refl refl Some p])
        have l: "revert_journal n st b = revert_journal n ?st1 ?b1"
          using True Some p by (subst revert_journal.simps) (simp add: Let_def)
        have r: "undo n ?jl (caches b) = undo n (butlast ?jl) ((caches b)(?c \<mapsto> d(?i \<mapsto> p)))"
          using True Some p by (subst undo.simps) (simp add: Let_def)
        show ?thesis
          unfolding l ih r by (simp add: fun_eq_iff split: prod.splits)
      next
        case n: None
        show ?thesis
        proof (cases "d ?i")
          case None
          with True Some n show ?thesis
            by (subst revert_journal.simps, subst undo.simps) (simp add: Let_def)
        next
          case di: (Some x)
          then have dn: "d ?i \<noteq> None" by simp
          let ?b1 = "b\<lparr>caches := (caches b)(?c \<mapsto> d(?i := None))\<rparr>"
          have ih: "revert_journal n ?st1 ?b1 =
                    (case undo n (journals ?st1 (journal ?b1)) (caches ?b1) of
                       (r, jl', cs') \<Rightarrow>
                         (r, ?st1\<lparr>journals := (journals ?st1)(journal ?b1 := jl')\<rparr>,
                          ?b1\<lparr>caches := cs'\<rparr>))"
            by (rule "1.IH"(1) [OF True refl refl Some n dn])
          have l: "revert_journal n st b = revert_journal n ?st1 ?b1"
            using True Some n di by (subst revert_journal.simps) (simp add: Let_def)
          have r: "undo n ?jl (caches b) = undo n (butlast ?jl) ((caches b)(?c \<mapsto> d(?i := None)))"
            using True Some n di by (subst undo.simps) (simp add: Let_def)
          show ?thesis
            unfolding l ih r by (simp add: fun_eq_iff split: prod.splits)
        qed
      qed
    qed
  qed
qed

lemma pop_suicides_take:
  "pop_suicides n st r = st\<lparr>addrlists := (addrlists st)(r := take n (addrlists st r))\<rparr>"
proof (induction n st r rule: pop_suicides.induct)
  case (1 n st r)
  show ?case
  proof (cases "n < length (addrlists st r)")
    case True
    then have tb: "take n (butlast (addrlists st r)) = take n (addrlists st r)"
      by (simp add: take_butlast)
    let ?st' = "st\<lparr>addrlists := (addrlists st)(r := butlast (addrlists st r))\<rparr>"
    have "pop_suicides n st r = pop_suicides n ?st' r"
      using True by (subst pop_suicides.simps) simp
    also have "\<dots> = ?st'\<lparr>addrlists := (addrlists ?st')(r := take n (addrlists ?st' r))\<rparr>"
      by (rule "1.IH" [OF True])
    also have "\<dots> = st\<lparr>addrlists := (addrlists st)(r := take n (addrlists st r))\<rparr>"
      using tb by simp
    finally show ?thesis .
  next
    case False
    then show ?thesis
      by (subst pop_suicides.simps) simp
  qed
qed

subsection \<open>Snapshot and revert\<close>

lemma cache_ext_refl: "cache_ext cs cs"
  by (simp add: cache_ext_def split: option.splits)

lemma revertible_init: "revertible jl cs jl cs"
  by (simp add: revertible_def undo_done cache_ext_refl)

lemma journalled_refl: "journalled st b st b"
  by (simp add: journalled_def)

lemma journalled_trans:
  "journalled st b st1 b1 \<Longrightarrow> journalled st1 b1 st2 b2 \<Longrightarrow> journalled st b st2 b2"
  unfolding journalled_def
  by (auto intro: hdr_frame_trans)

lemma frames_journalled: "st_frame st st' \<Longrightarrow> blk_frame b b' \<Longrightarrow> journalled st b st' b'"
  unfolding journalled_def st_frame_def blk_frame_def hdr_frame_def
  by simp

lemma revertible_snoc:
  assumes "revertible jl0 cs0 jl cs" and "cs c = Some d"
  shows "revertible jl0 cs0 (jl @ [(c, i, d i, v)]) (cs(c \<mapsto> d(i \<mapsto> v)))"
proof -
  from assms(1) have l: "length jl0 \<le> length jl" by (simp add: revertible_def)
  have "undo (length jl0) (jl @ [(c, i, d i, v)]) (cs(c \<mapsto> d(i \<mapsto> v)))
        = undo (length jl0) jl cs"
    using l assms(2) by (rule undo_snoc [where n = "length jl0" and jl = jl and cs = cs and c = c and d = d])
  with assms(1) show ?thesis
    by (simp only: revertible_def) auto
qed

lemma revertible_new_cache:
  assumes "revertible jl0 cs0 jl cs" and "cs name = None"
  shows "revertible jl0 cs0 jl (cs(name \<mapsto> Map.empty))"
proof -
  from assms(1) obtain cs' where
    l: "length jl0 \<le> length jl" and
    u: "undo (length jl0) jl cs = (Inr (), jl0, cs')" and e: "cache_ext cs0 cs'"
    by (auto simp: revertible_def)
  from undo_new_cache [where cs = cs and name = name and m = Map.empty, OF u assms(2)]
  have u': "undo (length jl0) jl (cs(name \<mapsto> Map.empty)) = (Inr (), jl0, cs'(name \<mapsto> Map.empty))"
    and n: "cs' name = None" by simp_all
  have "cache_ext cs0 (cs'(name \<mapsto> Map.empty))"
    unfolding cache_ext_def
  proof
    fix c
    show "case cs0 c of None \<Rightarrow> (cs'(name \<mapsto> Map.empty)) c = None \<or> (cs'(name \<mapsto> Map.empty)) c = Some Map.empty
          | Some m \<Rightarrow> (cs'(name \<mapsto> Map.empty)) c = Some m"
      using e n by (cases "c = name") (auto simp: cache_ext_def split: option.splits dest: spec [of _ c])
  qed
  with l u' show ?thesis unfolding revertible_def by blast
qed

lemma set_and_journal_journalled:
  assumes "set_and_journal st b c i v = (r, st', b')"
  shows "journalled st b st' b'"
proof (cases "caches b c")
  case None
  with assms show ?thesis by (simp add: set_and_journal_def journalled_refl)
next
  case (Some d)
  show ?thesis
  proof (cases "case d i of None \<Rightarrow> True | Some p \<Rightarrow> \<not> py_eq p v")
    case False
    with assms Some show ?thesis
      by (auto simp: set_and_journal_ok journalled_refl)
  next
    case True
    with assms Some have
      st': "st' = st\<lparr>journals := (journals st)
                     (journal b := journals st (journal b) @ [(c, i, d i, v)])\<rparr>"
      and b': "b' = b\<lparr>caches := (caches b)(c \<mapsto> d(i \<mapsto> v))\<rparr>"
      by (auto simp: set_and_journal_ok)
    have "revertible jl0 cs0 (journals st (journal b) @ [(c, i, d i, v)])
            ((caches b)(c \<mapsto> d(i \<mapsto> v)))"
      if "revertible jl0 cs0 (journals st (journal b)) (caches b)" for jl0 cs0
      using that Some
      by (rule revertible_snoc [where cs = "caches b" and c = c and d = d])
    then show ?thesis
      unfolding journalled_def
      by (simp add: st' b' hdr_frame_def)
  qed
qed

lemma Block_set_acct_item_journalled:
  "Block_set_acct_item st b a p v = (r, st', b') \<Longrightarrow> journalled st b st' b'"
  unfolding Block_set_acct_item_def
  by (auto split: prod.splits sum.splits
      dest!: set_and_journal_journalled intro: journalled_trans)

lemma set_acct_item_journalled:
  "set_acct_item st b a p v = (r, st', b') \<Longrightarrow> journalled st b st' b'"
  unfolding set_acct_item_def CachedBlock_set_acct_item_def
  by (auto split: block_class.splits dest!: Block_set_acct_item_journalled
      simp: journalled_refl)

lemma new_cache_journalled:
  assumes "caches b name = None"
  shows "journalled st b st (b\<lparr>caches := (caches b)(name \<mapsto> Map.empty)\<rparr>)"
proof -
  have "revertible jl0 cs0 (journals st (journal b)) ((caches b)(name \<mapsto> Map.empty))"
    if "revertible jl0 cs0 (journals st (journal b)) (caches b)" for jl0 cs0
    using that assms by (rule revertible_new_cache [where cs = "caches b" and name = name])
  then show ?thesis
    unfolding journalled_def by (simp add: hdr_frame_def)
qed

lemma set_storage_data_journalled:
  assumes "set_storage_data st b a i v = (r, st', b')"
  shows "journalled st b st' b'"
proof (cases "caches b (''storage:'' @ a) = None")
  case True
  from new_cache_journalled [OF True, of st]
  have j0: "journalled st b st (b\<lparr>caches := (caches b)(''storage:'' @ a \<mapsto> Map.empty)\<rparr>)" .
  let ?b1 = "b\<lparr>caches := (caches b)(''storage:'' @ a \<mapsto> Map.empty)\<rparr>"
  obtain r1 st1 b1 where s1: "set_and_journal st ?b1 ''all'' (KStr a) (PBool True) = (r1, st1, b1)"
    by (metis prod_cases3)
  from set_and_journal_journalled [OF s1] j0 have j1: "journalled st b st1 b1"
    by (rule journalled_trans [rotated])
  show ?thesis
  proof (cases r1)
    case (Inl e)
    with assms True s1 have "st' = st1" "b' = b1"
      by (simp_all add: set_storage_data_def Let_def)
    with j1 show ?thesis by simp
  next
    case (Inr u)
    with assms True s1
    have "set_and_journal st1 b1 (''storage:'' @ a) i v = (r, st', b')"
      by (simp add: set_storage_data_def Let_def)
    from j1 set_and_journal_journalled [OF this] show ?thesis
      by (rule journalled_trans)
  qed
next
  case False
  with assms show ?thesis
    unfolding set_storage_data_def
    by (auto dest!: set_and_journal_journalled)
qed

lemma delta_item_journalled:
  assumes "delta_item env st b a p d = (r, st', b')"
  shows "journalled st b st' b'"
  using assms unfolding delta_item_def
  by (auto split: prod.splits sum.splits if_splits
      dest!: get_acct_item_frame set_acct_item_journalled
      intro: frames_journalled journalled_trans)

lemma mut_inv_journalled:
  assumes "mut_inv st0 b0 rs st b" and "journalled st b st' b'"
  shows "mut_inv st0 b0 rs st' b'"
  using assms unfolding mut_inv_def journalled_def hdr_frame_def
  by auto


lemma apply_mutation_inv:
  assumes inv: "mut_inv st0 b0 rs st b" and ap: "apply_mutation env st b m = (Inr (), st', b')"
  shows "mut_inv st0 b0 rs st' b'"
proof (cases m)
  case (SetAndJournal c i v)
  with ap have "set_and_journal st b c i v = (Inr (), st', b')" by simp
  from mut_inv_journalled [OF inv set_and_journal_journalled [OF this]] show ?thesis .
next
  case (SetAcctItem a p v)
  with ap have "set_acct_item st b a p v = (Inr (), st', b')" by simp
  from mut_inv_journalled [OF inv set_acct_item_journalled [OF this]] show ?thesis .
next
  case (SetStorageData a i v)
  with ap have "set_storage_data st b a i v = (Inr (), st', b')" by simp
  from mut_inv_journalled [OF inv set_storage_data_journalled [OF this]] show ?thesis .
next
  case (DeltaItem a p d)
  with ap obtain r where "delta_item env st b a p d = (r, st', b')"
    by (auto simp: forget_result_def split: prod.splits sum.splits)
  from mut_inv_journalled [OF inv delta_item_journalled [OF this]] show ?thesis .
next
  case (SuicidesAppend x)
  with ap inv show ?thesis
    by (auto simp: mut_inv_def)
next
  case (SetGasUsed g)
  with ap inv show ?thesis
    by (auto simp: mut_inv_def)
next
  case (AddTransaction tx sr gu)
  from inv have "cls b = BlockC" by (simp add: mut_inv_def)
  with ap AddTransaction
  have "Block_add_transaction_to_list env st b tx sr gu = (Inr (), st', b')"
    by (simp add: add_transaction_to_list'_def)
  then obtain st1 where "st_frame st st1" "st' = st1"
    "b' = b\<lparr>transaction_count := transaction_count b + 1\<rparr>"
    unfolding Block_add_transaction_to_list_def
    by (auto simp: Let_def split: rlp.splits sum.splits prod.splits dest!: on_trie_frame)
  with inv show ?thesis
    by (auto simp: mut_inv_def st_frame_def)
next
  case (PostqueueAppend x)
  with ap inv show ?thesis
    by (auto simp: mut_inv_def)
next
  case PostqueuePop
  with ap inv show ?thesis
    by (auto simp: mut_inv_def split: if_splits)
next
  case (PostqueueAssign xs)
  with ap inv show ?thesis
    by (auto simp: mut_inv_def new_msglist_def Let_def)
qed

lemma run_mutations_inv:
  "mut_inv st0 b0 rs st b \<Longrightarrow> run_mutations env st b ms = (Inr (), st', b') \<Longrightarrow>
   mut_inv st0 b0 rs st' b'"
proof (induction ms arbitrary: st b)
  case Nil
  then show ?case by simp
next
  case (Cons m ms)
  from Cons.prems(2) obtain st1 b1 where
    a: "apply_mutation env st b m = (Inr (), st1, b1)" and
    r: "run_mutations env st1 b1 ms = (Inr (), st', b')"
    by (auto split: prod.splits sum.splits)
  from Cons.IH [OF apply_mutation_inv [OF Cons.prems(1) a] r] show ?case .
qed

text \<open>
  What \<open>revert\<close> restores. Take a snapshot \<open>s\<close> of a plain block and perform any sequence
  of journalled cache writes, suicide appends, \<open>gas_used\<close> changes, transaction appends and
  post-queue changes. Then \<open>revert(s)\<close> returns normally, and afterwards every cache that
  existed at the snapshot has its snapshot contents, the journal is the journal object of the
  snapshot with its snapshot entries, the suicides list is the same object cut back to its
  snapshot entries, and the root of the state trie, \<open>gas_used\<close>, the transactions trie
  handle, the transaction count and the contents of the post-queue are those of the
  snapshot. A cache that did not exist at the snapshot is absent or empty afterwards: it is
  not always absent.
\<close>

lemma revert_restores_existing:
  assumes "cls b = BlockC" and "postqueue b < next_ref st"
    and "snapshot st b = (s, st0)"
    and "run_mutations env st0 b ms = (Inr (), st1, b1)"
  shows "\<exists>st2 b2. revert st1 b1 s = (Inr (), st2, b2) \<and>
     (\<forall>c m. caches b c = Some m \<longrightarrow> caches b2 c = Some m) \<and>
     (\<forall>c. caches b c = None \<longrightarrow> caches b2 c = None \<or> caches b2 c = Some Map.empty) \<and>
     journal b2 = journal b \<and> journals st2 (journal b) = journals st (journal b) \<and>
     suicides b2 = suicides b \<and> addrlists st2 (suicides b) = addrlists st (suicides b) \<and>
     state b2 = state b \<and> t_root_hash (tries st2 (state b)) = t_root_hash (tries st (state b)) \<and>
     gas_used b2 = gas_used b \<and>
     transactions b2 = transactions b \<and> transaction_count b2 = transaction_count b \<and>
     msglists st2 (postqueue b2) = msglists st (postqueue b)"
proof -
  let ?rs = "next_ref st"
  from assms(3) have s: "s = \<lparr>s_state = t_root_hash (tries st (state b)),
            s_gas = gas_used b, s_txs = transactions b, s_txcount = transaction_count b,
            s_postqueue = ?rs, s_suicides = suicides b,
            s_suicides_size = length (addrlists st (suicides b)),
            s_journal = journal b,
            s_journal_size = length (journals st (journal b))\<rparr>"
    and st0: "st0 = st\<lparr>msglists := (msglists st)(?rs := msglists st (postqueue b)),
                       next_ref := Suc ?rs\<rparr>"
    by (auto simp: snapshot_def new_msglist_def Let_def)
  have "mut_inv st0 b ?rs st0 b"
    using assms(1,2) by (simp add: mut_inv_def revertible_init st0)
  from run_mutations_inv [OF this assms(4)] have inv: "mut_inv st0 b ?rs st1 b1" .
  from inv have k: "cls b1 = BlockC" and j: "journal b1 = journal b"
    and su: "suicides b1 = suicides b" and sb: "state b1 = state b" and pq: "msglists st1 ?rs = msglists st (postqueue b)"
    by (simp_all add: mut_inv_def st0)
  from inv obtain xs where xs: "addrlists st1 (suicides b) = addrlists st (suicides b) @ xs"
    by (auto simp: mut_inv_def st0)
  from inv obtain cs' where
    u: "undo (length (journals st (journal b))) (journals st1 (journal b)) (caches b1)
          = (Inr (), journals st (journal b), cs')"
    and e: "cache_ext (caches b) cs'"
    by (auto simp: mut_inv_def revertible_def st0)
  have rj: "revert_journal (length (journals st (journal b))) st1 (b1\<lparr>journal := journal b\<rparr>)
        = (Inr (), st1\<lparr>journals := (journals st1)(journal b := journals st (journal b))\<rparr>,
           b1\<lparr>journal := journal b, caches := cs'\<rparr>)"
    by (simp add: revert_journal_undo u)
  have e1: "\<forall>c m. caches b c = Some m \<longrightarrow> cs' c = Some m"
    and e2: "\<forall>c. caches b c = None \<longrightarrow> cs' c = None \<or> cs' c = Some Map.empty"
  proof -
    show "\<forall>c m. caches b c = Some m \<longrightarrow> cs' c = Some m"
    proof (intro allI impI)
      fix c m assume "caches b c = Some m"
      with e [unfolded cache_ext_def, THEN spec, of c] show "cs' c = Some m" by simp
    qed
    show "\<forall>c. caches b c = None \<longrightarrow> cs' c = None \<or> cs' c = Some Map.empty"
    proof (intro allI impI)
      fix c assume "caches b c = None"
      with e [unfolded cache_ext_def, THEN spec, of c]
      show "cs' c = None \<or> cs' c = Some Map.empty" by simp
    qed
  qed
  show ?thesis
    using k e1 e2 xs pq sb
    by (simp add: revert_def Block_revert_def s rj pop_suicides_take Let_def)
qed


lemma demo_mutated_ok: "fst demo_mutated = Inr ()"
  by code_simp

lemma demo_mutated_changes:
  "gas_used (snd (snd demo_mutated)) = 21000 \<and>
   transaction_count (snd (snd demo_mutated)) = 1 \<and>
   length (journals (fst (snd demo_mutated)) (journal (snd (snd demo_mutated)))) = 11"
  by code_simp

lemma revert_restores_existing_demo:
  "cls (snd demo_funded) = BlockC \<and>
   postqueue (snd demo_funded) < next_ref (fst demo_funded) \<and>
   fst demo_mutated = Inr () \<and>
   gas_used (snd (snd demo_mutated)) = 21000 \<and>
   fst demo_reverted = Inr () \<and>
   caches (snd (snd demo_reverted)) ''balance'' = Some [KStr ''aa'' \<mapsto> PInt 10] \<and>
   journals (fst (snd demo_reverted)) (journal (snd demo_funded))
     = journals (fst demo_funded) (journal (snd demo_funded)) \<and>
   gas_used (snd (snd demo_reverted)) = 0 \<and>
   transaction_count (snd (snd demo_reverted)) = 0"
proof -
  have h1: "cls (snd demo_funded) = BlockC" by code_simp
  have h2: "postqueue (snd demo_funded) < next_ref (fst demo_funded)" by code_simp
  have sn: "snapshot (fst demo_funded) (snd demo_funded) = (fst demo_snap, snd demo_snap)"
    by (simp add: demo_snap_def)
  obtain st1 b1 where
    r: "run_mutations demo_env (snd demo_snap) (snd demo_funded) demo_mutations = (Inr (), st1, b1)"
    using demo_mutated_ok unfolding demo_mutated_def by (metis prod.collapse)
  have c0: "caches (snd demo_funded) ''balance'' = Some [KStr ''aa'' \<mapsto> PInt 10]"
    by (simp add: demo_funded_def set_balance_def set_acct_item_def Block_set_acct_item_def
        set_and_journal_def demo_block_def Let_def)
  have g0: "gas_used (snd demo_funded) = 0" "transaction_count (snd demo_funded) = 0"
    by code_simp+
  from revert_restores_existing [OF h1 h2 sn r] obtain st2 b2 where
    rv: "revert st1 b1 (fst demo_snap) = (Inr (), st2, b2)"
    and c: "\<forall>c m. caches (snd demo_funded) c = Some m \<longrightarrow> caches b2 c = Some m"
    and j: "journals st2 (journal (snd demo_funded))
            = journals (fst demo_funded) (journal (snd demo_funded))"
    and g: "gas_used b2 = gas_used (snd demo_funded)"
    and t: "transaction_count b2 = transaction_count (snd demo_funded)"
    by blast
  from r rv have d: "demo_reverted = (Inr (), st2, b2)"
    by (simp add: demo_reverted_def demo_mutated_def)
  from c c0 have "caches b2 ''balance'' = Some [KStr ''aa'' \<mapsto> PInt 10]" by blast
  with h1 h2 demo_mutated_ok demo_mutated_changes j g t g0 show ?thesis
    by (simp add: d)
qed

text \<open>
  Claim C1 fails on the code. \<open>set_storage_data\<close> creates the cache \<open>storage:<address>\<close>
  with no journal entry, so \<open>revert\<close> cannot remove it. On the demo block, a snapshot,
  \<open>set_storage_data('aa', 1, 5)\<close> and the revert leave \<open>storage:aa\<close> among the caches,
  where it was absent at the snapshot: the caches are not those of the snapshot. The cache
  left behind loses a later write: the same \<open>set_storage_data\<close> after the revert finds the
  cache, does not enter the address in the dirty set, and \<open>commit_state\<close> leaves the state
  root as it was; the same write and commit with no snapshot and revert before change the
  root.
\<close>

theorem revert_leaves_storage_cache:
  "caches demo_block ''storage:aa'' = None \<and>
   fst demo_sw_written = Inr () \<and>
   fst demo_sw_reverted = Inr () \<and>
   caches (snd (snd demo_sw_reverted)) ''storage:aa'' \<noteq> None \<and>
   caches (snd (snd demo_sw_reverted)) \<noteq> caches demo_block \<and>
   fst demo_sw_rewritten = Inr () \<and>
   fst demo_sw_committed = Inr () \<and>
   state_root_of demo_sw_committed = t_root_hash (tries demo_store (state demo_block)) \<and>
   fst demo_sw_direct = Inr () \<and>
   state_root_of demo_sw_direct \<noteq> t_root_hash (tries demo_store (state demo_block))"
proof -
  have a: "caches demo_block ''storage:aa'' = None"
    by (simp add: demo_block_def)
  have w: "fst demo_sw_written = Inr ()" by code_simp
  have r: "fst demo_sw_reverted = Inr ()" by code_simp
  have "case caches (snd (snd demo_sw_reverted)) ''storage:aa'' of
          None \<Rightarrow> False | Some m \<Rightarrow> True"
    by code_simp
  then have p: "caches (snd (snd demo_sw_reverted)) ''storage:aa'' \<noteq> None"
    by (auto split: option.splits)
  from a p have n: "caches (snd (snd demo_sw_reverted)) \<noteq> caches demo_block"
    by metis
  have w2: "fst demo_sw_rewritten = Inr ()" by code_simp
  have c: "fst demo_sw_committed = Inr ()" by code_simp
  have k: "state_root_of demo_sw_committed = t_root_hash (tries demo_store (state demo_block))"
    by code_simp
  have d: "fst demo_sw_direct = Inr ()" by code_simp
  have l: "state_root_of demo_sw_direct \<noteq> t_root_hash (tries demo_store (state demo_block))"
    by code_simp
  from a w r p n w2 c k d l show ?thesis by blast
qed

subsection \<open>Header attributes are kept\<close>

lemma Block_commit_state_hdr:
  assumes "Block_commit_state env st b = (r, st1, b1)"
  shows "hdr_frame b b1"
  using assms unfolding Block_commit_state_def
  by (auto split: if_splits option.splits prod.splits sum.splits simp: Let_def
      dest!: reset_cache_post(3) commit_accounts_frame blk_frame_hdr
      intro: hdr_frame_trans)

lemma commit_state_hdr:
  "commit_state env st b = (r, st1, b1) \<Longrightarrow> hdr_frame b b1"
  unfolding commit_state_def CachedBlock_commit_state_def
  by (auto split: block_class.splits dest!: Block_commit_state_hdr)

lemma get_state_root_hdr:
  "get_state_root env st b = (r, st1, b1) \<Longrightarrow> hdr_frame b b1"
  unfolding get_state_root_def
  by (auto split: prod.splits sum.splits dest!: commit_state_hdr)

lemma getattr_field_hdr:
  "getattr_field env st b name = (r, st1, b1) \<Longrightarrow> hdr_frame b b1"
  unfolding getattr_field_def
  by (auto split: if_splits prod.splits sum.splits dest!: get_state_root_hdr)

lemma list_header_loop_hdr:
  "list_header_loop env st b ex fs acc = (r, st1, b1) \<Longrightarrow> hdr_frame b b1"
proof (induction fs arbitrary: st b acc)
  case Nil
  then show ?case by simp
next
  case (Cons f fs)
  obtain name ty where f: "f = (name, ty)" by (cases f)
  show ?case
  proof (cases "name \<in> set ex")
    case True
    with Cons f show ?thesis by simp
  next
    case False
    obtain r0 st0 b0 where g: "getattr_field env st b name = (r0, st0, b0)"
      by (metis prod_cases3)
    from getattr_field_hdr [OF g] have h0: "hdr_frame b b0" .
    show ?thesis
    proof (cases r0)
      case (Inl e)
      with Cons.prems f False g h0 show ?thesis by simp
    next
      case (Inr v)
      show ?thesis
      proof (cases "encoders env ty v")
        case (Inl e)
        with Cons.prems f False g h0 Inr show ?thesis by simp
      next
        case x: (Inr x)
        with Cons.prems f False g Inr
        have "list_header_loop env st0 b0 ex fs (acc @ [x]) = (r, st1, b1)" by simp
        from hdr_frame_trans [OF h0 Cons.IH [OF this]] show ?thesis .
      qed
    qed
  qed
qed

lemma list_header_hdr:
  "list_header env st b ex = (r, st1, b1) \<Longrightarrow> hdr_frame b b1"
  unfolding list_header_def by (rule list_header_loop_hdr)

lemma serialize_header_hdr:
  "serialize_header env st b = (r, st1, b1) \<Longrightarrow> hdr_frame b b1"
  unfolding serialize_header_def
  by (auto split: prod.splits sum.splits dest!: list_header_hdr)

lemma Block_hash_hdr:
  "Block_hash env st b = (r, st1, b1) \<Longrightarrow> hdr_frame b b1"
  unfolding Block_hash_def
  by (auto split: prod.splits sum.splits dest!: serialize_header_hdr)

lemma hdr_frame_hash_cached: "hdr_frame b b1 \<Longrightarrow> hdr_frame b (b1\<lparr>hash_cached := x\<rparr>)"
  by (simp add: hdr_frame_def)

lemma CachedBlock_hash_hdr:
  "CachedBlock_hash env st b = (r, st1, b1) \<Longrightarrow> hdr_frame b b1"
  unfolding CachedBlock_hash_def
  by (auto split: if_splits prod.splits sum.splits option.splits
      dest!: Block_hash_hdr intro: hdr_frame_hash_cached)

lemma hash_hdr: "hash env st b = (r, st1, b1) \<Longrightarrow> hdr_frame b b1"
  unfolding hash_def
  by (auto split: block_class.splits dest!: Block_hash_hdr CachedBlock_hash_hdr)

lemma hdr_frameD:
  assumes "hdr_frame b b'"
  shows "difficulty b' = difficulty b" "timestamp b' = timestamp b"
    "gas_limit b' = gas_limit b" "gas_used b' = gas_used b" "cls b' = cls b"
    "number b' = number b"
  using assms by (simp_all add: hdr_frame_def)

subsection \<open>Cached blocks\<close>

text \<open>
  Claim C9, as amended. On a \<open>CachedBlock\<close>, \<open>_set_acct_item\<close>,
  \<open>_add_transaction_to_list\<close>, \<open>set_state_root\<close> and \<open>revert\<close> raise an error
  (TypeError when called with their arguments, \<open>Exception('NotImplemented')\<close> when called
  with none) and leave store and block unchanged; \<open>commit_state\<close> does not raise: it
  returns normally and changes nothing. The hash is memoized: with no stored hash, the read
  computes \<open>sha3\<close> of the serialized header, stores it and returns it, and a read that finds
  a stored non-empty hash returns it and changes nothing, whatever the header holds.
\<close>

theorem CachedBlock_rejects_mutation:
  assumes "cls b = CachedBlockC"
  shows "set_acct_item st b address param v = (Inl TypeError, st, b) \<and>
         add_transaction_to_list' env st b tx sr gu = (Inl TypeError, st, b) \<and>
         set_state_root st b root = (Inl TypeError, st, b) \<and>
         revert st b s = (Inl TypeError, st, b) \<and>
         CachedBlock_set_acct_item st b 0 = (Inl (PyException ''NotImplemented''), st, b) \<and>
         CachedBlock_add_transaction_to_list st b 0 = (Inl (PyException ''NotImplemented''), st, b) \<and>
         CachedBlock_set_state_root st b 0 = (Inl (PyException ''NotImplemented''), st, b) \<and>
         CachedBlock_revert st b 0 = (Inl (PyException ''NotImplemented''), st, b) \<and>
         commit_state env st b = (Inr (), st, b) \<and>
         (hash_cached b = None \<and> serialize_header env st b = (Inr ser, st', b') \<longrightarrow>
            hash env st b = (Inr (sha3 env ser), st', b'\<lparr>hash_cached := Some (sha3 env ser)\<rparr>) \<and>
            (sha3 env ser \<noteq> [] \<longrightarrow>
               hash env st' (b'\<lparr>hash_cached := Some (sha3 env ser)\<rparr>)
                 = (Inr (sha3 env ser), st', b'\<lparr>hash_cached := Some (sha3 env ser)\<rparr>))) \<and>
         (hash_cached b = Some h \<and> h \<noteq> [] \<longrightarrow> hash env st b = (Inr h, st, b))"
proof -
  have later: "hash env stx bx = (Inr hx, stx, bx)"
    if "cls bx = CachedBlockC" "hash_cached bx = Some hx" "hx \<noteq> []" for stx bx hx
    using that by (simp add: hash_def CachedBlock_hash_def)
  have first: "hash env st b = (Inr (sha3 env ser), st', b'\<lparr>hash_cached := Some (sha3 env ser)\<rparr>) \<and>
            (sha3 env ser \<noteq> [] \<longrightarrow>
               hash env st' (b'\<lparr>hash_cached := Some (sha3 env ser)\<rparr>)
                 = (Inr (sha3 env ser), st', b'\<lparr>hash_cached := Some (sha3 env ser)\<rparr>))"
    if h: "hash_cached b = None" "serialize_header env st b = (Inr ser, st', b')"
  proof -
    from serialize_header_hdr [OF h(2)] assms have c1: "cls b' = CachedBlockC"
      by (simp add: hdr_frame_def)
    from h assms
    have "hash env st b = (Inr (sha3 env ser), st', b'\<lparr>hash_cached := Some (sha3 env ser)\<rparr>)"
      by (simp add: hash_def CachedBlock_hash_def Block_hash_def)
    moreover have "hash env st' (b'\<lparr>hash_cached := Some (sha3 env ser)\<rparr>)
                 = (Inr (sha3 env ser), st', b'\<lparr>hash_cached := Some (sha3 env ser)\<rparr>)"
      if "sha3 env ser \<noteq> []"
      using that c1 by (intro later) simp_all
    ultimately show ?thesis by blast
  qed
  show ?thesis
    using assms first later [of b h st]
    by (simp add: set_acct_item_def add_transaction_to_list'_def set_state_root_def
        revert_def commit_state_def CachedBlock_set_acct_item_def
        CachedBlock_add_transaction_to_list_def CachedBlock_set_state_root_def
        CachedBlock_revert_def CachedBlock_commit_state_def)
qed

text \<open>
  The claim as stated fails for \<open>commit_state\<close>: on a cached block it returns normally
  instead of raising.
\<close>

theorem CachedBlock_commit_state_counterexample:
  "cls (create_cached demo_block) = CachedBlockC \<and>
   commit_state demo_env demo_store (create_cached demo_block)
     = (Inr (), demo_store, create_cached demo_block)"
  by (simp add: create_cached_def commit_state_def CachedBlock_commit_state_def)


lemma demo_cached_serialize:
  "fst (serialize_header demo_env demo_store (create_cached demo_block)) =
     Inr demo_serialized_header"
  by code_simp

theorem CachedBlock_rejects_mutation_witness:
  "cls (create_cached demo_block) = CachedBlockC \<and>
   hash_cached (create_cached demo_block) = None \<and>
   set_acct_item demo_store (create_cached demo_block) ''aa'' ''balance'' (PInt 1)
     = (Inl TypeError, demo_store, create_cached demo_block) \<and>
   fst (hash demo_env demo_store (create_cached demo_block)) = Inr (replicate 32 (CHR 0x00)) \<and>
   cls demo_cached_hashed = CachedBlockC \<and>
   hash_cached demo_cached_hashed = Some ''stored'' \<and> ''stored'' \<noteq> [] \<and>
   hash demo_env demo_store demo_cached_hashed = (Inr ''stored'', demo_store, demo_cached_hashed)"
proof -
  have c: "cls (create_cached demo_block) = CachedBlockC" by (simp add: create_cached_def)
  have n: "hash_cached (create_cached demo_block) = None"
    by (simp add: create_cached_def demo_block_def)
  obtain st1 b1 where
    ser: "serialize_header demo_env demo_store (create_cached demo_block) =
       (Inr demo_serialized_header, st1, b1)"
    using demo_cached_serialize by (metis prod.collapse)
  have d: "sha3 demo_env demo_serialized_header
           = replicate 32 (CHR 0x00)"
    by code_simp
  from CachedBlock_rejects_mutation [OF c, where st = demo_store and address = "''aa''"
      and param = "''balance''" and v = "PInt 1"]
  have 1: "set_acct_item demo_store (create_cached demo_block) ''aa'' ''balance'' (PInt 1)
     = (Inl TypeError, demo_store, create_cached demo_block)" by blast
  from CachedBlock_rejects_mutation [OF c, where st = demo_store and env = demo_env
      and st' = st1 and b' = b1 and ser = demo_serialized_header] n ser
  have "hash demo_env demo_store (create_cached demo_block) =
        (Inr (sha3 demo_env demo_serialized_header), st1,
         b1\<lparr>hash_cached := Some (sha3 demo_env demo_serialized_header)\<rparr>)"
    by blast
  then have 2: "fst (hash demo_env demo_store (create_cached demo_block)) = Inr (replicate 32 (CHR 0x00))"
    by (simp only: d fst_conv)
  have c': "cls demo_cached_hashed = CachedBlockC"
    by (simp add: demo_cached_hashed_def create_cached_def)
  have h': "hash_cached demo_cached_hashed = Some ''stored''"
    by (simp add: demo_cached_hashed_def)
  have "''stored'' \<noteq> []" by simp
  with CachedBlock_rejects_mutation [OF c', where st = demo_store and env = demo_env
      and h = "''stored''"] h'
  have 3: "hash demo_env demo_store demo_cached_hashed = (Inr ''stored'', demo_store, demo_cached_hashed)"
    by blast
  show ?thesis using c n 1 2 c' h' 3 by simp
qed

subsection \<open>Construction from a parent\<close>

lemma add_transactions_attrs:
  "add_transactions env st b txs = (r, st', b') \<Longrightarrow>
   difficulty b' = difficulty b \<and> gas_limit b' = gas_limit b"
proof (induction txs arbitrary: st b)
  case Nil
  then show ?case by simp
next
  case (Cons t txs)
  obtain tx sr gu where t: "t = (tx, sr, gu)" by (cases t)
  obtain r0 st0 b0 where a: "add_transaction_to_list' env st b tx sr gu = (r0, st0, b0)"
    by (metis prod_cases3)
  then have k: "difficulty b0 = difficulty b \<and> gas_limit b0 = gas_limit b"
    by (auto simp: add_transaction_to_list'_def Block_add_transaction_to_list_def
        CachedBlock_add_transaction_to_list_def Let_def
        split: block_class.splits rlp.splits sum.splits prod.splits)
  show ?case
  proof (cases r0)
    case (Inl e)
    with Cons.prems t a k show ?thesis by simp
  next
    case (Inr u)
    with Cons.prems t a have "add_transactions env st0 b0 txs = (r, st', b')" by simp
    from Cons.IH [OF this] k show ?thesis by simp
  qed
qed

lemma check_codecs_hdr:
  "check_codecs env st b fs = (r, st1, b1) \<Longrightarrow> hdr_frame b b1"
proof (induction fs arbitrary: st b)
  case Nil
  then show ?case by simp
next
  case (Cons f fs)
  obtain name ty where f: "f = (name, ty)" by (cases f)
  obtain r0 st0 b0 where g: "getattr_field env st b name = (r0, st0, b0)"
    by (metis prod_cases3)
  from getattr_field_hdr [OF g] have h0: "hdr_frame b b0" .
  show ?case
  proof (cases "\<exists>v x v'. r0 = Inr v \<and> encoders env ty v = Inr x \<and> decoders env ty x = Inr v' \<and> py_eq v' v")
    case True
    with Cons.prems f g have "check_codecs env st0 b0 fs = (r, st1, b1)" by auto
    from hdr_frame_trans [OF h0 Cons.IH [OF this]] show ?thesis .
  next
    case False
    with Cons.prems f g have "b1 = b0"
      by (auto split: sum.splits if_splits)
    with h0 show ?thesis by simp
  qed
qed

lemma init_pow_check_hdr:
  "init_pow_check env st b header = (r, st1, b1) \<Longrightarrow> hdr_frame b b1"
  unfolding init_pow_check_def
  by (auto split: if_splits option.splits prod.splits sum.splits dest!: list_header_hdr)


lemma Block_init_attrs:
  assumes "Block_init env st args = (Inr b, st')"
  shows "difficulty b = a_difficulty args \<and> gas_limit b = a_gas_limit args"
proof -
  let ?P = "\<lambda>x. difficulty x = a_difficulty args \<and> gas_limit x = a_gas_limit args"
  have t: "?P b1"
    if "add_transactions env stx b0 txs = (r, sty, b1)" "?P b0" for stx b0 txs r sty b1
    using add_transactions_attrs [OF that(1)] that(2) by simp
  have c: "?P b2"
    if "check_codecs env stx b1 fs = (r, sty, b2)" "?P b1" for stx b1 fs r sty b2
    using check_codecs_hdr [OF that(1)] that(2) by (simp add: hdr_frame_def)
  have p: "?P b3"
    if "init_pow_check env stx b2 h = (r, sty, b3)" "?P b2" for stx b2 h r sty b3
    using init_pow_check_hdr [OF that(1)] that(2) by (simp add: hdr_frame_def)
  from assms show ?thesis
    unfolding Block_init_def
    by (auto simp: Let_def split: prod.splits sum.splits if_splits
        dest!: t c p)
qed

lemma init_from_parent_attrs:
  assumes "init_from_parent env st parent cb ed ts us = (Inr child, st', parent')"
  shows "difficulty child = calc_difficulty parent ts \<and>
         gas_limit child = calc_gaslimit parent"
proof -
  obtain r0 st1 p1 where h: "hash env st parent = (r0, st1, p1)" by (metis prod_cases3)
  from assms h obtain h0 where r0: "r0 = Inr h0"
    by (cases r0) (auto simp: init_from_parent_def)
  let ?args = "\<lparr>a_prevhash = h0,
                   a_uncles_hash = sha3 env (encode_uncles env us),
                   a_coinbase = cb,
                   a_state_root = t_root_hash (tries st1 (state p1)),
                   a_tx_list_root = BLANK_ROOT env,
                   a_difficulty = calc_difficulty p1 ts,
                   a_number = number p1 + 1,
                   a_min_gas_price = 0,
                   a_gas_limit = calc_gaslimit p1,
                   a_gas_used = 0,
                   a_timestamp = ts,
                   a_extra_data = ed,
                   a_nonce = [],
                   a_transaction_list = [],
                   a_uncles = us,
                   a_header = None\<rparr>"
  from assms h r0 have i: "Block_init env st1 ?args = (Inr child, st')"
    by (auto simp: init_from_parent_def split: prod.splits)
  from hash_hdr [OF h] have e: "calc_difficulty p1 ts = calc_difficulty parent ts"
    "calc_gaslimit p1 = calc_gaslimit parent"
    by (simp_all add: hdr_frame_def calc_difficulty_def calc_gaslimit_def)
  from Block_init_attrs [OF i] e show ?thesis by simp
qed

text \<open>
  Claim C4. The difficulty computed by \<open>calc_difficulty\<close>, which is the difficulty of the
  child that \<open>init_from_parent\<close> returns, is \<open>parent.difficulty + sign * (parent.difficulty
  div 1024)\<close> with sign \<open>+1\<close> if \<open>timestamp - parent.timestamp < 5\<close> and \<open>-1\<close> otherwise;
  a parent with difficulty 131072 and timestamp 1000 gives 131200 at timestamp 1004 and
  130944 at timestamp 1010.
\<close>

theorem init_from_parent_difficulty:
  "calc_difficulty parent ts =
     difficulty parent
     + (if ts - timestamp parent < 5 then 1 else - 1) * (difficulty parent div 1024) \<and>
   (init_from_parent env st parent cb ed ts us = (Inr child, st', parent') \<longrightarrow>
      difficulty child =
        difficulty parent
        + (if ts - timestamp parent < 5 then 1 else - 1) * (difficulty parent div 1024) \<and>
      (difficulty parent = 131072 \<and> timestamp parent = 1000 \<and> ts = 1004
         \<longrightarrow> difficulty child = 131200) \<and>
      (difficulty parent = 131072 \<and> timestamp parent = 1000 \<and> ts = 1010
         \<longrightarrow> difficulty child = 130944))"
proof -
  have f: "calc_difficulty parent ts =
     difficulty parent
     + (if ts - timestamp parent < 5 then 1 else - 1) * (difficulty parent div 1024)"
    by (simp add: calc_difficulty_def Let_def BLOCK_DIFF_FACTOR_def DIFF_ADJUSTMENT_CUTOFF_def)
  have "difficulty child = calc_difficulty parent ts"
    if "init_from_parent env st parent cb ed ts us = (Inr child, st', parent')"
    using init_from_parent_attrs [OF that] by simp
  with f show ?thesis by auto
qed

lemma demo_child_1004:
  "map_sum id (\<lambda>c. (difficulty c, gas_limit c))
     (fst (init_from_parent demo_env demo_store demo_block ''cb'' [] 1004 []))
   = Inr (131200, 999023)"
  by code_simp

lemma demo_child_1010:
  "map_sum id difficulty
     (fst (init_from_parent demo_env demo_store demo_block ''cb'' [] 1010 []))
   = Inr 130944"
  by code_simp

lemma map_sum_InrD: "map_sum f g x = Inr y \<Longrightarrow> \<exists>z. x = Inr z \<and> g z = y"
  by (cases x) auto

theorem init_from_parent_difficulty_witness:
  "difficulty demo_block = 131072 \<and> timestamp demo_block = 1000 \<and>
   (\<exists>child st' parent'.
      init_from_parent demo_env demo_store demo_block ''cb'' [] 1004 [] = (Inr child, st', parent')
      \<and> difficulty child = 131200) \<and>
   (\<exists>child st' parent'.
      init_from_parent demo_env demo_store demo_block ''cb'' [] 1010 [] = (Inr child, st', parent')
      \<and> difficulty child = 130944)"
proof -
  have d: "difficulty demo_block = 131072" "timestamp demo_block = 1000"
    by (simp_all add: demo_block_def)
  from map_sum_InrD [OF demo_child_1004] obtain c1 st1 p1 where
    1: "init_from_parent demo_env demo_store demo_block ''cb'' [] 1004 [] = (Inr c1, st1, p1)"
    by (metis prod.collapse)
  from map_sum_InrD [OF demo_child_1010] obtain c2 st2 p2 where
    2: "init_from_parent demo_env demo_store demo_block ''cb'' [] 1010 [] = (Inr c2, st2, p2)"
    by (metis prod.collapse)
  from init_from_parent_difficulty [of demo_block 1004 demo_env demo_store "''cb''" "[]" "[]" c1 st1 p1]
    1 d
  have a: "difficulty c1 = 131200" by blast
  from init_from_parent_difficulty [of demo_block 1010 demo_env demo_store "''cb''" "[]" "[]" c2 st2 p2]
    2 d
  have b: "difficulty c2 = 130944" by blast
  from d 1 2 a b show ?thesis by blast
qed

text \<open>
  Claim C5. The gas limit computed by \<open>calc_gaslimit\<close>, which is the gas limit of the child
  that \<open>init_from_parent\<close> returns, is
  \<open>max(125000, (parent.gas_limit * 1023 + parent.gas_used * 6 div 5) div 1024)\<close>; a parent
  with gas limit \<open>10 ^ 6\<close> and no gas used gives 999023.
\<close>

theorem init_from_parent_gas_limit:
  "calc_gaslimit parent =
     max 125000 ((gas_limit parent * 1023 + gas_used parent * 6 div 5) div 1024) \<and>
   (init_from_parent env st parent cb ed ts us = (Inr child, st', parent') \<longrightarrow>
      gas_limit child =
        max 125000 ((gas_limit parent * 1023 + gas_used parent * 6 div 5) div 1024) \<and>
      (gas_limit parent = 10 ^ 6 \<and> gas_used parent = 0 \<longrightarrow> gas_limit child = 999023))"
proof -
  have f: "calc_gaslimit parent =
     max 125000 ((gas_limit parent * 1023 + gas_used parent * 6 div 5) div 1024)"
    by (simp add: calc_gaslimit_def Let_def GASLIMIT_EMA_FACTOR_def BLKLIM_FACTOR_NOM_def
        BLKLIM_FACTOR_DEN_def MIN_GAS_LIMIT_def max.commute)
  have "gas_limit child = calc_gaslimit parent"
    if "init_from_parent env st parent cb ed ts us = (Inr child, st', parent')"
    using init_from_parent_attrs [OF that] by simp
  with f show ?thesis by auto
qed

theorem init_from_parent_gas_limit_witness:
  "gas_limit demo_block = 10 ^ 6 \<and> gas_used demo_block = 0 \<and>
   (\<exists>child st' parent'.
      init_from_parent demo_env demo_store demo_block ''cb'' [] 1004 [] = (Inr child, st', parent')
      \<and> gas_limit child = 999023)"
proof -
  have d: "gas_limit demo_block = 10 ^ 6" "gas_used demo_block = 0"
    by (simp_all add: demo_block_def)
  from map_sum_InrD [OF demo_child_1004] obtain c1 st1 p1 where
    1: "init_from_parent demo_env demo_store demo_block ''cb'' [] 1004 [] = (Inr c1, st1, p1)"
    by (metis prod.collapse)
  from init_from_parent_gas_limit [of demo_block demo_env demo_store "''cb''" "[]" 1004 "[]" c1 st1 p1]
    1 d
  have "gas_limit c1 = 999023" by blast
  with d 1 show ?thesis by blast
qed

subsection \<open>Uncle validation\<close>

lemma check_header_pow_nonempty: "check_header_pow env u = Inr r \<Longrightarrow> u \<noteq> []"
  by (auto simp: check_header_pow_def)

lemma uncles_loop_True_iff:
  "uncles_loop env elig inel us = Inr True \<longleftrightarrow>
     (\<forall>k < length us.
        check_header_pow env (us ! k) = Inr True \<and> (us ! k) ! 0 \<in> set elig \<and>
        us ! k \<notin> set inel \<and> us ! k \<notin> set (take k us))"
proof (induction us arbitrary: inel)
  case Nil
  then show ?case by simp
next
  case (Cons u us)
  let ?P = "\<lambda>l k. check_header_pow env (l ! k) = Inr True \<and> (l ! k) ! 0 \<in> set elig"
  have split: "(\<forall>k < length (u # us). Q k) \<longleftrightarrow> Q 0 \<and> (\<forall>k < length us. Q (Suc k))" for Q
    by (auto simp: less_Suc_eq_0_disj)
  show ?case
  proof (cases "check_header_pow env u = Inr True \<and> u ! 0 \<in> set elig \<and> u \<notin> set inel")
    case True
    then have ne: "u \<noteq> []" by (auto dest: check_header_pow_nonempty)
    from True ne have "uncles_loop env elig inel (u # us) = uncles_loop env elig (inel @ [u]) us"
      by (simp add: index_of_prevhash)
    also have "\<dots> = Inr True \<longleftrightarrow>
        (\<forall>k < length us.
           check_header_pow env (us ! k) = Inr True \<and> (us ! k) ! 0 \<in> set elig \<and>
           us ! k \<notin> set (inel @ [u]) \<and> us ! k \<notin> set (take k us))"
      by (rule Cons.IH)
    finally show ?thesis
      using True by (subst split) auto
  next
    case False
    then have "uncles_loop env elig inel (u # us) \<noteq> Inr True"
      by (auto simp: index_of_prevhash split: sum.splits)
    with False show ?thesis
      by (subst split) auto
  qed
qed

lemma ancestors_stop: "\<not> number b > 0 \<Longrightarrow> ancestors env st b n = (Inr [b], st)"
  by (cases n) simp_all

lemma extend_chain_ancestors:
  "extend_chain env st (pre @ [x]) ns =
     (case ancestors env st x (length ns) of
        (Inl e, st1) \<Rightarrow> (Inl e, st1)
      | (Inr anc, st1) \<Rightarrow> (Inr (pre @ anc), st1))"
proof (induction ns arbitrary: pre x st)
  case Nil
  then show ?case by simp
next
  case (Cons n ns)
  show ?case
  proof (cases "number x > 0")
    case False
    then show ?thesis
      using Cons.IH [of st pre x] by (simp add: ancestors_stop)
  next
    case True
    obtain r st1 where g: "get_parent env st x = (r, st1)" by (cases "get_parent env st x")
    show ?thesis
    proof (cases r)
      case (Inl e)
      with True g show ?thesis by simp
    next
      case (Inr p)
      have "extend_chain env st (pre @ [x]) (n # ns) = extend_chain env st1 ((pre @ [x]) @ [p]) ns"
        using True g Inr by simp
      also have "\<dots> = (case ancestors env st1 p (length ns) of
                          (Inl e, st2) \<Rightarrow> (Inl e, st2)
                        | (Inr anc, st2) \<Rightarrow> (Inr ((pre @ [x]) @ anc), st2))"
        by (rule Cons.IH)
      finally show ?thesis
        using True g Inr by (auto split: prod.splits sum.splits)
    qed
  qed
qed

lemma get_parent_cached: "get_parent env st b = (Inr p, st1) \<Longrightarrow> cls p = CachedBlockC"
  by (auto simp: get_parent_def get_block_def create_cached_def
      split: if_splits prod.splits sum.splits)

lemma ancestors_shape:
  "ancestors env st b n = (Inr anc, st1) \<Longrightarrow>
   anc \<noteq> [] \<and> hd anc = b \<and> length anc \<le> Suc n \<and> (\<forall>a \<in> set (tl anc). cls a = CachedBlockC)"
proof (induction n arbitrary: st b anc)
  case 0
  then show ?case by auto
next
  case (Suc n)
  show ?case
  proof (cases "number b > 0")
    case False
    with Suc.prems show ?thesis by auto
  next
    case True
    with Suc.prems obtain p st' rest where
      g: "get_parent env st b = (Inr p, st')" and
      a: "ancestors env st' p n = (Inr rest, st1)" and
      e: "anc = b # rest"
      by (auto split: prod.splits sum.splits)
    from Suc.IH [OF a] get_parent_cached [OF g] e show ?thesis
      by (cases rest) auto
  qed
qed


lemma getattr_field_cached:
  "cls x = CachedBlockC \<Longrightarrow> snd (getattr_field env st x name) = (st, x)"
  by (simp add: getattr_field_def get_state_root_def commit_state_def
      CachedBlock_commit_state_def)

lemma list_header_loop_cached:
  "cls x = CachedBlockC \<Longrightarrow> snd (list_header_loop env st x ex fs acc) = (st, x)"
proof (induction fs arbitrary: acc)
  case Nil
  then show ?case by simp
next
  case (Cons f fs)
  obtain name ty where f: "f = (name, ty)" by (cases f)
  obtain r where g: "getattr_field env st x name = (r, st, x)"
    using getattr_field_cached [OF Cons.prems, of env st name]
    by (cases "getattr_field env st x name") auto
  show ?case
    using Cons.IH [OF Cons.prems] f g
    by (auto split: sum.splits)
qed

lemma list_header_cached:
  "cls x = CachedBlockC \<Longrightarrow> snd (list_header env st x ex) = (st, x)"
  unfolding list_header_def by (rule list_header_loop_cached)

lemma hash_cached_store:
  "cls x = CachedBlockC \<Longrightarrow> fst (snd (hash env st x)) = st"
  using list_header_cached [of x env st "[]"]
  by (cases "list_header env st x []")
    (auto simp: hash_def CachedBlock_hash_def Block_hash_def serialize_header_def
      split: sum.splits option.splits)

lemma list_header_all_cached:
  "\<forall>a \<in> set xs. cls a = CachedBlockC \<Longrightarrow>
   snd (list_header_all env st xs) = (st, xs) \<and>
   (fst (list_header_all env st xs) = Inr hs \<longleftrightarrow>
      list_all2 (\<lambda>a h. fst (list_header env st a []) = Inr h) xs hs)"
proof (induction xs arbitrary: hs)
  case Nil
  then show ?case by auto
next
  case (Cons x xs)
  from Cons.prems have cx: "cls x = CachedBlockC" and cxs: "\<forall>a \<in> set xs. cls a = CachedBlockC"
    by simp_all
  obtain r where g: "list_header env st x [] = (r, st, x)"
    using list_header_cached [OF cx, of env st "[]"] by (cases "list_header env st x []") auto
  obtain r' where a: "list_header_all env st xs = (r', st, xs)"
    using Cons.IH [OF cxs] by (cases "list_header_all env st xs") auto
  have ih: "r' = Inr hs' \<longleftrightarrow> list_all2 (\<lambda>a h. fst (list_header env st a []) = Inr h) xs hs'"
    for hs'
    using Cons.IH [OF cxs, of hs'] a by simp
  show ?case
    using g a by (cases hs) (auto split: sum.splits simp: ih [symmetric])
qed

lemma hash_all_cached:
  "\<forall>a \<in> set xs. cls a = CachedBlockC \<Longrightarrow>
   fst (snd (hash_all env st xs)) = st \<and>
   (fst (hash_all env st xs) = Inr hs \<longleftrightarrow>
      list_all2 (\<lambda>a h. fst (hash env st a) = Inr h) xs hs)"
proof (induction xs arbitrary: hs)
  case Nil
  then show ?case by auto
next
  case (Cons x xs)
  from Cons.prems have cx: "cls x = CachedBlockC" and cxs: "\<forall>a \<in> set xs. cls a = CachedBlockC"
    by simp_all
  obtain r x1 where g: "hash env st x = (r, st, x1)"
    using hash_cached_store [OF cx, of env st] by (cases "hash env st x") auto
  obtain r' xs1 where a: "hash_all env st xs = (r', st, xs1)"
    using Cons.IH [OF cxs] by (cases "hash_all env st xs") auto
  have ih: "r' = Inr hs' \<longleftrightarrow> list_all2 (\<lambda>a h. fst (hash env st a) = Inr h) xs hs'"
    for hs'
    using Cons.IH [OF cxs, of hs'] a by simp
  show ?case
    using g a by (cases hs) (auto split: sum.splits simp: ih [symmetric])
qed

lemma list_all2_Inr_set:
  "list_all2 (\<lambda>a h. f a = Inr h) xs hs \<Longrightarrow>
   (u \<in> set hs \<longleftrightarrow> (\<exists>a \<in> set xs. f a = Inr u))"
  by (induction xs hs rule: list_all2_induct) auto

lemma list_all2_Inr_ex:
  "\<forall>a \<in> set xs. \<exists>h. f a = Inr h \<Longrightarrow> \<exists>hs. list_all2 (\<lambda>a h. f a = Inr h) xs hs"
proof (induction xs)
  case Nil
  then show ?case by simp
next
  case (Cons x xs)
  then obtain h hs where "f x = Inr h" "list_all2 (\<lambda>a h. f a = Inr h) xs hs" by auto
  then have "list_all2 (\<lambda>a h. f a = Inr h) (x # xs) (h # hs)" by simp
  then show ?case by blast
qed

lemma list_all2_Inr_all:
  "list_all2 (\<lambda>a h. f a = Inr h) xs hs \<Longrightarrow> \<forall>a \<in> set xs. \<exists>h. f a = Inr h"
  by (induction xs hs rule: list_all2_induct) auto


lemma uncles_loop_first_fail:
  assumes "k < length us"
    and "\<forall>j < k. check_header_pow env (us ! j) = Inr True \<and> us ! j ! 0 \<in> set elig \<and>
                  us ! j \<notin> set inel \<and> us ! j \<notin> set (take j us)"
    and "\<not> (check_header_pow env (us ! k) = Inr True \<and> us ! k ! 0 \<in> set elig \<and>
             us ! k \<notin> set inel \<and> us ! k \<notin> set (take k us))"
  shows "uncles_loop env elig inel us =
           (case check_header_pow env (us ! k) of Inl e \<Rightarrow> Inl e | Inr r \<Rightarrow> Inr False)"
  using assms
proof (induction us arbitrary: inel k)
  case Nil
  then show ?case by simp
next
  case (Cons u us)
  show ?case
  proof (cases k)
    case 0
    show ?thesis
    proof (cases "check_header_pow env u")
      case (Inl e)
      with 0 show ?thesis by simp
    next
      case (Inr r)
      then have ne: "u \<noteq> []" by (rule check_header_pow_nonempty)
      from Cons.prems(3) 0 Inr ne show ?thesis
        by (cases r) (auto simp: index_of_prevhash)
    qed
  next
    case (Suc k')
    from Cons.prems(2) Suc have acc0: "check_header_pow env u = Inr True" "u ! 0 \<in> set elig"
      "u \<notin> set inel"
      by auto
    then have ne: "u \<noteq> []" by (auto dest: check_header_pow_nonempty)
    from acc0 ne have step: "uncles_loop env elig inel (u # us) = uncles_loop env elig (inel @ [u]) us"
      by (simp add: index_of_prevhash)
    have k': "k' < length us" using Cons.prems(1) Suc by simp
    have prev: "\<forall>j < k'. check_header_pow env (us ! j) = Inr True \<and> us ! j ! 0 \<in> set elig \<and>
                  us ! j \<notin> set (inel @ [u]) \<and> us ! j \<notin> set (take j us)"
    proof (intro allI impI)
      fix j assume "j < k'"
      then have "Suc j < k" using Suc by simp
      with Cons.prems(2) [THEN spec, of "Suc j"] show
        "check_header_pow env (us ! j) = Inr True \<and> us ! j ! 0 \<in> set elig \<and>
                  us ! j \<notin> set (inel @ [u]) \<and> us ! j \<notin> set (take j us)"
        by auto
    qed
    have bad: "\<not> (check_header_pow env (us ! k') = Inr True \<and> us ! k' ! 0 \<in> set elig \<and>
             us ! k' \<notin> set (inel @ [u]) \<and> us ! k' \<notin> set (take k' us))"
      using Cons.prems(3) Suc by auto
    from Cons.IH [OF k' prev bad] step Suc show ?thesis by simp
  qed
qed

lemma uncle_context_unfold:
  assumes a: "ancestors env st b 7 = (Inr anc, st1)"
    and h: "list_header env st1 b [] = (Inr hb, st2, b2)"
  shows "uncle_context env st b =
    (case fst (list_header_all env st2 (tl anc)) of
       Inl e \<Rightarrow> (Inl e, st2, b2)
     | Inr hs \<Rightarrow>
         (case fst (hash_all env st2 (drop 2 anc)) of
            Inl e \<Rightarrow> (Inl e, st2, b2)
          | Inr es \<Rightarrow> (Inr (anc, concat (map uncles (tl anc)) @ hb # hs, es), st2, b2)))"
proof -
  from ancestors_shape [OF a] obtain t where anc: "anc = b # t"
    and ct: "\<forall>a \<in> set t. cls a = CachedBlockC"
    by (cases anc) auto
  have "extend_chain env st ([] @ [b]) [1, 2, 3, 4, 5, 6, 7] =
          (case ancestors env st b (length [1::nat, 2, 3, 4, 5, 6, 7]) of
             (Inl e, st1) \<Rightarrow> (Inl e, st1)
           | (Inr anc, st1) \<Rightarrow> (Inr ([] @ anc), st1))"
    by (rule extend_chain_ancestors)
  moreover have "length [1::nat, 2, 3, 4, 5, 6, 7] = 7" by simp
  ultimately have e: "extend_chain env st [b] [1, 2, 3, 4, 5, 6, 7] = (Inr anc, st1)"
    using a by (simp only: append_Nil prod.case sum.case)
  obtain r where l: "list_header_all env st2 t = (r, st2, t)"
    using list_header_all_cached [OF ct, of env st2] by (cases "list_header_all env st2 t") auto
  have cd: "\<forall>a \<in> set (drop 1 t). cls a = CachedBlockC"
    using ct by (auto dest: in_set_dropD)
  obtain r' t' where g: "hash_all env st2 (drop 1 t) = (r', st2, t')"
    using hash_all_cached [OF cd, of env st2] by (cases "hash_all env st2 (drop 1 t)") auto
  show ?thesis
    unfolding uncle_context_def e
    using h l g by (auto simp: anc Let_def split: sum.splits)
qed

lemma accepted_iff:
  assumes hs: "list_all2 (\<lambda>a h. fst (list_header env st a []) = Inr h) (tl anc) hs"
    and es: "list_all2 (\<lambda>a h. fst (hash env st a) = Inr h) (drop 2 anc) es"
  shows "(check_header_pow env (us ! k) = Inr True \<and> us ! k ! 0 \<in> set es \<and>
          us ! k \<notin> set (concat (map uncles (tl anc)) @ hb # hs) \<and>
          us ! k \<notin> set (take k us))
         \<longleftrightarrow> uncle_accepted env st anc hb us k"
  unfolding uncle_accepted_def
  using list_all2_Inr_set [OF hs, of "us ! k"] list_all2_Inr_set [OF es, of "us ! k ! 0"]
  by auto


lemma tl_cached:
  "ancestors env st b n = (Inr anc, st1) \<Longrightarrow> \<forall>a \<in> set (tl anc). cls a = CachedBlockC"
  by (drule ancestors_shape) simp

lemma drop2_cached:
  "ancestors env st b n = (Inr anc, st1) \<Longrightarrow> \<forall>a \<in> set (drop 2 anc). cls a = CachedBlockC"
proof -
  assume a: "ancestors env st b n = (Inr anc, st1)"
  have "set (drop 2 anc) \<subseteq> set (tl anc)"
    by (cases anc) (auto dest: in_set_dropD)
  with tl_cached [OF a] show ?thesis by blast
qed

lemma validate_uncles_ctx:
  assumes m: "sha3 env (encode_uncles env (uncles b)) = uncles_hash b"
    and a: "ancestors env st b 7 = (Inr anc, st1)"
    and h: "list_header env st1 b [] = (Inr hb, st2, b2)"
    and oh: "\<forall>a \<in> set (tl anc). \<exists>h. fst (list_header env st2 a []) = Inr h"
    and oe: "\<forall>a \<in> set (drop 2 anc). \<exists>h. fst (hash env st2 a) = Inr h"
  shows "\<exists>hs es.
           list_all2 (\<lambda>a h. fst (list_header env st2 a []) = Inr h) (tl anc) hs \<and>
           list_all2 (\<lambda>a h. fst (hash env st2 a) = Inr h) (drop 2 anc) es \<and>
           validate_uncles env st b =
             (uncles_loop env es (concat (map uncles (tl anc)) @ hb # hs) (uncles b), st2, b2)"
proof -
  from list_all2_Inr_ex [OF oh] obtain hs where
    hs: "list_all2 (\<lambda>a h. fst (list_header env st2 a []) = Inr h) (tl anc) hs" by blast
  from list_all2_Inr_ex [OF oe] obtain es where
    es: "list_all2 (\<lambda>a h. fst (hash env st2 a) = Inr h) (drop 2 anc) es" by blast
  from list_header_all_cached [OF tl_cached [OF a], of env st2 hs] hs
  have 1: "fst (list_header_all env st2 (tl anc)) = Inr hs" by simp
  from hash_all_cached [OF drop2_cached [OF a], of env st2 es] es
  have 2: "fst (hash_all env st2 (drop 2 anc)) = Inr es" by simp
  have "uncle_context env st b =
          (Inr (anc, concat (map uncles (tl anc)) @ hb # hs, es), st2, b2)"
    unfolding uncle_context_unfold [OF a h] 1 2 by simp
  with m have "validate_uncles env st b =
             (uncles_loop env es (concat (map uncles (tl anc)) @ hb # hs) (uncles b), st2, b2)"
    by (simp add: validate_uncles_def)
  with hs es show ?thesis by blast
qed

lemma uncle_context_InrD:
  assumes "uncle_context env st b = (Inr ctx, st', b')"
  shows "\<exists>anc st1 hb st2 b2.
           ancestors env st b 7 = (Inr anc, st1) \<and>
           list_header env st1 b [] = (Inr hb, st2, b2) \<and>
           (\<forall>a \<in> set (tl anc). \<exists>h. fst (list_header env st2 a []) = Inr h) \<and>
           (\<forall>a \<in> set (drop 2 anc). \<exists>h. fst (hash env st2 a) = Inr h)"
proof -
  have "extend_chain env st ([] @ [b]) [1, 2, 3, 4, 5, 6, 7] =
          (case ancestors env st b (length [1::nat, 2, 3, 4, 5, 6, 7]) of
             (Inl e, st1) \<Rightarrow> (Inl e, st1)
           | (Inr anc, st1) \<Rightarrow> (Inr ([] @ anc), st1))"
    by (rule extend_chain_ancestors)
  moreover have "length [1::nat, 2, 3, 4, 5, 6, 7] = 7" by simp
  ultimately have e: "extend_chain env st [b] [1, 2, 3, 4, 5, 6, 7] =
          (case ancestors env st b 7 of
             (Inl e, st1) \<Rightarrow> (Inl e, st1)
           | (Inr anc, st1) \<Rightarrow> (Inr anc, st1))"
    by (simp only: append_Nil)
  obtain ra st1 where a0: "ancestors env st b 7 = (ra, st1)" by (cases "ancestors env st b 7")
  from assms e a0 obtain anc where ra: "ra = Inr anc"
    by (cases ra) (auto simp: uncle_context_def)
  note a = a0 [unfolded ra]
  from ancestors_shape [OF a] obtain t where anc: "anc = b # t" by (cases anc) auto
  obtain rh st2 b2 where h0: "list_header env st1 b [] = (rh, st2, b2)"
    by (cases "list_header env st1 b []")
  from assms obtain hb where rh: "rh = Inr hb"
    unfolding uncle_context_def e a
    using h0 by (cases rh) (auto simp: anc Let_def)
  note h = h0 [unfolded rh]
  from assms have u: "(case fst (list_header_all env st2 (tl anc)) of
       Inl e \<Rightarrow> (Inl e, st2, b2)
     | Inr hs \<Rightarrow>
         (case fst (hash_all env st2 (drop 2 anc)) of
            Inl e \<Rightarrow> (Inl e, st2, b2)
          | Inr es \<Rightarrow> (Inr (anc, concat (map uncles (tl anc)) @ hb # hs, es), st2, b2)))
       = (Inr ctx, st', b')"
    unfolding uncle_context_unfold [OF a h] .
  then obtain hs es where 1: "fst (list_header_all env st2 (tl anc)) = Inr hs"
    and 2: "fst (hash_all env st2 (drop 2 anc)) = Inr es"
    by (auto split: sum.splits)
  from list_header_all_cached [OF tl_cached [OF a], of env st2 hs] 1
  have "list_all2 (\<lambda>a h. fst (list_header env st2 a []) = Inr h) (tl anc) hs" by simp
  from list_all2_Inr_all [OF this]
  have oh: "\<forall>a \<in> set (tl anc). \<exists>h. fst (list_header env st2 a []) = Inr h" .
  from hash_all_cached [OF drop2_cached [OF a], of env st2 es] 2
  have "list_all2 (\<lambda>a h. fst (hash env st2 a) = Inr h) (drop 2 anc) es" by simp
  from list_all2_Inr_all [OF this]
  have oe: "\<forall>a \<in> set (drop 2 anc). \<exists>h. fst (hash env st2 a) = Inr h" .
  from a h oh oe show ?thesis by blast
qed

lemma ancestors_error:
  assumes "sha3 env (encode_uncles env (uncles b)) = uncles_hash b"
    and "fst (ancestors env st b 7) = Inl e"
  shows "fst (validate_uncles env st b) = Inl e"
proof -
  have "extend_chain env st ([] @ [b]) [1, 2, 3, 4, 5, 6, 7] =
          (case ancestors env st b (length [1::nat, 2, 3, 4, 5, 6, 7]) of
             (Inl e, st1) \<Rightarrow> (Inl e, st1)
           | (Inr anc, st1) \<Rightarrow> (Inr ([] @ anc), st1))"
    by (rule extend_chain_ancestors)
  moreover have "length [1::nat, 2, 3, 4, 5, 6, 7] = 7" by simp
  moreover obtain st1 where "ancestors env st b 7 = (Inl e, st1)"
    using assms(2) by (cases "ancestors env st b 7") auto
  ultimately have "extend_chain env st [b] [1, 2, 3, 4, 5, 6, 7] = (Inl e, st1)"
    by (simp only: append_Nil prod.case sum.case)
  with assms(1) show ?thesis
    by (simp add: validate_uncles_def uncle_context_def)
qed

lemma missing_parent:
  assumes "number b > 0" and "fst (load_block env st (prevhash b)) = Inl KeyError"
  shows "fst (ancestors env st b (Suc n)) = Inl UnknownParentException"
  using assms
  by (cases "load_block env st (prevhash b)")
    (auto simp: get_parent_def get_block_def)

text \<open>
  Claim C6, as amended. \<open>validate_uncles\<close> returns True exactly when the hash of the
  encoded uncles equals \<open>uncles_hash\<close>, the ancestor chain of the block (up to 7 back,
  stopping at a block of number 0) is found in the block store, the header of the block and
  the headers and hashes of its ancestors are computed, and every uncle, in order, is
  accepted: it passes the proof-of-work check, its \<open>prevhash\<close> is the hash of an ancestor
  2 to 7 back, it is not among the uncles of the ancestors 1 to 7 back, it is not the header
  of the block or of an ancestor, and it is not an earlier uncle of the list. It returns
  False when the uncles hash differs. When the hash matches, an error met while the chain is
  built is raised by the call: UnknownParentException when the parent of the block is not
  in the store. Once chain, headers and hashes are computed, the first uncle in order that
  is not accepted decides: the call returns False if the proof-of-work check returns on that
  uncle, and raises the assertion failure of \<open>check_header_pow\<close> if the nonce of that
  uncle has no 32 bytes. The ancestors are cached blocks, so reading their headers and
  hashes changes no store: all are read in the store that the header of the block itself
  leaves.
\<close>

theorem validate_uncles_spec:
  "(fst (validate_uncles env st b) = Inr True \<longleftrightarrow>
      sha3 env (encode_uncles env (uncles b)) = uncles_hash b \<and>
      (\<exists>anc st1 hb st2 b2.
         ancestors env st b 7 = (Inr anc, st1) \<and>
         list_header env st1 b [] = (Inr hb, st2, b2) \<and>
         (\<forall>a \<in> set (tl anc). \<exists>h. fst (list_header env st2 a []) = Inr h) \<and>
         (\<forall>a \<in> set (drop 2 anc). \<exists>h. fst (hash env st2 a) = Inr h) \<and>
         (\<forall>k < length (uncles b). uncle_accepted env st2 anc hb (uncles b) k))) \<and>
   (sha3 env (encode_uncles env (uncles b)) \<noteq> uncles_hash b \<longrightarrow>
      validate_uncles env st b = (Inr False, st, b)) \<and>
   (sha3 env (encode_uncles env (uncles b)) = uncles_hash b \<and>
    fst (ancestors env st b 7) = Inl e \<longrightarrow>
      fst (validate_uncles env st b) = Inl e) \<and>
   (sha3 env (encode_uncles env (uncles b)) = uncles_hash b \<and> number b > 0 \<and>
    fst (load_block env st (prevhash b)) = Inl KeyError \<longrightarrow>
      fst (validate_uncles env st b) = Inl UnknownParentException) \<and>
   (sha3 env (encode_uncles env (uncles b)) = uncles_hash b \<and>
    ancestors env st b 7 = (Inr anc, st1) \<and>
    list_header env st1 b [] = (Inr hb, st2, b2) \<and>
    (\<forall>a \<in> set (tl anc). \<exists>h. fst (list_header env st2 a []) = Inr h) \<and>
    (\<forall>a \<in> set (drop 2 anc). \<exists>h. fst (hash env st2 a) = Inr h) \<and>
    k < length (uncles b) \<and>
    (\<forall>j < k. uncle_accepted env st2 anc hb (uncles b) j) \<and>
    \<not> uncle_accepted env st2 anc hb (uncles b) k \<longrightarrow>
      ((\<exists>r. check_header_pow env (uncles b ! k) = Inr r) \<longrightarrow>
         validate_uncles env st b = (Inr False, st2, b2)) \<and>
      (uncles b ! k \<noteq> [] \<and> length (last (uncles b ! k)) \<noteq> 32 \<longrightarrow>
         validate_uncles env st b = (Inl AssertionError, st2, b2)))"
proof (intro conjI impI)
  show "fst (validate_uncles env st b) = Inr True \<longleftrightarrow>
      sha3 env (encode_uncles env (uncles b)) = uncles_hash b \<and>
      (\<exists>anc st1 hb st2 b2.
         ancestors env st b 7 = (Inr anc, st1) \<and>
         list_header env st1 b [] = (Inr hb, st2, b2) \<and>
         (\<forall>a \<in> set (tl anc). \<exists>h. fst (list_header env st2 a []) = Inr h) \<and>
         (\<forall>a \<in> set (drop 2 anc). \<exists>h. fst (hash env st2 a) = Inr h) \<and>
         (\<forall>k < length (uncles b). uncle_accepted env st2 anc hb (uncles b) k))"
    (is "?L \<longleftrightarrow> ?M \<and> ?R")
  proof
    assume l: ?L
    then have m: ?M by (auto simp: validate_uncles_def split: if_splits)
    from l m obtain ctx st' b' where "uncle_context env st b = (Inr ctx, st', b')"
      by (cases "uncle_context env st b"; cases "fst (uncle_context env st b)")
        (auto simp: validate_uncles_def)
    from uncle_context_InrD [OF this] obtain anc st1 hb st2 b2 where
      a: "ancestors env st b 7 = (Inr anc, st1)" and
      h: "list_header env st1 b [] = (Inr hb, st2, b2)" and
      oh: "\<forall>a \<in> set (tl anc). \<exists>h. fst (list_header env st2 a []) = Inr h" and
      oe: "\<forall>a \<in> set (drop 2 anc). \<exists>h. fst (hash env st2 a) = Inr h"
      by blast
    from validate_uncles_ctx [OF m a h oh oe] obtain hs es where
      hs: "list_all2 (\<lambda>a h. fst (list_header env st2 a []) = Inr h) (tl anc) hs" and
      es: "list_all2 (\<lambda>a h. fst (hash env st2 a) = Inr h) (drop 2 anc) es" and
      v: "validate_uncles env st b =
             (uncles_loop env es (concat (map uncles (tl anc)) @ hb # hs) (uncles b), st2, b2)"
      by blast
    from l v have "uncles_loop env es (concat (map uncles (tl anc)) @ hb # hs) (uncles b) = Inr True"
      by simp
    then have "\<forall>k < length (uncles b). uncle_accepted env st2 anc hb (uncles b) k"
      unfolding uncles_loop_True_iff accepted_iff [OF hs es] .
    with m a h oh oe show "?M \<and> ?R" by blast
  next
    assume "?M \<and> ?R"
    then obtain anc st1 hb st2 b2 where m: ?M and
      a: "ancestors env st b 7 = (Inr anc, st1)" and
      h: "list_header env st1 b [] = (Inr hb, st2, b2)" and
      oh: "\<forall>a \<in> set (tl anc). \<exists>h. fst (list_header env st2 a []) = Inr h" and
      oe: "\<forall>a \<in> set (drop 2 anc). \<exists>h. fst (hash env st2 a) = Inr h" and
      acc: "\<forall>k < length (uncles b). uncle_accepted env st2 anc hb (uncles b) k"
      by blast
    from validate_uncles_ctx [OF m a h oh oe] obtain hs es where
      hs: "list_all2 (\<lambda>a h. fst (list_header env st2 a []) = Inr h) (tl anc) hs" and
      es: "list_all2 (\<lambda>a h. fst (hash env st2 a) = Inr h) (drop 2 anc) es" and
      v: "validate_uncles env st b =
             (uncles_loop env es (concat (map uncles (tl anc)) @ hb # hs) (uncles b), st2, b2)"
      by blast
    from acc have "uncles_loop env es (concat (map uncles (tl anc)) @ hb # hs) (uncles b) = Inr True"
      unfolding uncles_loop_True_iff accepted_iff [OF hs es] .
    with v show ?L by simp
  qed
next
  assume "sha3 env (encode_uncles env (uncles b)) \<noteq> uncles_hash b"
  then show "validate_uncles env st b = (Inr False, st, b)"
    by (simp add: validate_uncles_def)
next
  assume "sha3 env (encode_uncles env (uncles b)) = uncles_hash b \<and>
    fst (ancestors env st b 7) = Inl e"
  then show "fst (validate_uncles env st b) = Inl e"
    using ancestors_error by blast
next
  assume x: "sha3 env (encode_uncles env (uncles b)) = uncles_hash b \<and> number b > 0 \<and>
    fst (load_block env st (prevhash b)) = Inl KeyError"
  then have "fst (ancestors env st b (Suc 6)) = Inl UnknownParentException"
    by (intro missing_parent) simp_all
  then have "fst (ancestors env st b 7) = Inl UnknownParentException"
    by (simp only: eval_nat_numeral)
  with x show "fst (validate_uncles env st b) = Inl UnknownParentException"
    using ancestors_error by blast
next
  assume x: "sha3 env (encode_uncles env (uncles b)) = uncles_hash b \<and>
    ancestors env st b 7 = (Inr anc, st1) \<and>
    list_header env st1 b [] = (Inr hb, st2, b2) \<and>
    (\<forall>a \<in> set (tl anc). \<exists>h. fst (list_header env st2 a []) = Inr h) \<and>
    (\<forall>a \<in> set (drop 2 anc). \<exists>h. fst (hash env st2 a) = Inr h) \<and>
    k < length (uncles b) \<and>
    (\<forall>j < k. uncle_accepted env st2 anc hb (uncles b) j) \<and>
    \<not> uncle_accepted env st2 anc hb (uncles b) k"
  then have m: "sha3 env (encode_uncles env (uncles b)) = uncles_hash b" and
      a: "ancestors env st b 7 = (Inr anc, st1)" and
      h: "list_header env st1 b [] = (Inr hb, st2, b2)" and
      oh: "\<forall>a \<in> set (tl anc). \<exists>h. fst (list_header env st2 a []) = Inr h" and
      oe: "\<forall>a \<in> set (drop 2 anc). \<exists>h. fst (hash env st2 a) = Inr h" and
      k: "k < length (uncles b)" and
      prev: "\<forall>j < k. uncle_accepted env st2 anc hb (uncles b) j" and
      bad: "\<not> uncle_accepted env st2 anc hb (uncles b) k"
    by blast+
  from validate_uncles_ctx [OF m a h oh oe] obtain hs es where
    hs: "list_all2 (\<lambda>a h. fst (list_header env st2 a []) = Inr h) (tl anc) hs" and
    es: "list_all2 (\<lambda>a h. fst (hash env st2 a) = Inr h) (drop 2 anc) es" and
    v: "validate_uncles env st b =
           (uncles_loop env es (concat (map uncles (tl anc)) @ hb # hs) (uncles b), st2, b2)"
    by blast
  have prev': "\<forall>j < k. check_header_pow env (uncles b ! j) = Inr True \<and>
                  uncles b ! j ! 0 \<in> set es \<and>
                  uncles b ! j \<notin> set (concat (map uncles (tl anc)) @ hb # hs) \<and>
                  uncles b ! j \<notin> set (take j (uncles b))"
    using prev unfolding accepted_iff [OF hs es] .
  have bad': "\<not> (check_header_pow env (uncles b ! k) = Inr True \<and>
                  uncles b ! k ! 0 \<in> set es \<and>
                  uncles b ! k \<notin> set (concat (map uncles (tl anc)) @ hb # hs) \<and>
                  uncles b ! k \<notin> set (take k (uncles b)))"
    using bad unfolding accepted_iff [OF hs es] .
  have f: "uncles_loop env es (concat (map uncles (tl anc)) @ hb # hs) (uncles b) =
           (case check_header_pow env (uncles b ! k) of Inl e \<Rightarrow> Inl e | Inr r \<Rightarrow> Inr False)"
    by (rule uncles_loop_first_fail [OF k prev' bad'])
  {
    assume "\<exists>r. check_header_pow env (uncles b ! k) = Inr r"
    with v f show "validate_uncles env st b = (Inr False, st2, b2)" by auto
  }
  {
    assume "uncles b ! k \<noteq> [] \<and> length (last (uncles b ! k)) \<noteq> 32"
    then have "check_header_pow env (uncles b ! k) = Inl AssertionError"
      by (simp add: check_header_pow_def)
    with v f show "validate_uncles env st b = (Inl AssertionError, st2, b2)" by simp
  }
qed

text \<open>
  The claim as stated fails on its last clause: for an uncle whose nonce has no 32 bytes
  the conditions do not hold, and the call raises the assertion failure of
  \<open>check_header_pow\<close> instead of returning False.
\<close>

theorem validate_uncles_raises_counterexample:
  "sha3 demo_env (encode_uncles demo_env (uncles demo_bad_uncle_block))
     = uncles_hash demo_bad_uncle_block \<and>
   fst (validate_uncles demo_env demo_store demo_bad_uncle_block) = Inl AssertionError"
  by code_simp

lemma demo_child_valid: "fst (validate_uncles demo_chain_env demo_store demo_child) = Inr True"
  by code_simp

lemma sum_caseD: "(case x of Inl e \<Rightarrow> False | Inr h \<Rightarrow> True) \<Longrightarrow> \<exists>h. x = Inr h"
  by (cases x) auto

lemma demo_bad_header_ok:
  "\<exists>hb st2 b2. list_header demo_env demo_store demo_bad_uncle_block [] = (Inr hb, st2, b2)"
proof -
  have "case fst (list_header demo_env demo_store demo_bad_uncle_block []) of
          Inl e \<Rightarrow> False | Inr h \<Rightarrow> True"
    by code_simp
  from sum_caseD [OF this] show ?thesis by (metis prod.collapse)
qed

lemma demo_order_header_ok:
  "\<exists>hb st2 b2. list_header demo_env demo_store demo_order_block [] = (Inr hb, st2, b2)"
proof -
  have "case fst (list_header demo_env demo_store demo_order_block []) of
          Inl e \<Rightarrow> False | Inr h \<Rightarrow> True"
    by code_simp
  from sum_caseD [OF this] show ?thesis by (metis prod.collapse)
qed

theorem validate_uncles_spec_witness:
  "fst (validate_uncles demo_chain_env demo_store demo_child) = Inr True \<and>
   sha3 demo_chain_env (encode_uncles demo_chain_env (uncles demo_child)) = uncles_hash demo_child \<and>
   (\<exists>anc st1 hb st2 b2.
      ancestors demo_chain_env demo_store demo_child 7 = (Inr anc, st1) \<and>
      list_header demo_chain_env st1 demo_child [] = (Inr hb, st2, b2) \<and>
      uncle_accepted demo_chain_env st2 anc hb [demo_uncle] 0) \<and>
   sha3 demo_env (encode_uncles demo_env (uncles (demo_block\<lparr>uncles_hash := ''wrong''\<rparr>)))
     \<noteq> uncles_hash (demo_block\<lparr>uncles_hash := ''wrong''\<rparr>) \<and>
   validate_uncles demo_env demo_store (demo_block\<lparr>uncles_hash := ''wrong''\<rparr>)
     = (Inr False, demo_store, demo_block\<lparr>uncles_hash := ''wrong''\<rparr>) \<and>
   0 < number demo_orphan \<and>
   fst (load_block demo_env demo_store (prevhash demo_orphan)) = Inl KeyError \<and>
   fst (validate_uncles demo_env demo_store demo_orphan) = Inl UnknownParentException \<and>
   length (last (uncles demo_bad_uncle_block ! 0)) \<noteq> 32 \<and>
   fst (validate_uncles demo_env demo_store demo_bad_uncle_block) = Inl AssertionError \<and>
   check_header_pow demo_env (uncles demo_order_block ! 0) = Inr False \<and>
   length (last (uncles demo_order_block ! 1)) \<noteq> 32 \<and>
   fst (validate_uncles demo_env demo_store demo_order_block) = Inr False"
proof -
  have u: "uncles demo_child = [demo_uncle]" by (simp add: demo_child_def demo_block_def)
  from validate_uncles_spec [of demo_chain_env demo_store demo_child, THEN conjunct1]
    demo_child_valid
  obtain anc st1 hb st2 b2 where
    h: "sha3 demo_chain_env (encode_uncles demo_chain_env (uncles demo_child)) = uncles_hash demo_child"
    and a: "ancestors demo_chain_env demo_store demo_child 7 = (Inr anc, st1)"
    and l: "list_header demo_chain_env st1 demo_child [] = (Inr hb, st2, b2)"
    and k: "\<forall>k < length (uncles demo_child).
              uncle_accepted demo_chain_env st2 anc hb (uncles demo_child) k"
    by blast
  from k u have k0: "uncle_accepted demo_chain_env st2 anc hb [demo_uncle] 0" by simp
  have w: "sha3 demo_env (encode_uncles demo_env (uncles (demo_block\<lparr>uncles_hash := ''wrong''\<rparr>)))
     \<noteq> uncles_hash (demo_block\<lparr>uncles_hash := ''wrong''\<rparr>)"
    by code_simp
  from validate_uncles_spec [of demo_env demo_store "demo_block\<lparr>uncles_hash := ''wrong''\<rparr>",
      THEN conjunct2, THEN conjunct1] w
  have f: "validate_uncles demo_env demo_store (demo_block\<lparr>uncles_hash := ''wrong''\<rparr>)
     = (Inr False, demo_store, demo_block\<lparr>uncles_hash := ''wrong''\<rparr>)"
    by blast
  have o1: "sha3 demo_env (encode_uncles demo_env (uncles demo_orphan)) = uncles_hash demo_orphan"
    by code_simp
  have o2: "0 < number demo_orphan" by (simp add: demo_orphan_def)
  have o3: "fst (load_block demo_env demo_store (prevhash demo_orphan)) = Inl KeyError"
    by (simp add: demo_env_def)
  from validate_uncles_spec [of demo_env demo_store demo_orphan,
      THEN conjunct2, THEN conjunct2, THEN conjunct2, THEN conjunct1] o1 o2 o3
  have o: "fst (validate_uncles demo_env demo_store demo_orphan) = Inl UnknownParentException"
    by blast
  have b1: "sha3 demo_env (encode_uncles demo_env (uncles demo_bad_uncle_block))
              = uncles_hash demo_bad_uncle_block"
    by code_simp
  have b2: "ancestors demo_env demo_store demo_bad_uncle_block 7
              = (Inr [demo_bad_uncle_block], demo_store)"
    by (rule ancestors_stop) (simp add: demo_bad_uncle_block_def demo_block_def)
  from demo_bad_header_ok obtain hb' st2' b2' where
    b3: "list_header demo_env demo_store demo_bad_uncle_block [] = (Inr hb', st2', b2')" by blast
  have b4: "(0::nat) < length (uncles demo_bad_uncle_block)"
    by (simp add: demo_bad_uncle_block_def)
  have b5: "check_header_pow demo_env (uncles demo_bad_uncle_block ! 0) = Inl AssertionError"
    by code_simp
  then have b6: "\<not> uncle_accepted demo_env st2' [demo_bad_uncle_block] hb'
                     (uncles demo_bad_uncle_block) 0"
    by (simp add: uncle_accepted_def)
  have b7: "uncles demo_bad_uncle_block ! 0 \<noteq> []"
    "length (last (uncles demo_bad_uncle_block ! 0)) \<noteq> 32"
    by (simp_all add: demo_bad_uncle_block_def)
  from validate_uncles_spec [of demo_env demo_store demo_bad_uncle_block _
      "[demo_bad_uncle_block]" demo_store hb' st2' b2' 0] b1 b2 b3 b4 b6 b7
  have "validate_uncles demo_env demo_store demo_bad_uncle_block = (Inl AssertionError, st2', b2')"
    by simp
  then have bad: "fst (validate_uncles demo_env demo_store demo_bad_uncle_block) = Inl AssertionError"
    by simp
  have c1: "sha3 demo_env (encode_uncles demo_env (uncles demo_order_block))
              = uncles_hash demo_order_block"
    by code_simp
  have c2: "ancestors demo_env demo_store demo_order_block 7
              = (Inr [demo_order_block], demo_store)"
    by (rule ancestors_stop) (simp add: demo_order_block_def demo_block_def)
  from demo_order_header_ok obtain hb'' st2'' b2'' where
    c3: "list_header demo_env demo_store demo_order_block [] = (Inr hb'', st2'', b2'')" by blast
  have c4: "(0::nat) < length (uncles demo_order_block)"
    by (simp add: demo_order_block_def)
  have c5: "check_header_pow demo_env (uncles demo_order_block ! 0) = Inr False"
    by code_simp
  then have c6: "\<not> uncle_accepted demo_env st2'' [demo_order_block] hb''
                     (uncles demo_order_block) 0"
    by (simp add: uncle_accepted_def)
  have c7: "length (last (uncles demo_order_block ! 1)) \<noteq> 32"
    by (simp add: demo_order_block_def)
  from c5 have c8: "\<exists>r. check_header_pow demo_env (uncles demo_order_block ! 0) = Inr r"
    by blast
  have c9: "\<forall>j < (0::nat). uncle_accepted demo_env st2'' [demo_order_block] hb''
                              (uncles demo_order_block) j"
    by simp
  have c10: "\<forall>a \<in> set (tl [demo_order_block]).
               \<exists>h. fst (list_header demo_env st2'' a []) = Inr h"
    "\<forall>a \<in> set (drop 2 [demo_order_block]). \<exists>h. fst (hash demo_env st2'' a) = Inr h"
    by simp_all
  from validate_uncles_spec [of demo_env demo_store demo_order_block _
      "[demo_order_block]" demo_store hb'' st2'' b2'' 0] c1 c2 c3 c4 c6 c8 c9 c10
  have "validate_uncles demo_env demo_store demo_order_block = (Inr False, st2'', b2'')"
    by blast
  then have ord: "fst (validate_uncles demo_env demo_store demo_order_block) = Inr False"
    by simp
  from demo_child_valid h a l k0 w f o o2 o3 b7 bad c5 c7 ord show ?thesis by blast
qed

end
